(* ===== verification/Go_Prelude.thy ===== *)
theory Go_Prelude
  imports Main "HOL-Library.Multiset" "HOL-Library.Word"
begin

text \<open>
  What every component of the development shares: the fixed-width integers of Go written out over
  \<^typ>\<open>int\<close>, the text forms of \<^verbatim>\<open>big.Int\<close>, the string functions of package \<^verbatim>\<open>strings\<close> that the
  program calls, Go maps as association lists, and effectful computations: a computation takes the
  program state and gives either a value or a panic, together with the new state. A weakest
  precondition \<open>wp\<close> over these computations carries the proofs of all components; its equations are
  collected in \<open>wp_simps\<close>.
\<close>

named_theorems wp_simps
named_theorems go_defs

section \<open>Fixed-width integers\<close>

type_synonym int64 = int
type_synonym uint64 = int

text \<open>The value of a mathematical integer once it is stored in an \<^verbatim>\<open>int64\<close> (\<^verbatim>\<open>int\<close> has 64 bits on the
  deployed \<^verbatim>\<open>linux/amd64\<close> target) or a \<^verbatim>\<open>uint64\<close>; also \<^verbatim>\<open>big.Int.Int64\<close> and \<^verbatim>\<open>big.Int.Uint64\<close>, which keep
  the low 64 bits.\<close>

definition to_int64 :: "int \<Rightarrow> int64" where
  "to_int64 x = (x + 2 ^ 63) mod 2 ^ 64 - 2 ^ 63"

definition to_uint64 :: "int \<Rightarrow> uint64" where
  "to_uint64 x = x mod 2 ^ 64"

definition in_int64 :: "int \<Rightarrow> bool" where
  "in_int64 x \<longleftrightarrow> - (2 ^ 63) \<le> x \<and> x < 2 ^ 63"

lemma to_int64_id [simp]: "in_int64 x \<Longrightarrow> to_int64 x = x"
  by (simp add: in_int64_def to_int64_def)

lemma to_int64_range: "in_int64 (to_int64 x)"
  by (simp add: in_int64_def to_int64_def)

lemma to_int64_idem [simp]: "to_int64 (to_int64 x) = to_int64 x"
  by (simp add: to_int64_range)

lemma to_uint64_id [simp]: "0 \<le> x \<Longrightarrow> x < 2 ^ 64 \<Longrightarrow> to_uint64 x = x"
  by (simp add: to_uint64_def)

text \<open>The wrap-around is the one of 64-bit words.\<close>

lemma to_int64_word: "to_int64 x = sint (word_of_int x :: 64 word)"
proof -
  have "sint (word_of_int x :: 64 word) = signed_take_bit 63 x"
    by (simp add: signed_of_int)
  also have "\<dots> = take_bit 64 (x + 2 ^ 63) - 2 ^ 63"
    using signed_take_bit_eq_take_bit_shift [of 63 x] by simp
  finally show ?thesis
    by (simp add: to_int64_def take_bit_eq_mod)
qed

section \<open>Strings\<close>

definition HasPrefix :: "string \<Rightarrow> string \<Rightarrow> bool" where
  "HasPrefix s p \<longleftrightarrow> take (length p) s = p"

definition lower_char :: "char \<Rightarrow> char" where
  "lower_char c = (let n = of_char c :: nat in if 65 \<le> n \<and> n \<le> 90 then char_of (n + 32) else c)"

definition upper_char :: "char \<Rightarrow> char" where
  "upper_char c = (let n = of_char c :: nat in if 97 \<le> n \<and> n \<le> 122 then char_of (n - 32) else c)"

text \<open>\<^verbatim>\<open>strings.ToLower\<close> and \<^verbatim>\<open>strings.ToUpper\<close> on ASCII text (addresses and hashes are hexadecimal).\<close>

definition ToLower :: "string \<Rightarrow> string" where
  "ToLower = map lower_char"

definition ToUpper :: "string \<Rightarrow> string" where
  "ToUpper = map upper_char"

lemma HasPrefix_append [simp]: "HasPrefix (p @ s) p"
  by (simp add: HasPrefix_def)

lemma HasPrefix_length: "HasPrefix s p \<Longrightarrow> length p \<le> length s"
  unfolding HasPrefix_def by (metis length_take min.cobounded1)

lemma lower_char_idem [simp]: "lower_char (lower_char c) = lower_char c"
  by (simp add: lower_char_def Let_def)

lemma ToLower_idem [simp]: "ToLower (ToLower s) = ToLower s"
  by (simp add: ToLower_def comp_def)

section \<open>Text of integers\<close>

text \<open>\<^verbatim>\<open>big.Int.Text(base)\<close>: digits below ten are \<^verbatim>\<open>0..9\<close>, the following ones lower-case letters.\<close>

definition digit_char :: "nat \<Rightarrow> char" where
  "digit_char d = (if d < 10 then char_of (48 + d) else char_of (87 + d))"

text \<open>The value of a digit character, as the scanner of package \<^verbatim>\<open>math/big\<close> reads it.\<close>

definition digit_val :: "char \<Rightarrow> nat option" where
  "digit_val c = (let n = of_char c :: nat in
     if 48 \<le> n \<and> n \<le> 57 then Some (n - 48)
     else if 97 \<le> n \<and> n \<le> 122 then Some (n - 87)
     else if 65 \<le> n \<and> n \<le> 90 then Some (n - 55)
     else None)"

fun nat_digits :: "nat \<Rightarrow> nat \<Rightarrow> string" where
  "nat_digits b n =
     (if b \<le> 1 \<or> n < b then [digit_char n] else nat_digits b (n div b) @ [digit_char (n mod b)])"

declare nat_digits.simps [simp del]

definition int_text :: "nat \<Rightarrow> int \<Rightarrow> string" where
  "int_text b i = (if i < 0 then ''-'' @ nat_digits b (nat (- i)) else nat_digits b (nat i))"

text \<open>The same digits computed on integers, for evaluation.\<close>

function int_digits :: "int \<Rightarrow> int \<Rightarrow> string" where
  "int_digits b n =
     (if b \<le> 1 \<or> n < b then [digit_char (nat n)] else int_digits b (n div b) @ [digit_char (nat (n mod b))])"
  by auto
termination
  by (relation "measure (\<lambda>(b, n). nat n)") (auto simp: pos_imp_zdiv_pos_iff intro!: int_div_less_self)

declare int_digits.simps [simp del]

lemma int_digits_nat: "0 \<le> n \<Longrightarrow> int_digits (int b) n = nat_digits b (nat n)"
proof (induction "int b" n rule: int_digits.induct)
  case (1 n)
  show ?case
  proof (cases "b \<le> 1 \<or> nat n < b")
    case False
    then have "\<not> (int b \<le> 1 \<or> n < int b)" by auto
    with 1 False show ?thesis
      by (subst int_digits.simps, subst nat_digits.simps) (simp add: nat_div_distrib nat_mod_distrib pos_imp_zdiv_nonneg_iff)
  next
    case True
    with 1 show ?thesis
      by (subst int_digits.simps, subst nat_digits.simps) auto
  qed
qed

lemma int_text_code [code]: "int_text b i = (if i < 0 then ''-'' @ int_digits (int b) (- i) else int_digits (int b) i)"
  by (simp add: int_text_def int_digits_nat)

fun scan_digits :: "nat \<Rightarrow> nat \<Rightarrow> string \<Rightarrow> nat option" where
  "scan_digits b acc [] = Some acc"
| "scan_digits b acc (c # cs) =
     (case digit_val c of
        None \<Rightarrow> None
      | Some d \<Rightarrow> if d < b then scan_digits b (acc * b + d) cs else None)"

definition scan_nat :: "nat \<Rightarrow> string \<Rightarrow> nat option" where
  "scan_nat b s = (if s = [] then None else scan_digits b 0 s)"

text \<open>\<^verbatim>\<open>big.Int.SetString(s, base)\<close> for a non-zero base: an optional sign, at least one digit, nothing
  after the digits; \<^const>\<open>None\<close> stands for \<^verbatim>\<open>(nil, false)\<close>.\<close>

definition SetString :: "nat \<Rightarrow> string \<Rightarrow> int option" where
  "SetString b s =
     (case s of
        [] \<Rightarrow> None
      | c # cs \<Rightarrow>
          if c = CHR ''-'' then map_option (\<lambda>n. - int n) (scan_nat b cs)
          else if c = CHR ''+'' then map_option int (scan_nat b cs)
          else map_option int (scan_nat b s))"

abbreviation String :: "int \<Rightarrow> string" where
  "String i \<equiv> int_text 10 i"

lemma digit_val_char:
  assumes "d < 36"
  shows "digit_val (digit_char d) = Some d"
  using assms by (auto simp: digit_val_def digit_char_def Let_def)

lemma digit_char_no_sign:
  assumes "d < 36"
  shows "digit_char d \<noteq> CHR ''-''" and "digit_char d \<noteq> CHR ''+''"
proof -
  have "digit_val (CHR ''-'') = None" "digit_val (CHR ''+'') = None"
    by (simp_all add: digit_val_def)
  then show "digit_char d \<noteq> CHR ''-''" and "digit_char d \<noteq> CHR ''+''"
    using digit_val_char [OF assms] by auto
qed

lemma scan_digits_append:
  "scan_digits b acc (xs @ ys) =
     (case scan_digits b acc xs of None \<Rightarrow> None | Some n \<Rightarrow> scan_digits b n ys)"
  by (induction xs arbitrary: acc) (auto split: option.splits)

lemma scan_nat_digits:
  assumes "1 < b" and "b \<le> 36"
  shows "scan_digits b 0 (nat_digits b n) = Some n"
  using assms
proof (induction b n rule: nat_digits.induct)
  case (1 b n)
  show ?case
  proof (cases "n < b")
    case True
    with "1.prems" show ?thesis
      by (subst nat_digits.simps) (simp add: digit_val_char)
  next
    case False
    with "1.IH" "1.prems" have "scan_digits b 0 (nat_digits b (n div b)) = Some (n div b)"
      by simp
    moreover have m: "n mod b < b" using "1.prems" by simp
    moreover have "digit_val (digit_char (n mod b)) = Some (n mod b)"
      using m "1.prems" by (intro digit_val_char) linarith
    ultimately show ?thesis using False "1.prems"
      by (subst nat_digits.simps) (simp add: scan_digits_append)
  qed
qed

lemma nat_digits_nonempty [simp]: "nat_digits b n \<noteq> []"
  by (subst nat_digits.simps) simp

lemma nat_digits_hd:
  assumes "1 < b" and "b \<le> 36"
  obtains d cs where "nat_digits b n = digit_char d # cs" and "d < 36"
  using assms
proof (induction b n arbitrary: thesis rule: nat_digits.induct)
  case (1 b n)
  show ?case
  proof (cases "n < b")
    case True
    then have "nat_digits b n = digit_char n # []" by (subst nat_digits.simps) simp
    with True "1.prems" show ?thesis by (meson less_le_trans)
  next
    case False
    with "1.IH" "1.prems"(2,3) obtain d cs
      where "nat_digits b (n div b) = digit_char d # cs" and "d < 36" by auto
    with False "1.prems" show ?thesis
      by (metis append_Cons leD nat_digits.simps)
  qed
qed

text \<open>Reading back what \<^const>\<open>int_text\<close> writes, in every base the program uses.\<close>

lemma SetString_int_text [simp]:
  assumes "1 < b" and "b \<le> 36"
  shows "SetString b (int_text b i) = Some i"
proof (cases "i < 0")
  case True
  then show ?thesis
    by (simp add: SetString_def int_text_def scan_nat_def scan_nat_digits [OF assms])
next
  case False
  obtain d cs where d: "nat_digits b (nat i) = digit_char d # cs" "d < 36"
    by (rule nat_digits_hd [OF assms])
  with False show ?thesis
    using scan_nat_digits [OF assms, of "nat i"] digit_char_no_sign [OF d(2)]
    by (simp add: SetString_def int_text_def scan_nat_def)
qed

lemma int_text_inject: "1 < b \<Longrightarrow> b \<le> 36 \<Longrightarrow> int_text b i = int_text b j \<longleftrightarrow> i = j"
  by (metis SetString_int_text option.inject)

lemma SetString_empty [simp]: "SetString b [] = None"
  by (simp add: SetString_def)

section \<open>Go maps\<close>

text \<open>A Go map is an association list with distinct keys. The order in which \<^verbatim>\<open>range\<close> visits the
  entries is unspecified: code that ranges over a map takes a reordering function as a parameter.\<close>

type_synonym ('k, 'v) gomap = "('k \<times> 'v) list"

fun map_put :: "'k \<Rightarrow> 'v \<Rightarrow> ('k, 'v) gomap \<Rightarrow> ('k, 'v) gomap" where
  "map_put k v [] = [(k, v)]"
| "map_put k v ((k', v') # m) = (if k = k' then (k, v) # m else (k', v') # map_put k v m)"

definition map_del :: "'k \<Rightarrow> ('k, 'v) gomap \<Rightarrow> ('k, 'v) gomap" where
  "map_del k m = filter (\<lambda>e. fst e \<noteq> k) m"

definition range_order :: "(('k, 'v) gomap \<Rightarrow> ('k, 'v) gomap) \<Rightarrow> bool" where
  "range_order ord \<longleftrightarrow> (\<forall>m. mset (ord m) = mset m)"

lemma map_of_map_put [simp]: "map_of (map_put k v m) = (map_of m)(k \<mapsto> v)"
  by (induction m) auto

lemma set_keys_map_put [simp]: "fst ` set (map_put k v m) = insert k (fst ` set m)"
  by (simp add: dom_map_of_conv_image_fst [symmetric])

lemma distinct_map_put [simp]:
  "distinct (map fst m) \<Longrightarrow> distinct (map fst (map_put k v m))"
proof (induction m)
  case (Cons e m)
  then show ?case
    using set_keys_map_put [of k v m] by (cases e) (auto simp del: set_keys_map_put)
qed simp

lemma map_of_map_del [simp]: "map_of (map_del k m) = (map_of m)(k := None)"
  by (induction m) (auto simp: map_del_def)

lemma distinct_map_del [simp]: "distinct (map fst m) \<Longrightarrow> distinct (map fst (map_del k m))"
  by (induction m) (auto simp: map_del_def)

lemma range_order_mset: "range_order ord \<Longrightarrow> mset (ord m) = mset m"
  by (simp add: range_order_def)

lemma range_order_set: "range_order ord \<Longrightarrow> set (ord m) = set m"
  by (metis range_order_mset set_mset_mset)

lemma range_order_length: "range_order ord \<Longrightarrow> length (ord m) = length m"
  by (metis range_order_mset size_mset)

lemma range_order_sum:
  fixes f :: "'k \<times> 'v \<Rightarrow> int"
  shows "range_order ord \<Longrightarrow> sum_list (map f (ord m)) = sum_list (map f m)"
  by (metis mset_map range_order_mset sum_mset_sum_list)

lemma range_order_id [simp]: "range_order (\<lambda>m. m)"
  by (simp add: range_order_def)

section \<open>Effects: state and panics\<close>

text \<open>A panic carries a string (\<^verbatim>\<open>panic("...")\<close>), a \<^verbatim>\<open>runtime.errorString\<close> (a nil dereference), whose
  underlying type is a string too, or another error of the runtime: a bounds failure, a struct since
  Go 1.13, or a failed type assertion, a pointer. The recovery code of the program looks at the
  \<^verbatim>\<open>reflect.Kind\<close> of the value, which is \<^verbatim>\<open>String\<close> for the first two.\<close>

datatype panic = PStr string | PErrorString string | PRuntime string

fun kind_string :: "panic \<Rightarrow> bool" where
  "kind_string (PStr e) = True"
| "kind_string (PErrorString e) = True"
| "kind_string (PRuntime e) = False"

datatype 'a out = Ret 'a | Panic panic

type_synonym ('s, 'a) eff = "'s \<Rightarrow> 'a out \<times> 's"

text \<open>A Go \<^verbatim>\<open>error\<close> is nil (\<^const>\<open>None\<close>) or carries its message.\<close>

type_synonym go_error = "string option"

definition ret :: "'a \<Rightarrow> ('s, 'a) eff" where
  "ret a s = (Ret a, s)"

definition panicE :: "panic \<Rightarrow> ('s, 'a) eff" where
  "panicE p s = (Panic p, s)"

definition bindE :: "('s, 'a) eff \<Rightarrow> ('a \<Rightarrow> ('s, 'b) eff) \<Rightarrow> ('s, 'b) eff" where
  "bindE m f s = (case m s of (Ret a, s') \<Rightarrow> f a s' | (Panic p, s') \<Rightarrow> (Panic p, s'))"

definition thenE :: "('s, 'a) eff \<Rightarrow> ('s, 'b) eff \<Rightarrow> ('s, 'b) eff" where
  "thenE m k = bindE m (\<lambda>_. k)"

definition getE :: "('s \<Rightarrow> 'a) \<Rightarrow> ('s, 'a) eff" where
  "getE f s = (Ret (f s), s)"

definition modifyE :: "('s \<Rightarrow> 's) \<Rightarrow> ('s, unit) eff" where
  "modifyE f s = (Ret (), f s)"

definition nil_deref :: panic where
  "nil_deref = PErrorString ''invalid memory address or nil pointer dereference''"

definition slice_bounds :: panic where
  "slice_bounds = PRuntime ''slice bounds out of range''"

lemmas eff_defs = ret_def panicE_def bindE_def thenE_def getE_def modifyE_def

text \<open>\<open>wp m Q s\<close>: running \<open>m\<close> from \<open>s\<close> ends with an outcome and a state that satisfy \<open>Q\<close>.\<close>

definition wp :: "('s, 'a) eff \<Rightarrow> ('a out \<Rightarrow> 's \<Rightarrow> bool) \<Rightarrow> 's \<Rightarrow> bool" where
  "wp m Q s = (case m s of (r, s') \<Rightarrow> Q r s')"

lemma wp_ret [simp, wp_simps]: "wp (ret a) Q s = Q (Ret a) s"
  by (simp add: wp_def ret_def)

lemma wp_panicE [simp, wp_simps]: "wp (panicE p) Q s = Q (Panic p) s"
  by (simp add: wp_def panicE_def)

lemma wp_bindE [wp_simps]:
  "wp (bindE m f) Q s =
     wp m (\<lambda>r s'. case r of Ret a \<Rightarrow> wp (f a) Q s' | Panic p \<Rightarrow> Q (Panic p) s') s"
  by (auto simp: wp_def bindE_def split: out.splits prod.splits)

lemma wp_thenE [wp_simps]:
  "wp (thenE m k) Q s =
     wp m (\<lambda>r s'. case r of Ret a \<Rightarrow> wp k Q s' | Panic p \<Rightarrow> Q (Panic p) s') s"
  by (simp add: thenE_def wp_bindE)

lemma wp_getE [simp, wp_simps]: "wp (getE f) Q s = Q (Ret (f s)) s"
  by (simp add: wp_def getE_def)

lemma wp_modifyE [simp, wp_simps]: "wp (modifyE f) Q s = Q (Ret ()) (f s)"
  by (simp add: wp_def modifyE_def)

lemma wp_if [wp_simps]: "wp (if b then m else n) Q s = (if b then wp m Q s else wp n Q s)"
  by simp

lemma wp_case_option [wp_simps]:
  "wp (case x of None \<Rightarrow> m | Some a \<Rightarrow> f a) Q s = (case x of None \<Rightarrow> wp m Q s | Some a \<Rightarrow> wp (f a) Q s)"
  by (cases x) simp_all

lemma wp_case_sum [wp_simps]:
  "wp (case x of Inl a \<Rightarrow> f a | Inr b \<Rightarrow> g b) Q s = (case x of Inl a \<Rightarrow> wp (f a) Q s | Inr b \<Rightarrow> wp (g b) Q s)"
  by (cases x) simp_all

lemma wp_case_prod [wp_simps]:
  "wp (case x of (a, b) \<Rightarrow> f a b) Q s = (case x of (a, b) \<Rightarrow> wp (f a b) Q s)"
  by (cases x) simp

lemma wp_mono:
  assumes "wp m P s" and "\<And>r s'. P r s' \<Longrightarrow> Q r s'"
  shows "wp m Q s"
  using assms by (auto simp: wp_def split: prod.splits)

lemma wp_run: "wp m (\<lambda>r s'. m s = (r, s')) s"
  by (simp add: wp_def)

lemma wpI: "(\<And>r s'. m s = (r, s') \<Longrightarrow> Q r s') \<Longrightarrow> wp m Q s"
  by (simp add: wp_def split: prod.splits)

lemma wpD: "wp m Q s \<Longrightarrow> m s = (r, s') \<Longrightarrow> Q r s'"
  by (simp add: wp_def)

lemma wp_conj: "wp m P s \<Longrightarrow> wp m Q s \<Longrightarrow> wp m (\<lambda>r s'. P r s' \<and> Q r s') s"
  by (simp add: wp_def split: prod.splits)

text \<open>The monad laws: sequencing is associative and \<^const>\<open>ret\<close> is neutral.\<close>

lemma bindE_ret [simp]: "bindE (ret a) f = f a"
  by (rule ext) (simp add: eff_defs)

lemma bindE_panicE [simp]: "bindE (panicE p) f = panicE p"
  by (rule ext) (simp add: eff_defs)

lemma bindE_assoc: "bindE (bindE m f) g = bindE m (\<lambda>a. bindE (f a) g)"
  by (rule ext) (auto simp: bindE_def split: out.splits prod.splits)

lemma wp_ifI: "(b \<Longrightarrow> wp m Q s) \<Longrightarrow> (\<not> b \<Longrightarrow> wp n Q s) \<Longrightarrow> wp (if b then m else n) Q s"
  by simp

text \<open>Splitting the result of a run whose outcome is known.\<close>

lemma run_eq: "fst p = a \<Longrightarrow> p = (a, snd p)"
  by auto

end
