(* ===== verification/Consts.thy ===== *)
theory Consts
  imports Go_Prelude
begin

text \<open>
  The constants of \<^verbatim>\<open>src/src/const/const.go\<close> and the transaction types of
  \<^verbatim>\<open>src/src/model/t_transaction.go\<close>: error numbers of the HTTP interface, the status of a stored
  row, the mortgage contract, fixed messages.
\<close>

section \<open>Error numbers\<close>

definition ERR_DATABASE_ERROR :: int where [go_defs]: "ERR_DATABASE_ERROR = -10001"
definition ERR_DATABASE_SELECT_ERROR :: int where [go_defs]: "ERR_DATABASE_SELECT_ERROR = -10002"
definition ERR_DATABASE_SAVE_ERROR :: int where [go_defs]: "ERR_DATABASE_SAVE_ERROR = -10003"
definition ERR_REDIS_ERROR :: int where [go_defs]: "ERR_REDIS_ERROR = -10010"
definition ERR_REDIS_SET_ERROR :: int where [go_defs]: "ERR_REDIS_SET_ERROR = -10011"
definition ERR_REDIS_GET_ERROR :: int where [go_defs]: "ERR_REDIS_GET_ERROR = -10012"
definition ERR_REDIS_DEL_ERROR :: int where [go_defs]: "ERR_REDIS_DEL_ERROR = -10013"
definition ERR_INNER_ERROR :: int where [go_defs]: "ERR_INNER_ERROR = -99999"
definition ERR_PARAMETER_INVALID :: int where [go_defs]: "ERR_PARAMETER_INVALID = 10000"
definition ERR_RPC_ERROR :: int where [go_defs]: "ERR_RPC_ERROR = 20000"
definition BLOCK_COUNT_ERROR :: int where [go_defs]: "BLOCK_COUNT_ERROR = 30000"
definition GET_BLOCKS_ERROR :: int where [go_defs]: "GET_BLOCKS_ERROR = 30001"
definition BLOCK_OR_TRANS_NOT_EXIST :: int where [go_defs]: "BLOCK_OR_TRANS_NOT_EXIST = 30002"
definition REPEAT_TRANSACTION :: int where [go_defs]: "REPEAT_TRANSACTION = 30400"
definition TRANSACTION_COUNT_ERROR :: int where [go_defs]: "TRANSACTION_COUNT_ERROR = 40000"
definition GET_TRANSACTIONS_ERROR :: int where [go_defs]: "GET_TRANSACTIONS_ERROR = 40001"

section \<open>Status of a stored block or transaction\<close>

definition ILLEGAL :: int where "ILLEGAL = 0"
definition NORMAL :: int where "NORMAL = 1"
definition FORK :: int where "FORK = 2"

lemma status_distinct [simp]:
  "NORMAL \<noteq> FORK" "FORK \<noteq> NORMAL" "ILLEGAL \<noteq> NORMAL" "NORMAL \<noteq> ILLEGAL" "ILLEGAL \<noteq> FORK" "FORK \<noteq> ILLEGAL"
  by (simp_all add: ILLEGAL_def NORMAL_def FORK_def)

lemmas status_defs = ILLEGAL_def NORMAL_def FORK_def

section \<open>Contract, messages, keys\<close>

definition TCPKeepAliveTime :: int where [go_defs]: "TCPKeepAliveTime = 5 * 60"
definition MORTGAGECONTRACTADDR :: string where
  "MORTGAGECONTRACTADDR = ''0x0000000000000000000000000000000000000081''"
definition MORTGAGECONTRACT_FUNC_MORTGAGE :: string where
  "MORTGAGECONTRACT_FUNC_MORTGAGE = ''0x43794dda''"
definition MORTGAGECONTRACT_FUNC_REDEEM :: string where
  "MORTGAGECONTRACT_FUNC_REDEEM = ''0x1e9a6950''"
definition ONEDAYBLOCK :: int where "ONEDAYBLOCK = 480"
definition HTTPOK :: int where [go_defs]: "HTTPOK = 200"
definition COOKIE_NAME_USERINFO :: string where [go_defs]: "COOKIE_NAME_USERINFO = ''USATK''"
definition DATA_NOT_EXIST :: string where "DATA_NOT_EXIST = ''data not exist''"
definition EMPTY_RSP :: string where "EMPTY_RSP = ''Empty response''"
definition UBBEY_RATE :: string where [go_defs]: "UBBEY_RATE = ''UBBEY_RATE_KEY''"

lemmas contract_defs =
  MORTGAGECONTRACTADDR_def MORTGAGECONTRACT_FUNC_MORTGAGE_def MORTGAGECONTRACT_FUNC_REDEEM_def

section \<open>Transaction types\<close>

definition TX_TYPE_UNDEFINED :: int64 where "TX_TYPE_UNDEFINED = 0"
definition TX_TYPE_ALL :: int64 where "TX_TYPE_ALL = 0"
definition TX_TYPE_FROM_ME :: int64 where "TX_TYPE_FROM_ME = 1"
definition TX_TYPE_TO_ME :: int64 where "TX_TYPE_TO_ME = 2"
definition TX_TYPE_ME_MORTGAGE :: int64 where "TX_TYPE_ME_MORTGAGE = 3"
definition TX_TYPE_ME_REDEEM :: int64 where "TX_TYPE_ME_REDEEM = 4"
definition TX_TYPE_QUERY_3OR4 :: int64 where "TX_TYPE_QUERY_3OR4 = 5"

lemmas tx_type_defs =
  TX_TYPE_UNDEFINED_def TX_TYPE_ALL_def TX_TYPE_FROM_ME_def TX_TYPE_TO_ME_def
  TX_TYPE_ME_MORTGAGE_def TX_TYPE_ME_REDEEM_def TX_TYPE_QUERY_3OR4_def

end
