(* ===== verification/World.thy ===== *)
theory World
  imports Consts
begin

text \<open>
  The data of the program and what it calls outside itself. Rows of the four tables
  (\<^verbatim>\<open>src/src/model/t_*.go\<close>), blocks, transactions and receipts as the chain node reports them
  (\<^verbatim>\<open>src/vendor/go-web3/dto\<close>), and two parameters of every definition that talks to the outside:
  \<open>table_api\<close>, the calls made to gorm and MySQL for one table, and \<open>env\<close>, the tables, the
  transactions of the database session, the clock, the connection pools and the client of the chain
  node. Nothing about the outside is fixed here; what the proofs rely on is stated as locales in
  \<open>Store_Spec\<close>. The state of the process is the record \<open>st\<close>.
\<close>

section \<open>Rows\<close>

record Block =
  F_id :: uint64
  F_block :: int64
  F_timestamp :: uint64
  F_txn :: int64
  F_miner :: string
  F_gas_used :: string
  F_gas_limit :: string
  F_hash :: string
  F_parent_hash :: string
  F_reward :: string
  F_fees :: string
  F_status :: int
  F_create_time :: string
  F_modify_time :: string

record Transaction =
  F_id_t :: uint64
  F_tx_hash :: string
  F_block_t :: int64
  F_timestamp_t :: int64
  F_from :: string
  F_to :: string
  F_value :: string
  F_tx_fee :: string
  F_status_t :: int
  F_tx_type :: int64
  F_tx_type_ext :: string
  F_create_time_t :: string
  F_modify_time_t :: string

record MinerReward =
  F_id_m :: uint64
  F_miner_m :: string
  F_total_reward :: string
  F_total_fees :: string
  F_create_time_m :: string
  F_modify_time_m :: string

text \<open>The zero values a query leaves in its target when it finds nothing.\<close>

definition zero_Block :: Block where
  "zero_Block = \<lparr>F_id = 0, F_block = 0, F_timestamp = 0, F_txn = 0, F_miner = [], F_gas_used = [],
     F_gas_limit = [], F_hash = [], F_parent_hash = [], F_reward = [], F_fees = [], F_status = 0,
     F_create_time = [], F_modify_time = []\<rparr>"

definition zero_Transaction :: Transaction where
  "zero_Transaction = \<lparr>F_id_t = 0, F_tx_hash = [], F_block_t = 0, F_timestamp_t = 0, F_from = [],
     F_to = [], F_value = [], F_tx_fee = [], F_status_t = 0, F_tx_type = 0, F_tx_type_ext = [],
     F_create_time_t = [], F_modify_time_t = []\<rparr>"

definition zero_MinerReward :: MinerReward where
  "zero_MinerReward = \<lparr>F_id_m = 0, F_miner_m = [], F_total_reward = [], F_total_fees = [],
     F_create_time_m = [], F_modify_time_m = []\<rparr>"

section \<open>What the chain node reports\<close>

record TransactionResponse =
  Version :: string
  From :: string
  Hash_tr :: string
  Nonce_tr :: int
  BlockHash_tr :: string
  BlockNumber_tr :: int
  TransactionIndex_tr :: int
  To :: string
  Input :: string
  Value :: int
  GasPrice :: int
  Gas :: int
  sig_V :: string
  sig_R :: string
  sig_S :: string

record TransactionLogs =
  Address_lg :: string
  Topics :: "string list"
  Data_lg :: string
  BlockNumber_lg :: int
  TransactionHash_lg :: string
  TransactionIndex_lg :: int
  BlockHash_lg :: string
  LogIndex :: int
  Removed :: bool

record TransactionReceipt =
  TransactionHash :: string
  TransactionIndex_rc :: int
  BlockHash_rc :: string
  BlockNumber_rc :: int
  From_rc :: string
  To_rc :: string
  CumulativeGasUsed :: int
  GasUsed_rc :: int
  ContractAddress :: string
  Logs :: "TransactionLogs list"
  Root_rc :: string
  Status_rc :: int

record ChainBlock =
  Number :: int
  Timestamp :: int
  Transactions :: "TransactionResponse list"
  Hash :: string
  ParentHash :: string
  Size :: int
  GasUsed :: int
  GasLimit :: int
  ExtraData :: string
  Root :: string
  TxHash :: string
  ReceiptHash :: string
  BlockType :: int
  KeyHash :: string
  Exceptions :: string

record Poc =
  Deadline :: int
  Nonce_poc :: int
  ScoopNumber :: int

record Content =
  Pending :: "(string, (string, TransactionResponse) gomap) gomap"
  Queued :: "(string, (string, TransactionResponse) gomap) gomap"

section \<open>Calls to gorm and MySQL\<close>

text \<open>The result of a query: what it read, gorm's \<^verbatim>\<open>ErrRecordNotFound\<close>, or another error.\<close>

datatype 'a qres = QOk 'a | QNotFound | QErr string

text \<open>
  The calls the program makes for one table: \<^verbatim>\<open>Where(..).First\<close>; \<^verbatim>\<open>Where(..).Find\<close> with an optional
  \<^verbatim>\<open>Order("k desc")\<close> and an optional \<^verbatim>\<open>Offset(o).Limit(n)\<close>; \<^verbatim>\<open>count(*)\<close>; \<^verbatim>\<open>MAX(k)\<close>, which is null on
  no rows; \<^verbatim>\<open>Create\<close>; \<^verbatim>\<open>Where(..).Model(..).Update\<close>. A \<^verbatim>\<open>WHERE\<close> clause is a predicate on rows.
\<close>

record ('w, 'r) table_api =
  tbl_first :: "('r \<Rightarrow> bool) \<Rightarrow> 'w \<Rightarrow> 'r qres \<times> 'w"
  tbl_find :: "('r \<Rightarrow> bool) \<Rightarrow> ('r \<Rightarrow> int) option \<Rightarrow> (int \<times> int) option \<Rightarrow> 'w \<Rightarrow> 'r list qres \<times> 'w"
  tbl_count :: "('r \<Rightarrow> bool) \<Rightarrow> 'w \<Rightarrow> int qres \<times> 'w"
  tbl_max :: "('r \<Rightarrow> bool) \<Rightarrow> ('r \<Rightarrow> int) \<Rightarrow> 'w \<Rightarrow> int option qres \<times> 'w"
  tbl_create :: "'r \<Rightarrow> 'w \<Rightarrow> go_error \<times> 'w"
  tbl_update :: "('r \<Rightarrow> bool) \<Rightarrow> ('r \<Rightarrow> 'r) \<Rightarrow> 'w \<Rightarrow> go_error \<times> 'w"

section \<open>Calls to the chain node\<close>

text \<open>The calls made to the \<^verbatim>\<open>Eth\<close> and \<^verbatim>\<open>Txpool\<close> modules of go-web3. Each may fail with an error
  and, since the client slices and asserts unchecked, may panic.\<close>

record 'w rpc_api =
  GetBlockNumber :: "('w, string + int) eff"
  GetBlockByNumber :: "int \<Rightarrow> bool \<Rightarrow> ('w, string + ChainBlock) eff"
  GetBlockByHash :: "string \<Rightarrow> bool \<Rightarrow> ('w, string + ChainBlock) eff"
  GetBlockPocByNumber :: "int \<Rightarrow> ('w, string + Poc) eff"
  GetTransactionByHash :: "string \<Rightarrow> ('w, string + TransactionResponse) eff"
  GetTransactionReceipt :: "string \<Rightarrow> ('w, string + TransactionReceipt) eff"
  GetBalance :: "string \<Rightarrow> string \<Rightarrow> ('w, string + int) eff"
  GetTotalRewarded :: "string \<Rightarrow> ('w, string + int) eff"
  GetTotalMortgage :: "string \<Rightarrow> ('w, string + int) eff"
  TxpoolContent :: "('w, string + Content) eff"

section \<open>The environment and the state of the process\<close>

text \<open>
  \<open>col_eq\<close> is string equality under the collation of the database; \<open>order_*\<close> are the orders in
  which Go ranges over maps; \<open>now\<close> is \<^verbatim>\<open>time.Now()\<close> in nanoseconds and \<open>now_text\<close> its text in the
  layout \<^verbatim>\<open>2006-01-02 15:04:05.000\<close>; \<open>mysql_open\<close> and \<open>redis_get\<close> give a connection or an error.
\<close>

record 'w env =
  col_eq :: "string \<Rightarrow> string \<Rightarrow> bool"
  t_block :: "('w, Block) table_api"
  t_transaction :: "('w, Transaction) table_api"
  t_miner_reward :: "('w, MinerReward) table_api"
  db_begin :: "'w \<Rightarrow> 'w"
  db_commit :: "'w \<Rightarrow> go_error \<times> 'w"
  db_rollback :: "'w \<Rightarrow> 'w"
  mysql_open :: "'w \<Rightarrow> go_error \<times> 'w"
  redis_get :: "'w \<Rightarrow> go_error \<times> 'w"
  now :: "'w \<Rightarrow> int \<times> 'w"
  now_text :: "'w \<Rightarrow> string \<times> 'w"
  rpc :: "'w rpc_api"
  order_txs :: "(string, TransactionResponse) gomap \<Rightarrow> (string, TransactionResponse) gomap"
  order_pending :: "(string, (string, TransactionResponse) gomap) gomap \<Rightarrow> (string, (string, TransactionResponse) gomap) gomap"

text \<open>
  The state: the outside world, the globals \<^verbatim>\<open>block_now\<close> and \<^verbatim>\<open>GLastBlock\<close> and the connection of
  package \<^verbatim>\<open>sync\<close>, the reward cache of \<^verbatim>\<open>get_summary\<close>, and the connections of the request being served.
\<close>

record 'w st =
  ext :: 'w
  block_now :: int64
  GLastBlock :: "ChainBlock option"
  c_mysql :: bool
  c_redis :: bool
  c_web3 :: bool
  cache_reward :: int
  cache_updatetime :: int
  x_mysql :: bool
  x_redis :: bool
  x_web3 :: bool

text \<open>A call to the outside, and one that may panic.\<close>

definition call :: "('w \<Rightarrow> 'a \<times> 'w) \<Rightarrow> ('w st, 'a) eff" where
  "call f s = (case f (ext s) of (a, w) \<Rightarrow> (Ret a, s\<lparr>ext := w\<rparr>))"

definition callE :: "('w, 'a) eff \<Rightarrow> ('w st, 'a) eff" where
  "callE f s = (case f (ext s) of (r, w) \<Rightarrow> (r, s\<lparr>ext := w\<rparr>))"

lemma wp_call [wp_simps]:
  "wp (call f) Q s = (case f (ext s) of (a, w) \<Rightarrow> Q (Ret a) (s\<lparr>ext := w\<rparr>))"
  by (simp add: wp_def call_def split: prod.splits)

lemma wp_callE [wp_simps]:
  "wp (callE f) Q s = (case f (ext s) of (r, w) \<Rightarrow> Q r (s\<lparr>ext := w\<rparr>))"
  by (simp add: wp_def callE_def split: prod.splits)

text \<open>Only the outside changed; it changed, but not the content of the tables.\<close>

definition only_ext :: "'w st \<Rightarrow> 'w st \<Rightarrow> bool" where
  "only_ext s s' \<longleftrightarrow> s' = s\<lparr>ext := ext s'\<rparr>"

definition unchanged :: "('w \<Rightarrow> 'd) \<Rightarrow> 'w st \<Rightarrow> 'w st \<Rightarrow> bool" where
  "unchanged db s s' \<longleftrightarrow> only_ext s s' \<and> db (ext s') = db (ext s)"

lemma only_ext_refl [simp]: "only_ext s s"
  by (simp add: only_ext_def)

lemma only_ext_upd [simp]: "only_ext s (s\<lparr>ext := w\<rparr>)"
  by (simp add: only_ext_def)

lemma only_extE:
  assumes "only_ext s s'"
  obtains w where "s' = s\<lparr>ext := w\<rparr>"
  using assms unfolding only_ext_def by blast

lemma only_ext_upd2 [simp]: "only_ext s s' \<Longrightarrow> only_ext s (s'\<lparr>ext := w\<rparr>)"
  by (erule only_extE) simp

lemma only_ext_trans: "only_ext s s' \<Longrightarrow> only_ext s' s'' \<Longrightarrow> only_ext s s''"
  by (erule only_extE, erule only_extE) simp

lemma only_ext_fields:
  assumes "only_ext s s'"
  shows "block_now s' = block_now s" "GLastBlock s' = GLastBlock s" "c_mysql s' = c_mysql s"
    "c_redis s' = c_redis s" "c_web3 s' = c_web3 s" "cache_reward s' = cache_reward s"
    "cache_updatetime s' = cache_updatetime s" "x_mysql s' = x_mysql s" "x_redis s' = x_redis s"
    "x_web3 s' = x_web3 s"
  using assms by (auto elim: only_extE)

lemma unchanged_refl [simp]: "unchanged db s s"
  by (simp add: unchanged_def)

lemma unchanged_trans: "unchanged db s s' \<Longrightarrow> unchanged db s' s'' \<Longrightarrow> unchanged db s s''"
  unfolding unchanged_def by (auto intro: only_ext_trans)

lemma unchanged_only_ext: "unchanged db s s' \<Longrightarrow> only_ext s s'"
  by (simp add: unchanged_def)

lemma unchanged_db: "unchanged db s s' \<Longrightarrow> db (ext s') = db (ext s)"
  by (simp add: unchanged_def)

lemma wp_bindI:
  assumes "wp m P s"
    and "\<And>a s'. P (Ret a) s' \<Longrightarrow> wp (f a) Q s'"
    and "\<And>p s'. P (Panic p) s' \<Longrightarrow> Q (Panic p) s'"
  shows "wp (bindE m f) Q s"
  using assms(1) by (auto intro!: wp_mono [OF assms(1)] simp: wp_bindE assms(2,3) split: out.splits)

lemma wp_thenI:
  assumes "wp m P s"
    and "\<And>a s'. P (Ret a) s' \<Longrightarrow> wp k Q s'"
    and "\<And>p s'. P (Panic p) s' \<Longrightarrow> Q (Panic p) s'"
  shows "wp (thenE m k) Q s"
  using assms unfolding thenE_def by (rule wp_bindI)

end
