(* ===== verification/Util.thy ===== *)
theory Util
  imports World
begin

text \<open>
  \<^verbatim>\<open>src/src/util/util.go\<close>: the assertion helper and the random strings. The random source is a
  parameter: \<open>rnd i\<close> is the number the \<open>i\<close>-th call of \<^verbatim>\<open>r.Intn\<close> gives before it is reduced to its bound,
  so every alphabet index is below the alphabet's length by the contract of \<^verbatim>\<open>Intn\<close>.
\<close>

definition ASSERT :: "bool \<Rightarrow> string \<Rightarrow> ('s, unit) eff" where
  "ASSERT expr errstr = (if \<not> expr then panicE (PStr errstr) else ret ())"

lemma wp_ASSERT [simp, wp_simps]:
  "wp (ASSERT b e) Q s = (if b then Q (Ret ()) s else Q (Panic (PStr e)) s)"
  by (simp add: ASSERT_def)

definition Intn :: "(nat \<Rightarrow> nat) \<Rightarrow> nat \<Rightarrow> nat \<Rightarrow> nat" where
  "Intn rnd i n = rnd i mod n"

definition random_chars :: "(nat \<Rightarrow> nat) \<Rightarrow> string \<Rightarrow> int \<Rightarrow> string" where
  "random_chars rnd alphabet l = map (\<lambda>i. alphabet ! Intn rnd i (length alphabet)) [0..<nat l]"

definition digits10 :: string where
  "digits10 = ''0123456789''"

definition GetRandomString :: "(nat \<Rightarrow> nat) \<Rightarrow> int \<Rightarrow> string" where
  "GetRandomString rnd l = random_chars rnd digits10 l"

definition alphabet62 :: string where
  "alphabet62 = ''0123456789'' @ ''abcdefghijKlmnopqrstuvwxyz'' @ ''ABCDEFGHIJKLMNOPQRSTUVWXYZ''"

definition GetRandomCharacter :: "(nat \<Rightarrow> nat) \<Rightarrow> int \<Rightarrow> string" where
  "GetRandomCharacter rnd l = random_chars rnd alphabet62 l"

lemma random_chars_length: "length (random_chars rnd a l) = nat l"
  by (simp add: random_chars_def)

lemma random_chars_set: "a \<noteq> [] \<Longrightarrow> set (random_chars rnd a l) \<subseteq> set a"
  by (auto simp: random_chars_def Intn_def)

text \<open>\<^verbatim>\<open>MD5\<close> renders the digest of the standard library in hexadecimal; the digest is a parameter.\<close>

definition hex_byte :: "nat \<Rightarrow> string" where
  "hex_byte n = [digit_char (n div 16 mod 16), digit_char (n mod 16)]"

definition MD5 :: "(string \<Rightarrow> nat list) \<Rightarrow> string \<Rightarrow> string" where
  "MD5 md5sum dat = concat (map hex_byte (md5sum dat))"

end
