(* ===== verification/Store_Spec.thy ===== *)
theory Store_Spec
  imports World
begin

text \<open>
  The interface between the program and what it does not contain: what gorm and MySQL promise for one
  table (\<open>sql_table\<close>), for the whole database with its transactions (\<open>gorm_db\<close>), for a database whose
  commits do not fail (\<open>gorm_db_reliable\<close>), and what a chain node promises (\<open>chain_node\<close>). The laws are
  stated over abstraction functions: \<open>db w\<close> is the content of the tables in world \<open>w\<close>, as bags of
  rows. Errors are always possible unless a law says otherwise. The locales are interpreted on the
  tables of \<^verbatim>\<open>create_table.go\<close> in \<open>Table_Store\<close>.
\<close>

section \<open>Paging\<close>

text \<open>\<^verbatim>\<open>OFFSET\<close> and \<^verbatim>\<open>LIMIT\<close>; gorm leaves a clause with a negative argument out.\<close>

definition page :: "int \<Rightarrow> int \<Rightarrow> 'a list \<Rightarrow> 'a list" where
  "page off n xs = (let ys = drop (nat off) xs in if n < 0 then ys else take (nat n) ys)"

lemma length_page: "0 \<le> n \<Longrightarrow> int (length (page off n xs)) \<le> n"
  by (simp add: page_def Let_def)

lemma set_page: "set (page off n xs) \<subseteq> set xs"
  by (auto simp: page_def Let_def dest: in_set_takeD in_set_dropD)

lemma page_append:
  assumes "0 \<le> off" and "0 \<le> m" and "0 \<le> n"
  shows "page off m xs @ page (off + m) n xs = page off (m + n) xs"
proof -
  have "drop (nat (off + m)) xs = drop (nat m) (drop (nat off) xs)"
    using assms by (simp add: nat_add_distrib add.commute)
  with assms show ?thesis
    by (simp add: page_def Let_def nat_add_distrib take_add)
qed

section \<open>One table\<close>

locale sql_table =
  fixes T :: "('w, 'r) table_api"
    and rows :: "'w \<Rightarrow> 'r multiset"
    and rest :: "'w \<Rightarrow> 'q"
    and snap :: "'w \<Rightarrow> 'd"
    and rid :: "'r \<Rightarrow> int"
    and set_rid :: "int \<Rightarrow> 'r \<Rightarrow> 'r"
    and same_key :: "'r \<Rightarrow> 'r \<Rightarrow> bool"
  assumes first_row: "tbl_first T P w = (QOk r, w') \<Longrightarrow> r \<in># rows w \<and> P r"
    and first_none: "tbl_first T P w = (QNotFound, w') \<Longrightarrow> r \<in># rows w \<Longrightarrow> \<not> P r"
    and first_frame: "tbl_first T P w = (q, w') \<Longrightarrow> rows w' = rows w \<and> rest w' = rest w"
    and find_rows: "tbl_find T P ord None w = (QOk rs, w') \<Longrightarrow> mset rs = filter_mset P (rows w)"
    and find_page: "tbl_find T P (Some k) (Some (off, n)) w = (QOk rs, w') \<Longrightarrow>
      \<exists>xs. mset xs = filter_mset P (rows w) \<and> sorted_wrt (\<lambda>a b. k b \<le> k a) xs \<and> rs = page off n xs"
    and find_found: "tbl_find T P ord pg w \<noteq> (QNotFound, w')"
    and find_frame: "tbl_find T P ord pg w = (q2, w') \<Longrightarrow> rows w' = rows w \<and> rest w' = rest w"
    and count_rows: "tbl_count T P w = (QOk c, w') \<Longrightarrow> c = int (size (filter_mset P (rows w)))"
    and count_frame: "tbl_count T P w = (q3, w') \<Longrightarrow> rows w' = rows w \<and> rest w' = rest w"
    and max_rows: "tbl_max T P k w = (QOk m, w') \<Longrightarrow>
      m = (if filter_mset P (rows w) = {#} then None else Some (Max (k ` set_mset (filter_mset P (rows w)))))"
    and max_found: "tbl_max T P k w \<noteq> (QNotFound, w')"
    and max_frame: "tbl_max T P k w = (q4, w') \<Longrightarrow> rows w' = rows w \<and> rest w' = rest w"
    and create_ok: "tbl_create T r w = (None, w') \<Longrightarrow>
      \<exists>i. i \<noteq> 0 \<and> (\<forall>r' \<in># rows w. rid r' \<noteq> i) \<and> (rid r \<noteq> 0 \<longrightarrow> i = rid r) \<and>
          (\<forall>r' \<in># rows w. \<not> same_key r' r) \<and>
          rows w' = add_mset (set_rid i r) (rows w) \<and> rest w' = rest w"
    and create_err: "tbl_create T r w = (Some e, w') \<Longrightarrow> rows w' = rows w \<and> rest w' = rest w"
    and update_ok: "tbl_update T P f w = (None, w') \<Longrightarrow>
      rows w' = image_mset (\<lambda>r. if P r then f r else r) (rows w) \<and> rest w' = rest w"
    and update_snap: "tbl_update T P f w = (e2, w') \<Longrightarrow> snap w' = snap w"
begin

text \<open>A row created twice is refused the second time.\<close>

lemma create_duplicate:
  assumes "r' \<in># rows w" and "same_key r' r"
  shows "fst (tbl_create T r w) \<noteq> None"
proof
  assume "fst (tbl_create T r w) = None"
  then obtain w' where "tbl_create T r w = (None, w')"
    by (metis prod.collapse)
  from create_ok [OF this] assms show False by blast
qed

lemma create_taken_id:
  assumes "r' \<in># rows w" and "rid r' = rid r" and "rid r \<noteq> 0"
  shows "fst (tbl_create T r w) \<noteq> None"
proof
  assume "fst (tbl_create T r w) = None"
  then obtain w' where "tbl_create T r w = (None, w')"
    by (metis prod.collapse)
  from create_ok [OF this] assms show False by metis
qed

end

section \<open>The database\<close>

record dbst =
  blocks :: "Block multiset"
  txs :: "Transaction multiset"
  rewards :: "MinerReward multiset"

locale gorm_db =
  blk: sql_table "t_block E" "\<lambda>w. blocks (db w)" "\<lambda>w. (txs (db w), rewards (db w))" snap
    F_id "\<lambda>i r. r\<lparr>F_id := i\<rparr>" "\<lambda>a b. col_eq E (F_hash a) (F_hash b)" +
  trx: sql_table "t_transaction E" "\<lambda>w. txs (db w)" "\<lambda>w. (blocks (db w), rewards (db w))" snap
    F_id_t "\<lambda>i r. r\<lparr>F_id_t := i\<rparr>" "\<lambda>a b. col_eq E (F_tx_hash a) (F_tx_hash b)" +
  mrw: sql_table "t_miner_reward E" "\<lambda>w. rewards (db w)" "\<lambda>w. (blocks (db w), txs (db w))" snap
    F_id_m "\<lambda>i r. r\<lparr>F_id_m := i\<rparr>" "\<lambda>a b. col_eq E (F_miner_m a) (F_miner_m b)"
  for E :: "'w env" and db :: "'w \<Rightarrow> dbst" and snap :: "'w \<Rightarrow> dbst" +
  assumes col_refl: "col_eq E x x"
    and col_sym: "col_eq E x y \<Longrightarrow> col_eq E y x"
    and col_trans: "col_eq E x y \<Longrightarrow> col_eq E y z \<Longrightarrow> col_eq E x z"
    and begin_db: "db (db_begin E w) = db w"
    and begin_snap: "snap (db_begin E w) = db w"
    and commit_ok: "db_commit E w = (None, w') \<Longrightarrow> db w' = db w"
    and commit_err: "db_commit E w = (Some e, w') \<Longrightarrow> db w' = snap w"
    and rollback_db: "db (db_rollback E w) = snap w"
    and open_db: "mysql_open E w = (e3, w') \<Longrightarrow> db w' = db w"
    and redis_db: "redis_get E w = (e3, w') \<Longrightarrow> db w' = db w"
    and now_db: "now E w = (t, w') \<Longrightarrow> db w' = db w"
    and now_text_db: "now_text E w = (tt, w') \<Longrightarrow> db w' = db w \<and> snap w' = snap w"

locale gorm_db_reliable = gorm_db +
  assumes commit_reliable: "fst (db_commit E w) = None"

section \<open>The chain node\<close>

text \<open>
  \<open>hdr x\<close> is the height and the parent hash of the block whose hash is \<open>x\<close>: a hash determines its
  block. \<open>canon w\<close> stands for the chain the node follows in world \<open>w\<close>; it may change between any two
  calls except between the two block fetches of one copy, which see the same chain. Fetching does not
  touch the tables.
\<close>

locale chain_node = gorm_db_reliable E db snap
  for E :: "'w env" and db :: "'w \<Rightarrow> dbst" and snap :: "'w \<Rightarrow> dbst" +
  fixes hdr :: "string \<Rightarrow> int \<times> string" and canon :: "'w \<Rightarrow> 'c"
  assumes hdr_col: "col_eq E x y \<Longrightarrow> hdr x = hdr y"
    and rpc_number_db: "GetBlockNumber (rpc E) w = (rn, w') \<Longrightarrow> db w' = db w"
    and number_range: "GetBlockNumber (rpc E) w = (Ret (Inr n), w') \<Longrightarrow> 0 \<le> n \<and> n < 2 ^ 63"
    and rpc_block_db: "GetBlockByNumber (rpc E) n d w = (rb, w') \<Longrightarrow> db w' = db w \<and> canon w' = canon w"
    and block_number: "GetBlockByNumber (rpc E) n d w = (Ret (Inr b), w') \<Longrightarrow> Number b = n"
    and block_header: "GetBlockByNumber (rpc E) n d w = (Ret (Inr b), w') \<Longrightarrow>
      hdr (Hash b) = (Number b, ParentHash b)"
    and block_parent: "GetBlockByNumber (rpc E) n d w = (Ret (Inr b), w1) \<Longrightarrow>
      GetBlockByNumber (rpc E) (n - 1) d' w2 = (Ret (Inr p), w3) \<Longrightarrow> canon w2 = canon w1 \<Longrightarrow>
      ParentHash b = Hash p"
    and rpc_receipt_db: "GetTransactionReceipt (rpc E) x w = (rr, w') \<Longrightarrow> db w' = db w"

end
