(* ===== verification/Model_Block.thy ===== *)
theory Model_Block
  imports Util Store_Spec
begin

text \<open>
  \<^verbatim>\<open>src/src/model/t_block.go\<close>: the accessors of table \<^verbatim>\<open>t_block\<close>. A lookup gives the row and an error; the
  hooks \<^verbatim>\<open>BeforeCreate\<close> and \<^verbatim>\<open>BeforeUpdate\<close>, which gorm runs inside \<^verbatim>\<open>Create\<close> and \<^verbatim>\<open>Update\<close>, set the
  times and the status. The lemmas in \<open>gorm_db\<close> say what each accessor reads and leaves unchanged.
\<close>

section \<open>Outcomes of queries\<close>

text \<open>The two shapes in which the accessors hand on gorm's result: not found is an error value and
  anything else a panic; or every failure is an error value. \<open>z\<close> is the target's zero value.\<close>

definition found_or_panic :: "string \<Rightarrow> 'a \<Rightarrow> 'a qres \<Rightarrow> ('s, 'a \<times> go_error) eff" where
  "found_or_panic who z q =
     (case q of
        QNotFound \<Rightarrow> ret (z, Some DATA_NOT_EXIST)
      | QErr e \<Rightarrow> panicE (PStr (who @ '' error:'' @ e))
      | QOk a \<Rightarrow> ret (a, None))"

definition found_or_error :: "string \<Rightarrow> 'a \<Rightarrow> 'a qres \<Rightarrow> ('s, 'a \<times> go_error) eff" where
  "found_or_error who z q =
     (case q of
        QNotFound \<Rightarrow> ret (z, Some (who @ '' error:'' @ ''record not found''))
      | QErr e \<Rightarrow> ret (z, Some (who @ '' error:'' @ e))
      | QOk a \<Rightarrow> ret (a, None))"

lemma wp_found_or_panic [wp_simps]:
  "wp (found_or_panic who z q) Q s =
     (case q of
        QNotFound \<Rightarrow> Q (Ret (z, Some DATA_NOT_EXIST)) s
      | QErr e \<Rightarrow> Q (Panic (PStr (who @ '' error:'' @ e))) s
      | QOk a \<Rightarrow> Q (Ret (a, None)) s)"
  by (simp add: found_or_panic_def split: qres.splits)

lemma wp_found_or_error [wp_simps]:
  "wp (found_or_error who z q) Q s =
     (case q of
        QNotFound \<Rightarrow> Q (Ret (z, Some (who @ '' error:'' @ ''record not found''))) s
      | QErr e \<Rightarrow> Q (Ret (z, Some (who @ '' error:'' @ e))) s
      | QOk a \<Rightarrow> Q (Ret (a, None)) s)"
  by (simp add: found_or_error_def split: qres.splits)

section \<open>Hooks\<close>

definition BeforeCreate_Block :: "string \<Rightarrow> Block \<Rightarrow> Block" where
  "BeforeCreate_Block newFormat block =
     block\<lparr>F_create_time := newFormat, F_modify_time := newFormat, F_status := NORMAL\<rparr>"

definition BeforeUpdate_Block :: "string \<Rightarrow> Block \<Rightarrow> Block" where
  "BeforeUpdate_Block newFormat block = block\<lparr>F_modify_time := newFormat\<rparr>"

section \<open>Writing\<close>

definition CreateBlock :: "'w env \<Rightarrow> Block \<Rightarrow> ('w st, go_error) eff" where
  "CreateBlock E block =
     thenE (ASSERT (F_hash block \<noteq> []) ''create block, F_hash can't be nul'')
    (thenE (ASSERT (F_parent_hash block \<noteq> []) ''create block, F_parent_hash can't be nul'')
    (bindE (call (now_text E)) (\<lambda>newFormat.
     call (tbl_create (t_block E) (BeforeCreate_Block newFormat block)))))"

definition updateBlockColumn :: "'w env \<Rightarrow> Block \<Rightarrow> (Block \<Rightarrow> Block) \<Rightarrow> ('w st, go_error) eff" where
  "updateBlockColumn E b updateinfo =
     thenE (call (\<lambda>w. ((), db_begin E w)))
    (bindE (call (now_text E)) (\<lambda>newFormat.
     bindE (call (tbl_update (t_block E) (\<lambda>r. F_id r = F_id b)
              (\<lambda>r. BeforeUpdate_Block newFormat (updateinfo r)))) (\<lambda>err.
     case err of
       Some e \<Rightarrow> thenE (call (\<lambda>w. ((), db_rollback E w))) (ret (Some e))
     | None \<Rightarrow> thenE (call (db_commit E)) (ret None))))"

definition UpdateBlockStatus :: "'w env \<Rightarrow> Block \<Rightarrow> ('w st, go_error) eff" where
  "UpdateBlockStatus E b = updateBlockColumn E b (\<lambda>r. r\<lparr>F_status := F_status b\<rparr>)"

section \<open>Reading\<close>

definition FindBlockByHash :: "'w env \<Rightarrow> string \<Rightarrow> ('w st, Block \<times> go_error) eff" where
  "FindBlockByHash E hash =
     bindE (call (tbl_first (t_block E) (\<lambda>b. col_eq E (F_hash b) hash)))
       (found_or_panic ''FindBlockByHash'' zero_Block)"

definition FindBlockByHeight :: "'w env \<Rightarrow> int64 \<Rightarrow> ('w st, Block \<times> go_error) eff" where
  "FindBlockByHeight E height =
     bindE (call (tbl_first (t_block E) (\<lambda>b. F_block b = height \<and> F_status b = NORMAL)))
       (found_or_panic ''FindBlockByHeight'' zero_Block)"

definition GetRecentBlocks :: "'w env \<Rightarrow> int \<Rightarrow> int \<Rightarrow> ('w st, Block list \<times> go_error) eff" where
  "GetRecentBlocks E offset sz =
     bindE (call (tbl_find (t_block E) (\<lambda>b. F_status b = NORMAL) (Some F_block) (Some (offset, sz))))
       (found_or_error ''GetRecentBlocks'' [])"

definition GetRecentOneDayReward :: "'w env \<Rightarrow> int \<Rightarrow> int \<Rightarrow> ('w st, Block list \<times> go_error) eff" where
  "GetRecentOneDayReward E offset sz =
     bindE (call (tbl_find (t_block E) (\<lambda>b. F_status b = NORMAL) (Some F_block) (Some (offset, sz))))
       (found_or_error ''GetRecentBlocks'' [])"

definition unix :: "int \<Rightarrow> int64" where
  "unix ns = to_int64 (ns div 1000000000)"

definition GetRecentOneDayBlockNumber :: "'w env \<Rightarrow> ('w st, int64 \<times> go_error) eff" where
  "GetRecentOneDayBlockNumber E =
     bindE (call (now E)) (\<lambda>t1. let end = unix t1 in
     bindE (call (now E)) (\<lambda>t2. let start = unix (t2 - 24 * 3600 * 1000000000) in
     bindE (call (tbl_count (t_block E)
              (\<lambda>b. F_timestamp b \<ge> start \<and> F_timestamp b \<le> end \<and> F_status b = NORMAL)))
       (found_or_panic ''FindMinedBlockByAddrAndTime'' 0)))"

definition GetBlocksByMinerAddr ::
  "'w env \<Rightarrow> string \<Rightarrow> int \<Rightarrow> int \<Rightarrow> ('w st, Block list \<times> go_error) eff" where
  "GetBlocksByMinerAddr E addr offset sz =
     bindE (call (tbl_find (t_block E) (\<lambda>b. col_eq E (F_miner b) addr \<and> F_status b = NORMAL)
              (Some F_block) (Some (offset, sz))))
       (found_or_error ''GetRecentBlocks'' [])"

definition GetBlockByHash_db :: "'w env \<Rightarrow> string \<Rightarrow> ('w st, Block list \<times> go_error) eff" where
  "GetBlockByHash_db E hash =
     bindE (call (tbl_find (t_block E) (\<lambda>b. col_eq E (F_hash b) hash \<and> F_status b = NORMAL) None None))
       (found_or_error ''GetBlockByHash'' [])"

definition GetActiveBlockNum :: "'w env \<Rightarrow> ('w st, int64 \<times> go_error) eff" where
  "GetActiveBlockNum E =
     bindE (call (tbl_count (t_block E) (\<lambda>b. F_status b = NORMAL)))
       (found_or_error ''GetActiveBlockNum'' 0)"

definition GetActiveBlockNumByAddr :: "'w env \<Rightarrow> string \<Rightarrow> ('w st, int64 \<times> go_error) eff" where
  "GetActiveBlockNumByAddr E addr =
     bindE (call (tbl_count (t_block E) (\<lambda>b. col_eq E (F_miner b) addr \<and> F_status b = NORMAL)))
       (found_or_error ''GetActiveBlockNum'' 0)"

text \<open>\<^verbatim>\<open>MAX\<close> over no rows is null, which leaves the target at zero without an error.\<close>

definition GetMaxBlocNumber :: "'w env \<Rightarrow> ('w st, int64 \<times> go_error) eff" where
  "GetMaxBlocNumber E =
     bindE (call (tbl_max (t_block E) (\<lambda>b. F_status b = NORMAL) F_block)) (\<lambda>q.
     bindE (found_or_panic ''GetMaxBlocNumber'' None q) (\<lambda>(m, err).
     ret (case m of None \<Rightarrow> 0 | Some n \<Rightarrow> n, err)))"

definition FindMinedBlockByAddrAndTime ::
  "'w env \<Rightarrow> string \<Rightarrow> int64 \<Rightarrow> int64 \<Rightarrow> ('w st, Block list \<times> go_error) eff" where
  "FindMinedBlockByAddrAndTime E addr start end =
     bindE (call (tbl_find (t_block E)
              (\<lambda>b. col_eq E (F_miner b) addr \<and> F_timestamp b \<ge> start \<and> F_timestamp b \<le> end \<and>
                   F_status b = NORMAL) None None))
       (found_or_panic ''FindMinedBlockByAddrAndTime'' [])"

text \<open>The grouped query is the database's: \<open>scan\<close> answers the \<^verbatim>\<open>SELECT\<close> with its \<^verbatim>\<open>GROUP BY\<close> over the rows of a clause.\<close>

record MinedBlocksGroupByDate =
  Date_g :: string
  Num_g :: string
  Reward_g :: string
  Fees_g :: string

definition FindMinedBlockByAddrAndGroupByDate ::
  "'w env \<Rightarrow> ((Block \<Rightarrow> bool) \<Rightarrow> 'w \<Rightarrow> MinedBlocksGroupByDate list qres \<times> 'w) \<Rightarrow> string \<Rightarrow> int64 \<Rightarrow> int64 \<Rightarrow>
    ('w st, MinedBlocksGroupByDate list \<times> go_error) eff" where
  "FindMinedBlockByAddrAndGroupByDate E scan addr start end =
     bindE (call (scan (\<lambda>b. col_eq E (F_miner b) addr \<and> F_timestamp b \<ge> start \<and> F_timestamp b \<le> end \<and>
                   F_status b = NORMAL)))
       (found_or_panic ''FindMinedBlockByAddrAndTime'' [])"

section \<open>What the accessors do\<close>

lemma dbst_eqI: "blocks a = blocks b \<Longrightarrow> txs a = txs b \<Longrightarrow> rewards a = rewards b \<Longrightarrow> a = (b :: dbst)"
  by simp

text \<open>The effect of a column update on the row it names.\<close>

definition update_blocks :: "uint64 \<Rightarrow> (Block \<Rightarrow> Block) \<Rightarrow> dbst \<Rightarrow> dbst" where
  "update_blocks i f D = D\<lparr>blocks := image_mset (\<lambda>r. if F_id r = i then f r else r) (blocks D)\<rparr>"

definition block_updated :: "Block \<Rightarrow> (Block \<Rightarrow> Block) \<Rightarrow> dbst \<Rightarrow> dbst \<Rightarrow> bool" where
  "block_updated b f D D' \<longleftrightarrow> (\<exists>t. D' = update_blocks (F_id b) (\<lambda>r. BeforeUpdate_Block t (f r)) D)"

text \<open>The effect of an insertion: a fresh id, a hash no other row has, the hook's columns.\<close>

definition block_created :: "'w env \<Rightarrow> Block \<Rightarrow> dbst \<Rightarrow> dbst \<Rightarrow> bool" where
  "block_created E b D D' \<longleftrightarrow>
     (\<exists>i t. i \<noteq> 0 \<and> (F_id b \<noteq> 0 \<longrightarrow> i = F_id b) \<and>
        (\<forall>r \<in># blocks D. F_id r \<noteq> i \<and> \<not> col_eq E (F_hash r) (F_hash b)) \<and>
        D' = D\<lparr>blocks := add_mset ((BeforeCreate_Block t b)\<lparr>F_id := i\<rparr>) (blocks D)\<rparr>)"

context gorm_db
begin

lemma blk_first_frame: "tbl_first (t_block E) P w = (q, w') \<Longrightarrow> db w' = db w"
  using blk.first_frame [of P w q w'] by auto

lemma blk_find_frame: "tbl_find (t_block E) P ord pg w = (q, w') \<Longrightarrow> db w' = db w"
  using blk.find_frame [of P ord pg w q w'] by auto

lemma blk_count_frame: "tbl_count (t_block E) P w = (q, w') \<Longrightarrow> db w' = db w"
  using blk.count_frame [of P w q w'] by auto

lemma blk_max_frame: "tbl_max (t_block E) P k w = (q, w') \<Longrightarrow> db w' = db w"
  using blk.max_frame [of P k w q w'] by auto

lemma blk_create_err: "tbl_create (t_block E) r w = (Some e, w') \<Longrightarrow> db w' = db w"
  using blk.create_err [of r w e w'] by auto

lemma blk_create_ok:
  assumes "tbl_create (t_block E) (BeforeCreate_Block t b) w = (None, w')"
  shows "block_created E b (db w) (db w')"
proof -
  let ?c = "BeforeCreate_Block t b"
  have c: "F_id ?c = F_id b" "F_hash ?c = F_hash b"
    by (simp_all add: BeforeCreate_Block_def)
  obtain i where i: "i \<noteq> 0" "\<forall>r \<in># blocks (db w). F_id r \<noteq> i" "F_id b \<noteq> 0 \<longrightarrow> i = F_id b"
      "\<forall>r \<in># blocks (db w). \<not> col_eq E (F_hash r) (F_hash b)"
    and bs: "blocks (db w') = add_mset (?c\<lparr>F_id := i\<rparr>) (blocks (db w))"
    and os: "txs (db w') = txs (db w)" "rewards (db w') = rewards (db w)"
    using blk.create_ok [OF assms] unfolding c by blast
  have "db w' = (db w)\<lparr>blocks := add_mset (?c\<lparr>F_id := i\<rparr>) (blocks (db w))\<rparr>"
    by (rule dbst_eqI) (simp_all add: bs os)
  with i show ?thesis unfolding block_created_def by blast
qed

lemma blk_update_ok:
  "tbl_update (t_block E) (\<lambda>r. F_id r = F_id b) (\<lambda>r. BeforeUpdate_Block t (f r)) w = (None, w') \<Longrightarrow>
     block_updated b f (db w) (db w') \<and> snap w' = snap w"
  using blk.update_ok [of "\<lambda>r. F_id r = F_id b" "\<lambda>r. BeforeUpdate_Block t (f r)" w w']
    blk.update_snap [of "\<lambda>r. F_id r = F_id b" "\<lambda>r. BeforeUpdate_Block t (f r)" w None w']
  unfolding block_updated_def update_blocks_def by (auto intro!: exI [of _ t] dbst_eqI)

lemma commit_cases: "db_commit E w = (e, w') \<Longrightarrow> db w' = db w \<or> db w' = snap w"
  by (cases e) (auto dest: commit_ok commit_err)

lemma FindBlockByHash_wp:
  "wp (FindBlockByHash E hash) (\<lambda>r s'. unchanged db s s' \<and>
     (case r of
        Ret (b, None) \<Rightarrow> b \<in># blocks (db (ext s)) \<and> col_eq E (F_hash b) hash
      | Ret (b, Some e) \<Rightarrow> b = zero_Block \<and> e = DATA_NOT_EXIST \<and>
          (\<forall>b' \<in># blocks (db (ext s)). \<not> col_eq E (F_hash b') hash)
      | Panic p \<Rightarrow> (\<exists>e. p = PStr e))) s"
  by (auto simp: FindBlockByHash_def wp_simps unchanged_def blk_first_frame
      split: prod.splits qres.splits dest: blk.first_row blk.first_none)

lemma FindBlockByHeight_wp:
  "wp (FindBlockByHeight E height) (\<lambda>r s'. unchanged db s s' \<and>
     (case r of
        Ret (b, None) \<Rightarrow> b \<in># blocks (db (ext s)) \<and> F_block b = height \<and> F_status b = NORMAL
      | Ret (b, Some e) \<Rightarrow> b = zero_Block \<and> e = DATA_NOT_EXIST \<and>
          (\<forall>b' \<in># blocks (db (ext s)). \<not> (F_block b' = height \<and> F_status b' = NORMAL))
      | Panic p \<Rightarrow> (\<exists>e. p = PStr e))) s"
  by (auto simp: FindBlockByHeight_def wp_simps unchanged_def blk_first_frame
      split: prod.splits qres.splits dest: blk.first_row blk.first_none)

lemma CreateBlock_wp:
  "wp (CreateBlock E b) (\<lambda>r s'. only_ext s s' \<and>
     (case r of
        Ret None \<Rightarrow> F_hash b \<noteq> [] \<and> F_parent_hash b \<noteq> [] \<and> block_created E b (db (ext s)) (db (ext s'))
      | Ret (Some e) \<Rightarrow> db (ext s') = db (ext s)
      | Panic p \<Rightarrow> db (ext s') = db (ext s) \<and> (\<exists>e. p = PStr e))) s"
  by (auto simp: CreateBlock_def wp_simps split: prod.splits option.splits
      dest!: blk_create_ok now_text_db blk_create_err)

lemma updateBlockColumn_wp:
  "wp (updateBlockColumn E b f) (\<lambda>r s'. only_ext s s' \<and> (\<exists>e. r = Ret e) \<and>
     (db (ext s') = db (ext s) \<or>
      r = Ret None \<and> block_updated b f (db (ext s)) (db (ext s')))) s"
  unfolding updateBlockColumn_def
  by (auto simp: wp_simps begin_db begin_snap rollback_db split: prod.splits option.splits
      dest!: now_text_db commit_cases blk_update_ok dest: blk.update_snap)

end

text \<open>A commit that does not fail makes the update visible whenever no error is reported.\<close>

context gorm_db_reliable
begin

lemma commit_done: "db_commit E w = (e, w') \<Longrightarrow> e = None \<and> db w' = db w"
  using commit_reliable [of w] commit_ok [of w w'] by auto

lemma updateBlockColumn_reliable:
  "wp (updateBlockColumn E b f) (\<lambda>r s'. only_ext s s' \<and>
     (case r of
        Ret None \<Rightarrow> block_updated b f (db (ext s)) (db (ext s'))
      | Ret (Some e) \<Rightarrow> db (ext s') = db (ext s)
      | Panic p \<Rightarrow> False)) s"
  unfolding updateBlockColumn_def
  by (auto simp: wp_simps begin_db begin_snap rollback_db split: prod.splits option.splits
      dest!: now_text_db commit_done blk_update_ok dest: blk.update_snap)

end

end
