(* ===== verification/Model_Transaction.thy ===== *)
theory Model_Transaction
  imports Model_Block
begin

text \<open>
  \<^verbatim>\<open>src/src/model/t_transaction.go\<close>: the accessors of table \<^verbatim>\<open>t_transaction\<close>, in the order of the file,
  with the lemmas that say what each reads, writes and leaves unchanged.
\<close>

section \<open>Hooks and writing\<close>

definition BeforeCreate_Transaction :: "string \<Rightarrow> Transaction \<Rightarrow> Transaction" where
  "BeforeCreate_Transaction newFormat t =
     t\<lparr>F_create_time_t := newFormat, F_modify_time_t := newFormat, F_status_t := NORMAL\<rparr>"

definition BeforeUpdate_Transaction :: "string \<Rightarrow> Transaction \<Rightarrow> Transaction" where
  "BeforeUpdate_Transaction newFormat t = t\<lparr>F_modify_time_t := newFormat\<rparr>"

definition CreateTransaction :: "'w env \<Rightarrow> Transaction \<Rightarrow> ('w st, go_error) eff" where
  "CreateTransaction E t =
     thenE (ASSERT (F_tx_hash t \<noteq> []) ''CreateTransaction, F_tx_hash can't be nul'')
    (bindE (call (now_text E)) (\<lambda>newFormat.
     call (tbl_create (t_transaction E) (BeforeCreate_Transaction newFormat t))))"

definition updateTransactionColumn ::
  "'w env \<Rightarrow> Transaction \<Rightarrow> (Transaction \<Rightarrow> Transaction) \<Rightarrow> ('w st, go_error) eff" where
  "updateTransactionColumn E t updateinfo =
     thenE (call (\<lambda>w. ((), db_begin E w)))
    (bindE (call (now_text E)) (\<lambda>newFormat.
     bindE (call (tbl_update (t_transaction E) (\<lambda>r. F_id_t r = F_id_t t)
              (\<lambda>r. BeforeUpdate_Transaction newFormat (updateinfo r)))) (\<lambda>err.
     case err of
       Some e \<Rightarrow> thenE (call (\<lambda>w. ((), db_rollback E w))) (ret (Some e))
     | None \<Rightarrow> thenE (call (db_commit E)) (ret None))))"

definition UpdateTransactionStatus :: "'w env \<Rightarrow> Transaction \<Rightarrow> ('w st, go_error) eff" where
  "UpdateTransactionStatus E t = updateTransactionColumn E t (\<lambda>r. r\<lparr>F_status_t := F_status_t t\<rparr>)"

section \<open>Reading\<close>

definition FindTrasactionByHash :: "'w env \<Rightarrow> string \<Rightarrow> ('w st, Transaction \<times> go_error) eff" where
  "FindTrasactionByHash E hash =
     bindE (call (tbl_first (t_transaction E) (\<lambda>t. col_eq E (F_tx_hash t) hash)))
       (found_or_panic ''FindTrasactionByHash'' zero_Transaction)"

definition FindTrasactionByHeight :: "'w env \<Rightarrow> int64 \<Rightarrow> ('w st, Transaction list \<times> go_error) eff" where
  "FindTrasactionByHeight E height =
     bindE (call (tbl_find (t_transaction E) (\<lambda>t. F_block_t t = height \<and> F_status_t t = NORMAL) None None))
       (found_or_panic ''FindTrasactionByHeight'' [])"

definition GetTransactionsCount :: "'w env \<Rightarrow> ('w st, int64 \<times> go_error) eff" where
  "GetTransactionsCount E =
     bindE (call (tbl_count (t_transaction E) (\<lambda>t. F_status_t t = NORMAL)))
       (found_or_error ''GetTransactionsCount'' 0)"

definition GetTransactionsCountByAddr :: "'w env \<Rightarrow> string \<Rightarrow> ('w st, int64 \<times> go_error) eff" where
  "GetTransactionsCountByAddr E addr =
     bindE (call (tbl_count (t_transaction E)
              (\<lambda>t. (col_eq E (F_from t) addr \<or> col_eq E (F_to t) addr) \<and> F_status_t t = NORMAL)))
       (found_or_error ''GetTransactionsCount'' 0)"

definition GetTransactionsCountByHeight :: "'w env \<Rightarrow> int64 \<Rightarrow> ('w st, int64 \<times> go_error) eff" where
  "GetTransactionsCountByHeight E height =
     bindE (call (tbl_count (t_transaction E) (\<lambda>t. F_block_t t = height \<and> F_status_t t = NORMAL)))
       (found_or_error ''GetTransactionsCount'' 0)"

definition GetTransactions :: "'w env \<Rightarrow> int \<Rightarrow> int \<Rightarrow> ('w st, Transaction list \<times> go_error) eff" where
  "GetTransactions E offset sz =
     bindE (call (tbl_find (t_transaction E) (\<lambda>t. F_status_t t = NORMAL)
              (Some F_timestamp_t) (Some (offset, sz))))
       (found_or_error ''GetRecentBlocks'' [])"

definition GetTransactionsByHeight ::
  "'w env \<Rightarrow> int64 \<Rightarrow> int \<Rightarrow> int \<Rightarrow> ('w st, Transaction list \<times> go_error) eff" where
  "GetTransactionsByHeight E height offset sz =
     bindE (call (tbl_find (t_transaction E) (\<lambda>t. F_status_t t = NORMAL \<and> F_block_t t = height)
              (Some F_timestamp_t) (Some (offset, sz))))
       (found_or_error ''GetRecentBlocks'' [])"

definition GetTransactionsByAddr ::
  "'w env \<Rightarrow> string \<Rightarrow> int \<Rightarrow> int \<Rightarrow> ('w st, Transaction list \<times> go_error) eff" where
  "GetTransactionsByAddr E addr offset sz =
     bindE (call (tbl_find (t_transaction E)
              (\<lambda>t. F_status_t t = NORMAL \<and> (col_eq E (F_from t) addr \<or> col_eq E (F_to t) addr))
              (Some F_timestamp_t) (Some (offset, sz))))
       (found_or_error ''GetRecentBlocks'' [])"

text \<open>The \<^verbatim>\<open>WHERE\<close> clause \<^verbatim>\<open>GetTransactionsByAddrAndType\<close> chooses for a requested type; \<^const>\<open>None\<close> for
  a type it does not know.\<close>

definition type_clause :: "'w env \<Rightarrow> string \<Rightarrow> int64 \<Rightarrow> (Transaction \<Rightarrow> bool) option" where
  "type_clause E addr txtype =
     (let mine = (\<lambda>t. col_eq E (F_from t) addr \<or> col_eq E (F_to t) addr) in
      if txtype = TX_TYPE_ALL then Some (\<lambda>t. F_status_t t = NORMAL \<and> mine t)
      else if txtype = TX_TYPE_ME_MORTGAGE then
        Some (\<lambda>t. F_status_t t = NORMAL \<and> mine t \<and> F_tx_type t = TX_TYPE_ME_MORTGAGE)
      else if txtype = TX_TYPE_ME_REDEEM then
        Some (\<lambda>t. F_status_t t = NORMAL \<and> mine t \<and> F_tx_type t = TX_TYPE_ME_REDEEM)
      else if txtype = TX_TYPE_QUERY_3OR4 then
        Some (\<lambda>t. F_status_t t = NORMAL \<and> mine t \<and>
                (F_tx_type t = TX_TYPE_ME_MORTGAGE \<or> F_tx_type t = TX_TYPE_ME_REDEEM))
      else if txtype = TX_TYPE_FROM_ME then
        Some (\<lambda>t. F_status_t t = NORMAL \<and> col_eq E (F_from t) addr \<and> F_tx_type t = TX_TYPE_UNDEFINED)
      else if txtype = TX_TYPE_TO_ME then
        Some (\<lambda>t. F_status_t t = NORMAL \<and> col_eq E (F_to t) addr \<and> F_tx_type t = TX_TYPE_UNDEFINED)
      else None)"

definition GetTransactionsByAddrAndType ::
  "'w env \<Rightarrow> string \<Rightarrow> int64 \<Rightarrow> int \<Rightarrow> int \<Rightarrow> ('w st, Transaction list \<times> int64 \<times> go_error) eff" where
  "GetTransactionsByAddrAndType E addr txtype offset sz =
     (if sz \<le> 0 then ret ([], 0, None)
      else case type_clause E addr txtype of
        None \<Rightarrow> ret ([], 0, Some ''Unknow txtype'')
      | Some P \<Rightarrow>
          bindE (call (tbl_count (t_transaction E) P)) (\<lambda>qn.
          bindE (found_or_error ''GetTransactionsByAddrAndType'' 0 qn) (\<lambda>(n, err).
          case err of
            Some e \<Rightarrow> ret ([], 0, Some e)
          | None \<Rightarrow>
              bindE (call (tbl_find (t_transaction E) P (Some F_timestamp_t) (Some (offset, sz)))) (\<lambda>ql.
              bindE (found_or_error ''GetTransactionsByAddrAndType'' [] ql) (\<lambda>(transList, err).
              case err of
                Some e \<Rightarrow> ret (transList, 0, Some e)
              | None \<Rightarrow> ret (transList, n, None))))))"

section \<open>What the accessors do\<close>

definition tx_updated :: "Transaction \<Rightarrow> (Transaction \<Rightarrow> Transaction) \<Rightarrow> dbst \<Rightarrow> dbst \<Rightarrow> bool" where
  "tx_updated t f D D' \<longleftrightarrow> (\<exists>m. D' = D\<lparr>txs := image_mset
     (\<lambda>r. if F_id_t r = F_id_t t then BeforeUpdate_Transaction m (f r) else r) (txs D)\<rparr>)"

definition tx_created :: "'w env \<Rightarrow> Transaction \<Rightarrow> dbst \<Rightarrow> dbst \<Rightarrow> bool" where
  "tx_created E t D D' \<longleftrightarrow>
     (\<exists>i m. i \<noteq> 0 \<and> (F_id_t t \<noteq> 0 \<longrightarrow> i = F_id_t t) \<and>
        (\<forall>r \<in># txs D. F_id_t r \<noteq> i \<and> \<not> col_eq E (F_tx_hash r) (F_tx_hash t)) \<and>
        D' = D\<lparr>txs := add_mset ((BeforeCreate_Transaction m t)\<lparr>F_id_t := i\<rparr>) (txs D)\<rparr>)"

context gorm_db
begin

lemma trx_first_frame: "tbl_first (t_transaction E) P w = (q, w') \<Longrightarrow> db w' = db w"
  using trx.first_frame [of P w q w'] by auto

lemma trx_find_frame: "tbl_find (t_transaction E) P ord pg w = (q, w') \<Longrightarrow> db w' = db w"
  using trx.find_frame [of P ord pg w q w'] by auto

lemma trx_count_frame: "tbl_count (t_transaction E) P w = (q, w') \<Longrightarrow> db w' = db w"
  using trx.count_frame [of P w q w'] by auto

lemma trx_create_err: "tbl_create (t_transaction E) r w = (Some e, w') \<Longrightarrow> db w' = db w"
  using trx.create_err [of r w e w'] by auto

lemma trx_create_ok:
  assumes "tbl_create (t_transaction E) (BeforeCreate_Transaction m t) w = (None, w')"
  shows "tx_created E t (db w) (db w')"
proof -
  let ?c = "BeforeCreate_Transaction m t"
  have c: "F_id_t ?c = F_id_t t" "F_tx_hash ?c = F_tx_hash t"
    by (simp_all add: BeforeCreate_Transaction_def)
  obtain i where i: "i \<noteq> 0" "\<forall>r \<in># txs (db w). F_id_t r \<noteq> i" "F_id_t t \<noteq> 0 \<longrightarrow> i = F_id_t t"
      "\<forall>r \<in># txs (db w). \<not> col_eq E (F_tx_hash r) (F_tx_hash t)"
    and bs: "txs (db w') = add_mset (?c\<lparr>F_id_t := i\<rparr>) (txs (db w))"
    and os: "blocks (db w') = blocks (db w)" "rewards (db w') = rewards (db w)"
    using trx.create_ok [OF assms] unfolding c by blast
  have "db w' = (db w)\<lparr>txs := add_mset (?c\<lparr>F_id_t := i\<rparr>) (txs (db w))\<rparr>"
    by (rule dbst_eqI) (simp_all add: bs os)
  with i show ?thesis unfolding tx_created_def by blast
qed

lemma trx_update_ok:
  "tbl_update (t_transaction E) (\<lambda>r. F_id_t r = F_id_t t) (\<lambda>r. BeforeUpdate_Transaction m (f r)) w =
     (None, w') \<Longrightarrow> tx_updated t f (db w) (db w') \<and> snap w' = snap w"
  using trx.update_ok [of "\<lambda>r. F_id_t r = F_id_t t" "\<lambda>r. BeforeUpdate_Transaction m (f r)" w w']
    trx.update_snap [of "\<lambda>r. F_id_t r = F_id_t t" "\<lambda>r. BeforeUpdate_Transaction m (f r)" w None w']
  unfolding tx_updated_def by (auto intro!: exI [of _ m] dbst_eqI)

lemma FindTrasactionByHash_wp:
  "wp (FindTrasactionByHash E hash) (\<lambda>r s'. unchanged db s s' \<and>
     (case r of
        Ret (t, None) \<Rightarrow> t \<in># txs (db (ext s)) \<and> col_eq E (F_tx_hash t) hash
      | Ret (t, Some e) \<Rightarrow> t = zero_Transaction \<and> e = DATA_NOT_EXIST \<and>
          (\<forall>t' \<in># txs (db (ext s)). \<not> col_eq E (F_tx_hash t') hash)
      | Panic p \<Rightarrow> (\<exists>e. p = PStr e))) s"
  by (auto simp: FindTrasactionByHash_def wp_simps unchanged_def trx_first_frame
      split: prod.splits qres.splits dest: trx.first_row trx.first_none)

lemma FindTrasactionByHeight_wp:
  "wp (FindTrasactionByHeight E height) (\<lambda>r s'. unchanged db s s' \<and>
     (case r of
        Ret (ts, None) \<Rightarrow> mset ts = {# t \<in># txs (db (ext s)). F_block_t t = height \<and> F_status_t t = NORMAL #}
      | Ret (ts, Some e) \<Rightarrow> False
      | Panic p \<Rightarrow> (\<exists>e. p = PStr e))) s"
  by (auto simp: FindTrasactionByHeight_def wp_simps unchanged_def trx_find_frame
      split: prod.splits qres.splits dest: trx.find_rows simp: trx.find_found)

lemma CreateTransaction_wp:
  "wp (CreateTransaction E t) (\<lambda>r s'. only_ext s s' \<and>
     (case r of
        Ret None \<Rightarrow> F_tx_hash t \<noteq> [] \<and> tx_created E t (db (ext s)) (db (ext s'))
      | Ret (Some e) \<Rightarrow> db (ext s') = db (ext s)
      | Panic p \<Rightarrow> db (ext s') = db (ext s) \<and> (\<exists>e. p = PStr e))) s"
  by (auto simp: CreateTransaction_def wp_simps split: prod.splits option.splits
      dest!: trx_create_ok now_text_db trx_create_err)

lemma updateTransactionColumn_wp:
  "wp (updateTransactionColumn E t f) (\<lambda>r s'. only_ext s s' \<and> (\<exists>e. r = Ret e) \<and>
     (db (ext s') = db (ext s) \<or>
      r = Ret None \<and> tx_updated t f (db (ext s)) (db (ext s')))) s"
  unfolding updateTransactionColumn_def
  by (auto simp: wp_simps begin_db begin_snap rollback_db split: prod.splits option.splits
      dest!: now_text_db commit_cases trx_update_ok dest: trx.update_snap)

end

context gorm_db_reliable
begin

lemma updateTransactionColumn_reliable:
  "wp (updateTransactionColumn E t f) (\<lambda>r s'. only_ext s s' \<and>
     (case r of
        Ret None \<Rightarrow> tx_updated t f (db (ext s)) (db (ext s'))
      | Ret (Some e) \<Rightarrow> db (ext s') = db (ext s)
      | Panic p \<Rightarrow> False)) s"
  unfolding updateTransactionColumn_def
  by (auto simp: wp_simps begin_db begin_snap rollback_db split: prod.splits option.splits
      dest!: now_text_db commit_done trx_update_ok dest: trx.update_snap)

end

end
