(* ===== verification/Model_Reward.thy ===== *)
theory Model_Reward
  imports Model_Transaction
begin

text \<open>
  \<^verbatim>\<open>src/src/model/t_miner_reward.go\<close>: the accessors of table \<^verbatim>\<open>t_miner_reward\<close>. \<^verbatim>\<open>UpdateMinerReward\<close>
  writes the column \<^verbatim>\<open>F_total_reward\<close> and no other.
\<close>

definition BeforeCreate_MinerReward :: "string \<Rightarrow> MinerReward \<Rightarrow> MinerReward" where
  "BeforeCreate_MinerReward newFormat r = r\<lparr>F_create_time_m := newFormat, F_modify_time_m := newFormat\<rparr>"

definition BeforeUpdate_MinerReward :: "string \<Rightarrow> MinerReward \<Rightarrow> MinerReward" where
  "BeforeUpdate_MinerReward newFormat r = r\<lparr>F_modify_time_m := newFormat\<rparr>"

definition CreateMinerReward :: "'w env \<Rightarrow> MinerReward \<Rightarrow> ('w st, go_error) eff" where
  "CreateMinerReward E r =
     thenE (ASSERT (F_miner_m r \<noteq> []) ''CreateMinerReward, F_miner can't be nul'')
    (thenE (ASSERT (F_total_reward r \<noteq> []) ''CreateMinerReward, F_total_reward can't be nul'')
    (bindE (call (now_text E)) (\<lambda>newFormat.
     call (tbl_create (t_miner_reward E) (BeforeCreate_MinerReward newFormat r)))))"

definition FindRewardByMiner :: "'w env \<Rightarrow> string \<Rightarrow> ('w st, MinerReward \<times> go_error) eff" where
  "FindRewardByMiner E addr =
     bindE (call (tbl_first (t_miner_reward E) (\<lambda>r. col_eq E (F_miner_m r) addr)))
       (found_or_panic ''FindRewardByMiner'' zero_MinerReward)"

definition updateMinerRewardColumn ::
  "'w env \<Rightarrow> MinerReward \<Rightarrow> (MinerReward \<Rightarrow> MinerReward) \<Rightarrow> ('w st, go_error) eff" where
  "updateMinerRewardColumn E r updateinfo =
     thenE (call (\<lambda>w. ((), db_begin E w)))
    (bindE (call (now_text E)) (\<lambda>newFormat.
     bindE (call (tbl_update (t_miner_reward E) (\<lambda>x. col_eq E (F_miner_m x) (F_miner_m r))
              (\<lambda>x. BeforeUpdate_MinerReward newFormat (updateinfo x)))) (\<lambda>err.
     case err of
       Some e \<Rightarrow> thenE (call (\<lambda>w. ((), db_rollback E w))) (ret (Some e))
     | None \<Rightarrow> thenE (call (db_commit E)) (ret None))))"

definition UpdateMinerReward :: "'w env \<Rightarrow> MinerReward \<Rightarrow> ('w st, go_error) eff" where
  "UpdateMinerReward E r = updateMinerRewardColumn E r (\<lambda>x. x\<lparr>F_total_reward := F_total_reward r\<rparr>)"

definition GetAddrList :: "'w env \<Rightarrow> ('w st, MinerReward list \<times> go_error) eff" where
  "GetAddrList E =
     bindE (call (tbl_find (t_miner_reward E) (\<lambda>_. True) None None))
       (found_or_panic ''FindRewardByMiner'' [])"

section \<open>What the accessors do\<close>

definition reward_updated ::
  "'w env \<Rightarrow> MinerReward \<Rightarrow> (MinerReward \<Rightarrow> MinerReward) \<Rightarrow> dbst \<Rightarrow> dbst \<Rightarrow> bool" where
  "reward_updated E r f D D' \<longleftrightarrow> (\<exists>m. D' = D\<lparr>rewards := image_mset
     (\<lambda>x. if col_eq E (F_miner_m x) (F_miner_m r) then BeforeUpdate_MinerReward m (f x) else x)
     (rewards D)\<rparr>)"

definition reward_created :: "'w env \<Rightarrow> MinerReward \<Rightarrow> dbst \<Rightarrow> dbst \<Rightarrow> bool" where
  "reward_created E r D D' \<longleftrightarrow>
     (\<exists>i m. i \<noteq> 0 \<and> (F_id_m r \<noteq> 0 \<longrightarrow> i = F_id_m r) \<and>
        (\<forall>x \<in># rewards D. F_id_m x \<noteq> i \<and> \<not> col_eq E (F_miner_m x) (F_miner_m r)) \<and>
        D' = D\<lparr>rewards := add_mset ((BeforeCreate_MinerReward m r)\<lparr>F_id_m := i\<rparr>) (rewards D)\<rparr>)"

context gorm_db
begin

lemma mrw_first_frame: "tbl_first (t_miner_reward E) P w = (q, w') \<Longrightarrow> db w' = db w"
  using mrw.first_frame [of P w q w'] by auto

lemma mrw_find_frame: "tbl_find (t_miner_reward E) P ord pg w = (q, w') \<Longrightarrow> db w' = db w"
  using mrw.find_frame [of P ord pg w q w'] by auto

lemma mrw_create_err: "tbl_create (t_miner_reward E) r w = (Some e, w') \<Longrightarrow> db w' = db w"
  using mrw.create_err [of r w e w'] by auto

lemma mrw_create_ok:
  assumes "tbl_create (t_miner_reward E) (BeforeCreate_MinerReward m r) w = (None, w')"
  shows "reward_created E r (db w) (db w')"
proof -
  let ?c = "BeforeCreate_MinerReward m r"
  have c: "F_id_m ?c = F_id_m r" "F_miner_m ?c = F_miner_m r"
    by (simp_all add: BeforeCreate_MinerReward_def)
  obtain i where i: "i \<noteq> 0" "\<forall>x \<in># rewards (db w). F_id_m x \<noteq> i" "F_id_m r \<noteq> 0 \<longrightarrow> i = F_id_m r"
      "\<forall>x \<in># rewards (db w). \<not> col_eq E (F_miner_m x) (F_miner_m r)"
    and bs: "rewards (db w') = add_mset (?c\<lparr>F_id_m := i\<rparr>) (rewards (db w))"
    and os: "blocks (db w') = blocks (db w)" "txs (db w') = txs (db w)"
    using mrw.create_ok [OF assms] unfolding c by blast
  have "db w' = (db w)\<lparr>rewards := add_mset (?c\<lparr>F_id_m := i\<rparr>) (rewards (db w))\<rparr>"
    by (rule dbst_eqI) (simp_all add: bs os)
  with i show ?thesis unfolding reward_created_def by blast
qed

lemma mrw_update_ok:
  "tbl_update (t_miner_reward E) (\<lambda>x. col_eq E (F_miner_m x) (F_miner_m r))
     (\<lambda>x. BeforeUpdate_MinerReward m (f x)) w = (None, w') \<Longrightarrow>
   reward_updated E r f (db w) (db w') \<and> snap w' = snap w"
  using mrw.update_ok [of "\<lambda>x. col_eq E (F_miner_m x) (F_miner_m r)"
      "\<lambda>x. BeforeUpdate_MinerReward m (f x)" w w']
    mrw.update_snap [of "\<lambda>x. col_eq E (F_miner_m x) (F_miner_m r)"
      "\<lambda>x. BeforeUpdate_MinerReward m (f x)" w None w']
  unfolding reward_updated_def by (auto intro!: exI [of _ m] dbst_eqI)

lemma FindRewardByMiner_wp:
  "wp (FindRewardByMiner E addr) (\<lambda>r s'. unchanged db s s' \<and>
     (case r of
        Ret (x, None) \<Rightarrow> x \<in># rewards (db (ext s)) \<and> col_eq E (F_miner_m x) addr
      | Ret (x, Some e) \<Rightarrow> x = zero_MinerReward \<and> e = DATA_NOT_EXIST \<and>
          (\<forall>x' \<in># rewards (db (ext s)). \<not> col_eq E (F_miner_m x') addr)
      | Panic p \<Rightarrow> (\<exists>e. p = PStr e))) s"
  by (auto simp: FindRewardByMiner_def wp_simps unchanged_def mrw_first_frame
      split: prod.splits qres.splits dest: mrw.first_row mrw.first_none)

lemma GetAddrList_wp:
  "wp (GetAddrList E) (\<lambda>r s'. unchanged db s s' \<and>
     (case r of
        Ret (xs, None) \<Rightarrow> mset xs = rewards (db (ext s))
      | Ret (xs, Some e) \<Rightarrow> False
      | Panic p \<Rightarrow> (\<exists>e. p = PStr e))) s"
  by (auto simp: GetAddrList_def wp_simps unchanged_def mrw_find_frame mrw.find_found
      split: prod.splits qres.splits dest!: mrw.find_rows)

lemma CreateMinerReward_wp:
  "wp (CreateMinerReward E x) (\<lambda>r s'. only_ext s s' \<and>
     (case r of
        Ret None \<Rightarrow> F_miner_m x \<noteq> [] \<and> F_total_reward x \<noteq> [] \<and> reward_created E x (db (ext s)) (db (ext s'))
      | Ret (Some e) \<Rightarrow> db (ext s') = db (ext s)
      | Panic p \<Rightarrow> db (ext s') = db (ext s) \<and> (\<exists>e. p = PStr e))) s"
  by (auto simp: CreateMinerReward_def wp_simps split: prod.splits option.splits
      dest!: mrw_create_ok now_text_db mrw_create_err)

lemma updateMinerRewardColumn_wp:
  "wp (updateMinerRewardColumn E x f) (\<lambda>r s'. only_ext s s' \<and> (\<exists>e. r = Ret e) \<and>
     (db (ext s') = db (ext s) \<or>
      r = Ret None \<and> reward_updated E x f (db (ext s)) (db (ext s')))) s"
  unfolding updateMinerRewardColumn_def
  by (auto simp: wp_simps begin_db begin_snap rollback_db split: prod.splits option.splits
      dest!: now_text_db commit_cases mrw_update_ok dest: mrw.update_snap)

end

context gorm_db_reliable
begin

lemma updateMinerRewardColumn_reliable:
  "wp (updateMinerRewardColumn E x f) (\<lambda>r s'. only_ext s s' \<and>
     (case r of
        Ret None \<Rightarrow> reward_updated E x f (db (ext s)) (db (ext s'))
      | Ret (Some e) \<Rightarrow> db (ext s') = db (ext s)
      | Panic p \<Rightarrow> False)) s"
  unfolding updateMinerRewardColumn_def
  by (auto simp: wp_simps begin_db begin_snap rollback_db split: prod.splits option.splits
      dest!: now_text_db commit_done mrw_update_ok dest: mrw.update_snap)

end

end
