(* ===== verification/Connect.thy ===== *)
theory Connect
  imports Model_Reward
begin

text \<open>
  \<^verbatim>\<open>src/src/sync/connect.go\<close>: the connections of the synchroniser, opened on first use, the recovery of
  panics, and the height \<^verbatim>\<open>block_now\<close> up to which the chain has been copied.
\<close>

definition Web3 :: "('w st, unit) eff" where
  "Web3 = modifyE (\<lambda>s. if \<not> c_web3 s then s\<lparr>c_web3 := True\<rparr> else s)"

definition Mysql :: "'w env \<Rightarrow> ('w st, unit) eff" where
  "Mysql E =
     bindE (getE c_mysql) (\<lambda>opened.
     if \<not> opened then
       bindE (call (mysql_open E)) (\<lambda>err.
       case err of
         Some e \<Rightarrow> panicE (PStr (''connect mysql failed,err: '' @ e))
       | None \<Rightarrow> modifyE (\<lambda>s. s\<lparr>c_mysql := True\<rparr>))
     else ret ())"

text \<open>\<^verbatim>\<open>pool.Get\<close> dials when it has no idle connection, and the program's dial function panics on an error.\<close>

definition Redis :: "'w env \<Rightarrow> ('w st, unit) eff" where
  "Redis E =
     bindE (getE c_redis) (\<lambda>opened.
     if \<not> opened then
       bindE (call (redis_get E)) (\<lambda>err.
       case err of
         Some e \<Rightarrow> panicE (PStr e)
       | None \<Rightarrow> modifyE (\<lambda>s. s\<lparr>c_redis := True\<rparr>))
     else ret ())"

text \<open>\<^verbatim>\<open>Close\<close> drops both connections. Its call of \<^verbatim>\<open>PanicRecover\<close> recovers nothing: \<^verbatim>\<open>recover\<close> returns nil
  unless the deferred function itself calls it, and here the deferred function is \<^verbatim>\<open>Close\<close>.\<close>

definition Close :: "('w st, unit) eff" where
  "Close = modifyE (\<lambda>s. s\<lparr>c_mysql := False, c_redis := False\<rparr>)"

text \<open>\<^verbatim>\<open>defer c.PanicRecover()\<close> around a computation: a panic of kind \<^verbatim>\<open>String\<close>, a nil dereference
  included, ends it quietly; any other is raised again.\<close>

definition PanicRecover :: "('s, unit) eff \<Rightarrow> ('s, unit) eff" where
  "PanicRecover m s =
     (case m s of
        (Ret u, s') \<Rightarrow> (Ret u, s')
      | (Panic p, s') \<Rightarrow> if kind_string p then (Ret (), s') else (Panic p, s'))"

definition SetBlockNow :: "int64 \<Rightarrow> ('w st, unit) eff" where
  "SetBlockNow number = modifyE (\<lambda>s. s\<lparr>block_now := number\<rparr>)"

definition AddBlockNow :: "int64 \<Rightarrow> ('w st, unit) eff" where
  "AddBlockNow num = modifyE (\<lambda>s. s\<lparr>block_now := to_int64 (block_now s + num)\<rparr>)"

definition GetBlockNOw :: "('w st, int64) eff" where
  "GetBlockNOw = getE block_now"

section \<open>Frames\<close>

text \<open>What no connection call changes: the content of the tables and the globals.\<close>

definition io_frame :: "'w st \<Rightarrow> 'w st \<Rightarrow> bool" where
  "io_frame s s' \<longleftrightarrow> block_now s' = block_now s \<and> GLastBlock s' = GLastBlock s \<and>
     cache_reward s' = cache_reward s \<and> cache_updatetime s' = cache_updatetime s \<and>
     x_mysql s' = x_mysql s \<and> x_redis s' = x_redis s \<and> x_web3 s' = x_web3 s"

definition quiet :: "('w \<Rightarrow> 'd) \<Rightarrow> 'w st \<Rightarrow> 'w st \<Rightarrow> bool" where
  "quiet db s s' \<longleftrightarrow> io_frame s s' \<and> db (ext s') = db (ext s)"

lemma io_frame_refl [simp]: "io_frame s s"
  by (simp add: io_frame_def)

lemma io_frame_trans: "io_frame s s' \<Longrightarrow> io_frame s' s'' \<Longrightarrow> io_frame s s''"
  by (simp add: io_frame_def)

lemma io_frame_upd [simp]:
  "io_frame s (s\<lparr>ext := w\<rparr>)" "io_frame s (s\<lparr>c_mysql := b\<rparr>)" "io_frame s (s\<lparr>c_web3 := b\<rparr>)"
  "io_frame s (s\<lparr>c_redis := b\<rparr>)"
  by (simp_all add: io_frame_def)

lemma only_ext_io_frame: "only_ext s s' \<Longrightarrow> io_frame s s'"
  by (simp add: io_frame_def only_ext_fields)

lemma quiet_refl [simp]: "quiet db s s"
  by (simp add: quiet_def)

lemma quiet_trans: "quiet db s s' \<Longrightarrow> quiet db s' s'' \<Longrightarrow> quiet db s s''"
  by (auto simp: quiet_def intro: io_frame_trans)

lemma unchanged_quiet: "unchanged db s s' \<Longrightarrow> quiet db s s'"
  by (simp add: quiet_def unchanged_def only_ext_io_frame)

lemma quiet_fields:
  assumes "quiet db s s'"
  shows "block_now s' = block_now s" "GLastBlock s' = GLastBlock s" "db (ext s') = db (ext s)"
    "io_frame s s'"
  using assms by (simp_all add: quiet_def io_frame_def)

lemma wp_Web3 [simp]: "wp Web3 Q s = Q (Ret ()) (if c_web3 s then s else s\<lparr>c_web3 := True\<rparr>)"
  by (simp add: Web3_def)

lemma wp_AddBlockNow [simp, wp_simps]:
  "wp (AddBlockNow n) Q s = Q (Ret ()) (s\<lparr>block_now := to_int64 (block_now s + n)\<rparr>)"
  by (simp add: AddBlockNow_def)

lemma wp_SetBlockNow [simp, wp_simps]: "wp (SetBlockNow n) Q s = Q (Ret ()) (s\<lparr>block_now := n\<rparr>)"
  by (simp add: SetBlockNow_def)

lemma wp_GetBlockNOw [simp, wp_simps]: "wp GetBlockNOw Q s = Q (Ret (block_now s)) s"
  by (simp add: GetBlockNOw_def)

lemma wp_PanicRecover [wp_simps]:
  "wp (PanicRecover m) Q s =
     wp m (\<lambda>r s'. case r of Ret u \<Rightarrow> Q (Ret u) s' | Panic p \<Rightarrow> if kind_string p then Q (Ret ()) s' else Q (Panic p) s') s"
  by (auto simp: wp_def PanicRecover_def split: out.splits prod.splits)

lemma Web3_quiet: "wp Web3 (\<lambda>r s'. quiet db s s' \<and> r = Ret ()) s"
  by (simp add: quiet_def)

context gorm_db
begin

lemma Mysql_wp:
  "wp (Mysql E) (\<lambda>r s'. quiet db s s' \<and> (case r of Ret u \<Rightarrow> True | Panic p \<Rightarrow> (\<exists>e. p = PStr e))) s"
  by (auto simp: Mysql_def wp_simps quiet_def io_frame_def split: prod.splits option.splits dest!: open_db)

end

end
