(* ===== verification/Sync_Block.thy ===== *)
theory Sync_Block
  imports Connect
begin

text \<open>
  \<^verbatim>\<open>src/src/sync/syncblock.go\<close> and the block-level functions of \<^verbatim>\<open>src/src/sync/sync.go\<close>: dropping the
  stored block of a height, classifying a transaction, writing a block and its transactions, copying
  one block of the chain. Ranging over the map of transactions follows \<open>order_txs E\<close>.
\<close>

section \<open>Dropping a block\<close>

text \<open>The loop over the transactions of the dropped block; \<^const>\<open>False\<close> when it stops at a fee that is not a
  number. The result of the update is not looked at.\<close>

fun drop_txs :: "'w env \<Rightarrow> Transaction list \<Rightarrow> ('w st, bool) eff" where
  "drop_txs E [] = ret True"
| "drop_txs E (transaction # ts) =
     (case SetString 10 (F_tx_fee transaction) of
        None \<Rightarrow> ret False
      | Some tx_fee \<Rightarrow>
          thenE (Mysql E)
         (bindE (UpdateTransactionStatus E (transaction\<lparr>F_status_t := FORK\<rparr>)) (\<lambda>_.
          drop_txs E ts)))"

definition DropBlok :: "'w env \<Rightarrow> int64 \<Rightarrow> ('w st, go_error) eff" where
  "DropBlok E height =
     (if height \<le> 1 then ret None
      else
        thenE (Mysql E)
       (bindE (FindBlockByHeight E height) (\<lambda>(block, err).
        case err of
          Some e \<Rightarrow> if e \<noteq> DATA_NOT_EXIST then ret (Some e) else ret None
        | None \<Rightarrow>
            thenE (Mysql E)
           (bindE (UpdateBlockStatus E (block\<lparr>F_status := FORK\<rparr>)) (\<lambda>err.
            case err of
              Some e \<Rightarrow> ret (Some e)
            | None \<Rightarrow>
                thenE (Mysql E)
               (bindE (FindTrasactionByHeight E height) (\<lambda>(transactions, err).
                if err \<noteq> None \<and> err \<noteq> Some DATA_NOT_EXIST then ret err
                else bindE (drop_txs E transactions) (\<lambda>done.
                     if \<not> done then ret err else ret None))))))))"

section \<open>Classifying a transaction\<close>

text \<open>\<^verbatim>\<open>s[len(s)-64:]\<close> panics on a string shorter than 64 bytes.\<close>

definition last64 :: "string \<Rightarrow> ('s, string) eff" where
  "last64 s = (if length s < 64 then panicE slice_bounds else ret (drop (length s - 64) s))"

definition CalcTransactionType :: "TransactionResponse \<Rightarrow> ('s, int64 \<times> string) eff" where
  "CalcTransactionType transaction =
     (if To transaction = MORTGAGECONTRACTADDR then
        if HasPrefix (Input transaction) MORTGAGECONTRACT_FUNC_MORTGAGE then
          bindE (last64 (Input transaction)) (\<lambda>x. ret (TX_TYPE_ME_MORTGAGE, ''0x'' @ x))
        else if HasPrefix (Input transaction) MORTGAGECONTRACT_FUNC_REDEEM then
          bindE (last64 (Input transaction)) (\<lambda>x. ret (TX_TYPE_ME_REDEEM, ''0x'' @ x))
        else ret (0, [])
      else ret (0, []))"

section \<open>Writing a block\<close>

type_synonym tx_map = "(string, TransactionResponse) gomap"
type_synonym receipt_map = "(string, TransactionReceipt) gomap"

text \<open>The fee loop; a transaction without a receipt has a nil \<^verbatim>\<open>GasUsed\<close>, which the multiplication dereferences.\<close>

fun count_fees :: "receipt_map \<Rightarrow> tx_map \<Rightarrow> int \<Rightarrow> ('s, int) eff" where
  "count_fees receipts [] fees = ret fees"
| "count_fees receipts ((tx, transaction) # m) fees =
     (case map_of receipts tx of
        None \<Rightarrow> panicE nil_deref
      | Some receipt \<Rightarrow> count_fees receipts m (fees + GasPrice transaction * GasUsed_rc receipt))"

definition new_block_row :: "Block \<Rightarrow> ChainBlock \<Rightarrow> nat \<Rightarrow> int \<Rightarrow> Block" where
  "new_block_row databases_block chain_block ntx fees =
     databases_block\<lparr>
       F_block := to_int64 (Number chain_block),
       F_hash := Hash chain_block,
       F_timestamp := to_uint64 (Timestamp chain_block),
       F_txn := int ntx,
       F_gas_used := String (GasUsed chain_block),
       F_gas_limit := String (GasLimit chain_block),
       F_parent_hash := ParentHash chain_block,
       F_fees := String fees,
       F_status := NORMAL\<rparr>"

definition WriteBlock :: "'w env \<Rightarrow> ChainBlock \<Rightarrow> tx_map \<Rightarrow> receipt_map \<Rightarrow> ('w st, go_error) eff" where
  "WriteBlock E chain_block transactions receipts =
     thenE (Mysql E)
    (bindE (FindBlockByHash E (Hash chain_block)) (\<lambda>(databases_block, err).
     case err of
       None \<Rightarrow>
         if F_status databases_block \<noteq> NORMAL then
           thenE (Mysql E) (UpdateBlockStatus E (databases_block\<lparr>F_status := NORMAL\<rparr>))
         else ret None
     | Some e \<Rightarrow>
         if e \<noteq> DATA_NOT_EXIST then ret (Some e)
         else
           bindE (count_fees receipts (order_txs E transactions) 0) (\<lambda>fees.
           thenE (Mysql E)
          (CreateBlock E (new_block_row databases_block chain_block (length transactions) fees)))))"

section \<open>Writing the transactions\<close>

definition new_tx_row ::
  "Transaction \<Rightarrow> ChainBlock \<Rightarrow> string \<Rightarrow> TransactionResponse \<Rightarrow> int \<Rightarrow> int64 \<times> string \<Rightarrow> Transaction" where
  "new_tx_row databases_trans chain_block tx_hash transaction tx_fee ty =
     databases_trans\<lparr>
       F_tx_hash := tx_hash,
       F_block_t := to_int64 (Number chain_block),
       F_timestamp_t := to_int64 (Timestamp chain_block),
       F_from := From transaction,
       F_to := To transaction,
       F_value := String (Value transaction),
       F_tx_fee := String tx_fee,
       F_status_t := NORMAL,
       F_tx_type := fst ty,
       F_tx_type_ext := snd ty\<rparr>"

text \<open>One round of the loop, and the loop, which returns the first error.\<close>

definition write_tx ::
  "'w env \<Rightarrow> ChainBlock \<Rightarrow> receipt_map \<Rightarrow> string \<Rightarrow> TransactionResponse \<Rightarrow> ('w st, go_error) eff" where
  "write_tx E chain_block receipts tx_hash transaction =
     thenE (Mysql E)
    (bindE (FindTrasactionByHash E tx_hash) (\<lambda>(databases_trans, err).
     if err \<noteq> None \<and> err \<noteq> Some DATA_NOT_EXIST then ret err
     else if err = None \<and> F_status_t databases_trans \<noteq> NORMAL then
       thenE (Mysql E) (UpdateTransactionStatus E (databases_trans\<lparr>F_status_t := NORMAL\<rparr>))
     else
       case map_of receipts tx_hash of
         None \<Rightarrow> panicE nil_deref
       | Some receipt \<Rightarrow>
           bindE (CalcTransactionType transaction) (\<lambda>ty.
           CreateTransaction E (new_tx_row databases_trans chain_block tx_hash transaction
             (GasPrice transaction * GasUsed_rc receipt) ty))))"

fun write_txs :: "'w env \<Rightarrow> ChainBlock \<Rightarrow> receipt_map \<Rightarrow> tx_map \<Rightarrow> ('w st, go_error) eff" where
  "write_txs E chain_block receipts [] = ret None"
| "write_txs E chain_block receipts ((tx_hash, transaction) # m) =
     bindE (write_tx E chain_block receipts tx_hash transaction) (\<lambda>err.
     case err of Some e \<Rightarrow> ret (Some e) | None \<Rightarrow> write_txs E chain_block receipts m)"

definition WriteTransactions ::
  "'w env \<Rightarrow> ChainBlock \<Rightarrow> tx_map \<Rightarrow> receipt_map \<Rightarrow> ('w st, go_error) eff" where
  "WriteTransactions E chain_block transactions receipts =
     write_txs E chain_block receipts (order_txs E transactions)"

section \<open>Miner rewards\<close>

text \<open>\<^verbatim>\<open>SetString\<close> on a receiver leaves the receiver's value undefined on a failure; the text stored here is
  always written by \<^verbatim>\<open>String\<close>, and a failure is read as zero. The new fee total is computed from the old
  \<^emph>\<open>reward\<close> total, as the code has it.\<close>

definition read_total :: "string \<Rightarrow> int" where
  "read_total s = (case SetString 10 s of None \<Rightarrow> 0 | Some n \<Rightarrow> n)"

definition WriteMinerRewards :: "'w env \<Rightarrow> string \<Rightarrow> int \<Rightarrow> int \<Rightarrow> ('w st, go_error) eff" where
  "WriteMinerRewards E miner reward fees =
     thenE (Mysql E)
    (bindE (FindRewardByMiner E miner) (\<lambda>(miner_reward, err).
     case err of
       Some e \<Rightarrow>
         if e = DATA_NOT_EXIST then
           thenE (Mysql E) (CreateMinerReward E (zero_MinerReward\<lparr>F_miner_m := miner,
             F_total_reward := String reward, F_total_fees := String fees\<rparr>))
         else ret (Some e)
     | None \<Rightarrow>
         (let total_old = read_total (F_total_reward miner_reward);
              total = total_old + reward;
              total_fees = total_old + fees
          in thenE (Mysql E) (UpdateMinerReward E (miner_reward\<lparr>F_total_reward := String total,
               F_total_fees := String total_fees\<rparr>)))))"

section \<open>Copying one block\<close>

text \<open>Step 2: fetch every receipt; the maps keep the last transaction of a hash.\<close>

fun fetch_receipts ::
  "'w env \<Rightarrow> TransactionResponse list \<Rightarrow> tx_map \<Rightarrow> receipt_map \<Rightarrow> ('w st, string + tx_map \<times> receipt_map) eff" where
  "fetch_receipts E [] transactions receipts = ret (Inr (transactions, receipts))"
| "fetch_receipts E (transaction # ts) transactions receipts =
     thenE Web3
    (bindE (callE (GetTransactionReceipt (rpc E) (Hash_tr transaction))) (\<lambda>r.
     case r of
       Inl e \<Rightarrow> ret (Inl e)
     | Inr receipt \<Rightarrow>
         fetch_receipts E ts (map_put (Hash_tr transaction) transaction transactions)
           (map_put (Hash_tr transaction) receipt receipts)))"

text \<open>Step 1: the block of the given height and, above the genesis block, its parent.\<close>

definition fetch_parent :: "'w env \<Rightarrow> int64 \<Rightarrow> ('w st, string + ChainBlock option) eff" where
  "fetch_parent E height =
     (if height > 0 then
        thenE Web3
       (bindE (callE (GetBlockByNumber (rpc E) (to_int64 (height - 1)) True)) (\<lambda>r.
        case r of Inl e \<Rightarrow> ret (Inl e) | Inr b \<Rightarrow> ret (Inr (Some b))))
      else ret (Inr None))"

text \<open>Step 3: the stored parent; \<^const>\<open>None\<close> lets the copy go on.\<close>

definition check_parent :: "'w env \<Rightarrow> int64 \<Rightarrow> ChainBlock option \<Rightarrow> ('w st, go_error) eff" where
  "check_parent E height chain_parent_block =
     thenE (Mysql E)
    (bindE (FindBlockByHeight E (to_int64 (height - 1))) (\<lambda>(databases_block_parent, err).
     if err \<noteq> None \<and> err \<noteq> Some DATA_NOT_EXIST then ret err
     else if err = Some DATA_NOT_EXIST \<and> height \<noteq> 0 then thenE (AddBlockNow (-1)) (ret err)
     else if height > 0 then
       (case chain_parent_block of
          None \<Rightarrow> panicE nil_deref
        | Some p \<Rightarrow>
            if Hash p \<noteq> F_hash databases_block_parent then
              thenE (AddBlockNow (-1)) (ret (Some ''parent hash not equal''))
            else ret None)
     else ret None))"

definition SyncOneBlock :: "'w env \<Rightarrow> int64 \<Rightarrow> ('w st, go_error) eff" where
  "SyncOneBlock E height =
     bindE (DropBlok E height) (\<lambda>err.
     case err of Some e \<Rightarrow> ret (Some e) | None \<Rightarrow>
     thenE Web3
    (bindE (callE (GetBlockByNumber (rpc E) height True)) (\<lambda>r.
     case r of Inl e \<Rightarrow> ret (Some e) | Inr chain_block \<Rightarrow>
     thenE (modifyE (\<lambda>s. s\<lparr>GLastBlock := Some chain_block\<rparr>))
    (bindE (fetch_parent E height) (\<lambda>r.
     case r of Inl e \<Rightarrow> ret (Some e) | Inr chain_parent_block \<Rightarrow>
     bindE (fetch_receipts E (Transactions chain_block) [] []) (\<lambda>r.
     case r of Inl e \<Rightarrow> ret (Some e) | Inr (transactions, receipts) \<Rightarrow>
     bindE (check_parent E height chain_parent_block) (\<lambda>err.
     case err of Some e \<Rightarrow> ret (Some e) | None \<Rightarrow>
     bindE (WriteBlock E chain_block transactions receipts) (\<lambda>err.
     case err of Some e \<Rightarrow> ret (Some e) | None \<Rightarrow>
     WriteTransactions E chain_block transactions receipts))))))))"

end
