(* ===== verification/Sync_Inv.thy ===== *)
theory Sync_Inv
  imports Sync_Block
begin

text \<open>
  The invariant of the copied chain, on the content of table \<^verbatim>\<open>t_block\<close> alone: ids and hashes are unique,
  a row is what its hash says it is, at most one block of each height above 1 is \<^const>\<open>NORMAL\<close>, and the
  \<^const>\<open>NORMAL\<close> blocks up to \<^verbatim>\<open>block_now\<close> are linked by their parent hashes. Then the three ways the
  synchroniser changes the table (dropping a height, reviving a row, adding a row), each with the proof
  that it keeps the invariant.
\<close>

type_synonym header = "string \<Rightarrow> int \<times> string"

definition normal_at :: "Block multiset \<Rightarrow> int \<Rightarrow> Block multiset" where
  "normal_at B h = {# b \<in># B. F_block b = h \<and> F_status b = NORMAL #}"

definition unique_ids :: "Block multiset \<Rightarrow> bool" where
  "unique_ids B \<longleftrightarrow> (\<forall>i. size {# b \<in># B. F_id b = i #} \<le> 1)"

definition unique_hashes :: "'w env \<Rightarrow> Block multiset \<Rightarrow> bool" where
  "unique_hashes E B \<longleftrightarrow> (\<forall>x. size {# b \<in># B. col_eq E (F_hash b) x #} \<le> 1)"

definition headers_ok :: "header \<Rightarrow> Block multiset \<Rightarrow> bool" where
  "headers_ok hdr B \<longleftrightarrow> (\<forall>b \<in># B. hdr (F_hash b) = (F_block b, F_parent_hash b))"

definition one_normal :: "Block multiset \<Rightarrow> bool" where
  "one_normal B \<longleftrightarrow> (\<forall>h > 1. size (normal_at B h) \<le> 1)"

definition linked_upto :: "int \<Rightarrow> Block multiset \<Rightarrow> bool" where
  "linked_upto n B \<longleftrightarrow>
     (\<forall>b \<in># B. F_status b = NORMAL \<and> 2 \<le> F_block b \<and> F_block b \<le> n \<longrightarrow>
        (\<exists>p \<in># B. F_status p = NORMAL \<and> F_block p = F_block b - 1 \<and> F_hash p = F_parent_hash b))"

definition chain_inv :: "'w env \<Rightarrow> header \<Rightarrow> int \<Rightarrow> Block multiset \<Rightarrow> bool" where
  "chain_inv E hdr n B \<longleftrightarrow>
     unique_ids B \<and> unique_hashes E B \<and> headers_ok hdr B \<and> one_normal B \<and> linked_upto n B"

lemmas chain_inv_defs =
  chain_inv_def unique_ids_def unique_hashes_def headers_ok_def one_normal_def linked_upto_def

lemma normal_at_add:
  "normal_at (add_mset row B) h =
     (if F_block row = h \<and> F_status row = NORMAL then add_mset row (normal_at B h) else normal_at B h)"
  by (simp add: normal_at_def)

section \<open>Bags with at most one row\<close>

lemma size_filter_image:
  assumes "\<And>b. b \<in># B \<Longrightarrow> P (g b) = P b"
  shows "size {# b \<in># image_mset g B. P b #} = size {# b \<in># B. P b #}"
proof -
  have "{# b \<in># image_mset g B. P b #} = image_mset g {# b \<in># B. P (g b) #}"
    by (simp add: filter_mset_image_mset comp_def)
  moreover have "{# b \<in># B. P (g b) #} = {# b \<in># B. P b #}"
    by (rule filter_mset_cong) (simp_all add: assms)
  ultimately show ?thesis by simp
qed

lemma size_le_1_eq:
  assumes "size M \<le> 1" and "a \<in># M" and "b \<in># M"
  shows "a = b"
proof (cases M)
  case empty
  with assms show ?thesis by simp
next
  case (add x N)
  with assms(1) have "N = {#}" by simp
  with add assms show ?thesis by simp
qed

lemma unique_ids_eq:
  assumes "unique_ids B" and "a \<in># B" and "b \<in># B" and "F_id a = F_id b"
  shows "a = b"
proof (rule size_le_1_eq)
  show "size {# c \<in># B. F_id c = F_id b #} \<le> 1"
    using assms(1) by (simp add: unique_ids_def)
qed (use assms in auto)

lemma one_normal_eq:
  assumes "one_normal B" and "1 < h" and "a \<in># normal_at B h" and "b \<in># normal_at B h"
  shows "a = b"
proof (rule size_le_1_eq [OF _ assms(3,4)])
  show "size (normal_at B h) \<le> 1"
    using assms(1,2) by (simp add: one_normal_def)
qed

section \<open>Rewriting rows\<close>

text \<open>Every row keeps everything but its status and its modification time.\<close>

definition keeps_row :: "Block \<Rightarrow> Block \<Rightarrow> bool" where
  "keeps_row b b' \<longleftrightarrow> b' = b\<lparr>F_status := F_status b', F_modify_time := F_modify_time b'\<rparr>"

lemma keeps_row_fields:
  assumes "keeps_row b b'"
  shows "F_id b' = F_id b" "F_hash b' = F_hash b" "F_block b' = F_block b"
    "F_parent_hash b' = F_parent_hash b" "F_reward b' = F_reward b" "F_miner b' = F_miner b"
proof -
  define st mt where "st = F_status b'" and "mt = F_modify_time b'"
  have "b' = b\<lparr>F_status := st, F_modify_time := mt\<rparr>"
    using assms by (simp add: keeps_row_def st_def mt_def)
  then show "F_id b' = F_id b" "F_hash b' = F_hash b" "F_block b' = F_block b"
    "F_parent_hash b' = F_parent_hash b" "F_reward b' = F_reward b" "F_miner b' = F_miner b"
    by simp_all
qed

lemma keeps_row_refl [simp]: "keeps_row b b"
  by (simp add: keeps_row_def)

lemma keeps_row_status [simp]: "keeps_row b (b\<lparr>F_status := v, F_modify_time := t\<rparr>)"
  by (simp add: keeps_row_def)

definition restates :: "(Block \<Rightarrow> Block) \<Rightarrow> Block multiset \<Rightarrow> Block multiset \<Rightarrow> bool" where
  "restates g B B' \<longleftrightarrow> B' = image_mset g B \<and> (\<forall>b \<in># B. keeps_row b (g b))"

lemma restates_fields:
  assumes "restates g B B'" and "b \<in># B"
  shows "F_id (g b) = F_id b" "F_hash (g b) = F_hash b" "F_block (g b) = F_block b"
    "F_parent_hash (g b) = F_parent_hash b"
  using assms keeps_row_fields [of b "g b"] by (auto simp: restates_def)

lemma restates_unique_ids:
  assumes "restates g B B'" and "unique_ids B"
  shows "unique_ids B'"
  unfolding unique_ids_def
proof
  fix i
  have "size {# b \<in># image_mset g B. F_id b = i #} = size {# b \<in># B. F_id b = i #}"
    by (rule size_filter_image) (simp add: restates_fields [OF assms(1)])
  with assms show "size {# b \<in># B'. F_id b = i #} \<le> 1"
    by (simp add: restates_def unique_ids_def)
qed

lemma restates_unique_hashes:
  assumes "restates g B B'" and "unique_hashes E B"
  shows "unique_hashes E B'"
  unfolding unique_hashes_def
proof
  fix x
  have "size {# b \<in># image_mset g B. col_eq E (F_hash b) x #} = size {# b \<in># B. col_eq E (F_hash b) x #}"
    by (rule size_filter_image) (simp add: restates_fields [OF assms(1)])
  with assms show "size {# b \<in># B'. col_eq E (F_hash b) x #} \<le> 1"
    by (simp add: restates_def unique_hashes_def)
qed

lemma restates_headers:
  assumes "restates g B B'" and "headers_ok hdr B"
  shows "headers_ok hdr B'"
  using assms restates_fields [OF assms(1)] unfolding headers_ok_def by (auto simp: restates_def)

section \<open>Dropping a height\<close>

definition drops :: "int \<Rightarrow> Block multiset \<Rightarrow> Block multiset \<Rightarrow> bool" where
  "drops h B B' \<longleftrightarrow> (\<exists>g. restates g B B' \<and>
     (\<forall>b \<in># B. g b = b \<or> F_block b = h \<and> F_status b = NORMAL \<and> F_status (g b) = FORK))"

lemma drops_refl [simp]: "drops h B B"
  unfolding drops_def restates_def by (rule exI [of _ "\<lambda>b. b"]) simp

lemma drops_normal_at:
  assumes "drops h B B'"
  shows "k \<noteq> h \<Longrightarrow> normal_at B' k = normal_at B k" and "size (normal_at B' k) \<le> size (normal_at B k)"
proof -
  obtain g where r: "restates g B B'" and g3:
    "\<And>b. b \<in># B \<Longrightarrow> g b = b \<or> F_block b = h \<and> F_status b = NORMAL \<and> F_status (g b) = FORK"
    using assms unfolding drops_def by blast
  note g = restates_def [THEN iffD1, OF r, THEN conjunct1] restates_fields(3) [OF r] g3
  have n: "normal_at B' k = image_mset g {# b \<in># B. F_block b = k \<and> F_status (g b) = NORMAL #}"
  proof -
    have "{# b \<in># B. F_block (g b) = k \<and> F_status (g b) = NORMAL #} =
        {# b \<in># B. F_block b = k \<and> F_status (g b) = NORMAL #}"
      by (rule filter_mset_cong) (auto simp: g(2))
    then show ?thesis
      by (simp add: g(1) normal_at_def filter_mset_image_mset comp_def)
  qed
  have sub: "{# b \<in># B. F_block b = k \<and> F_status (g b) = NORMAL #} \<subseteq># normal_at B k"
    unfolding normal_at_def by (rule filter_mset_mono_strong) (use g(3) in force)+
  then show "size (normal_at B' k) \<le> size (normal_at B k)"
    by (simp add: n size_mset_mono)
  assume "k \<noteq> h"
  then have "{# b \<in># B. F_block b = k \<and> F_status (g b) = NORMAL #} = normal_at B k"
    unfolding normal_at_def by (intro filter_mset_cong) (use g(3) in force)+
  moreover have "image_mset g (normal_at B k) = image_mset (\<lambda>b. b) (normal_at B k)"
    by (rule image_mset_cong) (use \<open>k \<noteq> h\<close> g(3) in \<open>auto simp: normal_at_def\<close>)
  ultimately show "normal_at B' k = normal_at B k" by (simp add: n)
qed

lemma linked_upto_normal_at:
  "linked_upto n B \<longleftrightarrow> (\<forall>h b. 2 \<le> h \<and> h \<le> n \<and> b \<in># normal_at B h \<longrightarrow>
     (\<exists>p \<in># normal_at B (h - 1). F_hash p = F_parent_hash b))"
  unfolding linked_upto_def normal_at_def by fastforce

lemma linked_upto_mono: "linked_upto n B \<Longrightarrow> m \<le> n \<Longrightarrow> linked_upto m B"
  by (auto simp: linked_upto_def)

lemma chain_inv_mono: "chain_inv E hdr n B \<Longrightarrow> m \<le> n \<Longrightarrow> chain_inv E hdr m B"
  by (auto simp: chain_inv_def intro: linked_upto_mono)

lemma drops_chain_inv:
  assumes "drops h B B'" and "chain_inv E hdr n B" and "n \<le> h"
  shows "chain_inv E hdr n B'"
proof -
  from assms(1) obtain g where "restates g B B'" unfolding drops_def by blast
  moreover have "one_normal B'"
    using drops_normal_at(2) [OF assms(1)] assms(2) le_trans
    unfolding chain_inv_def one_normal_def by blast
  moreover have "linked_upto n B'"
    unfolding linked_upto_normal_at
  proof (intro allI impI)
    fix k b assume k: "2 \<le> k \<and> k \<le> n \<and> b \<in># normal_at B' k"
    then have "b \<in># normal_at B k"
    proof (cases "k = h")
      case True
      obtain g where g: "B' = image_mset g B"
        "\<And>b. b \<in># B \<Longrightarrow> g b = b \<or> F_block b = h \<and> F_status b = NORMAL \<and> F_status (g b) = FORK"
        using assms(1) unfolding drops_def restates_def by blast
      with k True show ?thesis by (auto simp: normal_at_def) (metis status_distinct(2))+
    next
      case False
      with k show ?thesis by (simp add: drops_normal_at(1) [OF assms(1)])
    qed
    moreover have "k - 1 \<noteq> h" using k assms(3) by auto
    ultimately show "\<exists>p \<in># normal_at B' (k - 1). F_hash p = F_parent_hash b"
      using assms(2) k by (auto simp: chain_inv_def linked_upto_normal_at drops_normal_at(1) [OF assms(1)])
  qed
  ultimately show ?thesis
    using assms(2) restates_unique_ids restates_unique_hashes restates_headers
    unfolding chain_inv_def by blast
qed

section \<open>Reviving and adding rows\<close>

text \<open>Rows with the given hash become \<^const>\<open>NORMAL\<close>, or one row with that hash is added.\<close>

definition revives :: "'w env \<Rightarrow> string \<Rightarrow> Block multiset \<Rightarrow> Block multiset \<Rightarrow> bool" where
  "revives E x B B' \<longleftrightarrow> (\<exists>g. restates g B B' \<and>
     (\<forall>b \<in># B. g b = b \<or> col_eq E (F_hash b) x \<and> F_status (g b) = NORMAL))"

definition adds :: "'w env \<Rightarrow> Block \<Rightarrow> Block multiset \<Rightarrow> Block multiset \<Rightarrow> bool" where
  "adds E row B B' \<longleftrightarrow> B' = add_mset row B \<and> F_status row = NORMAL \<and>
     (\<forall>b \<in># B. F_id b \<noteq> F_id row \<and> \<not> col_eq E (F_hash b) (F_hash row))"

definition writes :: "'w env \<Rightarrow> header \<Rightarrow> string \<Rightarrow> Block multiset \<Rightarrow> Block multiset \<Rightarrow> bool" where
  "writes E hdr x B B' \<longleftrightarrow> revives E x B B' \<or>
     (\<exists>row. adds E row B B' \<and> F_hash row = x \<and> hdr x = (F_block row, F_parent_hash row))"

text \<open>Equality under the collation is an equivalence that the header map respects.\<close>

definition header_map :: "'w env \<Rightarrow> header \<Rightarrow> bool" where
  "header_map E hdr \<longleftrightarrow> (\<forall>x. col_eq E x x) \<and> (\<forall>x y. col_eq E x y \<longrightarrow> col_eq E y x) \<and>
     (\<forall>x y z. col_eq E x y \<longrightarrow> col_eq E y z \<longrightarrow> col_eq E x z) \<and> (\<forall>x y. col_eq E x y \<longrightarrow> hdr x = hdr y)"

lemma writes_refl: "writes E hdr x B B"
  unfolding writes_def revives_def restates_def by (rule disjI1, rule exI [of _ "\<lambda>b. b"]) simp

lemma revives_normal_at:
  assumes "revives E x B B'" and "headers_ok hdr B" and "header_map E hdr" and "k \<noteq> fst (hdr x)"
  shows "normal_at B' k = normal_at B k"
proof -
  obtain g where r: "restates g B B'"
    and g: "\<And>b. b \<in># B \<Longrightarrow> g b = b \<or> col_eq E (F_hash b) x \<and> F_status (g b) = NORMAL"
    using assms(1) unfolding revives_def by blast
  have same: "g b = b" if "b \<in># B" and "F_block b = k" for b
  proof (rule ccontr)
    assume "g b \<noteq> b"
    with g that have "col_eq E (F_hash b) x" by blast
    then have "hdr x = (F_block b, F_parent_hash b)"
      using assms(2,3) that(1) by (metis headers_ok_def header_map_def)
    with assms(4) that(2) show False by simp
  qed
  have "normal_at B' k = image_mset g {# b \<in># B. F_block (g b) = k \<and> F_status (g b) = NORMAL #}"
    using r by (simp add: restates_def normal_at_def filter_mset_image_mset comp_def)
  also have "{# b \<in># B. F_block (g b) = k \<and> F_status (g b) = NORMAL #} = normal_at B k"
    unfolding normal_at_def by (rule filter_mset_cong) (use same restates_fields(3) [OF r] in auto)
  also have "image_mset g (normal_at B k) = image_mset (\<lambda>b. b) (normal_at B k)"
    by (rule image_mset_cong) (use same in \<open>auto simp: normal_at_def\<close>)
  finally show ?thesis by simp
qed

lemma revives_new_normal:
  assumes "revives E x B B'" and "normal_at B h = {#}" and "unique_hashes E B"
  shows "size (normal_at B' h) \<le> 1"
proof -
  obtain g where r: "restates g B B'"
    and g: "\<And>b. b \<in># B \<Longrightarrow> g b = b \<or> col_eq E (F_hash b) x \<and> F_status (g b) = NORMAL"
    using assms(1) unfolding revives_def by blast
  have old: "F_status b \<noteq> NORMAL" if "b \<in># B" and "F_block b = h" for b
    using assms(2) that by (auto simp: normal_at_def)
  have "normal_at B' h = image_mset g {# b \<in># B. F_block (g b) = h \<and> F_status (g b) = NORMAL #}"
    using r by (simp add: restates_def normal_at_def filter_mset_image_mset comp_def)
  moreover have "{# b \<in># B. F_block (g b) = h \<and> F_status (g b) = NORMAL #} \<subseteq># {# b \<in># B. col_eq E (F_hash b) x #}"
    by (rule filter_mset_mono_strong) (use old g restates_fields(3) [OF r] in force)+
  then have "size {# b \<in># B. F_block (g b) = h \<and> F_status (g b) = NORMAL #} \<le> size {# b \<in># B. col_eq E (F_hash b) x #}"
    by (rule size_mset_mono)
  moreover have "size {# b \<in># B. col_eq E (F_hash b) x #} \<le> 1"
    using assms(3) by (simp add: unique_hashes_def)
  ultimately show ?thesis by simp
qed

lemma adds_unique:
  assumes "adds E row B B'" and "header_map E hdr"
  shows "unique_ids B \<Longrightarrow> unique_ids B'" and "unique_hashes E B \<Longrightarrow> unique_hashes E B'"
proof -
  have new: "B' = add_mset row B" "\<And>b. b \<in># B \<Longrightarrow> F_id b \<noteq> F_id row"
    "\<And>b. b \<in># B \<Longrightarrow> \<not> col_eq E (F_hash b) (F_hash row)"
    using assms(1) by (auto simp: adds_def)
  show "unique_ids B'" if "unique_ids B"
    unfolding unique_ids_def
  proof
    fix i
    have "{# b \<in># B. F_id b = F_id row #} = {#}"
      using new(2) by auto
    with that show "size {# b \<in># B'. F_id b = i #} \<le> 1"
      by (auto simp: new(1) unique_ids_def)
  qed
  show "unique_hashes E B'" if "unique_hashes E B"
    unfolding unique_hashes_def
  proof
    fix x
    have "{# b \<in># B. col_eq E (F_hash b) x #} = {#}" if "col_eq E (F_hash row) x"
      using new(3) assms(2) that by simp (metis header_map_def)
    with that show "size {# b \<in># B'. col_eq E (F_hash b) x #} \<le> 1"
      by (auto simp: new(1) unique_hashes_def)
  qed
qed

lemma writes_normal_at:
  assumes "writes E hdr x B B'" and "headers_ok hdr B" and "header_map E hdr" and "k \<noteq> fst (hdr x)"
  shows "normal_at B' k = normal_at B k"
  using assms unfolding writes_def
  by (auto simp: adds_def normal_at_def dest: revives_normal_at [unfolded normal_at_def])

lemma writes_new_normal:
  assumes "writes E hdr x B B'" and "normal_at B h = {#}" and "unique_hashes E B"
  shows "size (normal_at B' h) \<le> 1"
proof (cases "revives E x B B'")
  case True
  then show ?thesis using assms(2,3) by (rule revives_new_normal)
next
  case False
  with assms obtain row where "adds E row B B'" unfolding writes_def by blast
  then have "B' = add_mset row B" by (simp add: adds_def)
  with assms(2) show ?thesis by (simp add: normal_at_add)
qed

lemma writes_basic:
  assumes "writes E hdr x B B'" and "header_map E hdr"
    and "unique_ids B" and "unique_hashes E B" and "headers_ok hdr B"
  shows "unique_ids B' \<and> unique_hashes E B' \<and> headers_ok hdr B'"
proof (cases "revives E x B B'")
  case True
  then show ?thesis
    using assms(3-5) restates_unique_ids restates_unique_hashes restates_headers
    unfolding revives_def by blast
next
  case False
  with assms obtain row where a: "adds E row B B'" and "F_hash row = x"
    "hdr x = (F_block row, F_parent_hash row)" unfolding writes_def by blast
  with assms(5) have "headers_ok hdr B'" by (auto simp: headers_ok_def adds_def)
  with adds_unique [OF a assms(2)] assms(3,4) show ?thesis by blast
qed

text \<open>Writing at a height above \<open>n\<close> that holds no \<^const>\<open>NORMAL\<close> block keeps the invariant.\<close>

lemma writes_chain_inv:
  assumes w: "writes E hdr x B B'" and m: "header_map E hdr" and inv: "chain_inv E hdr n B"
    and h: "fst (hdr x) = h" "n < h" and free: "1 < h \<Longrightarrow> normal_at B h = {#}"
  shows "chain_inv E hdr n B'"
proof -
  note at = writes_normal_at [OF w _ m, unfolded h(1)]
  from inv have ok: "headers_ok hdr B" and uh: "unique_hashes E B" by (auto simp: chain_inv_def)
  have "one_normal B'"
    unfolding one_normal_def
  proof (intro allI impI)
    fix k :: int assume "1 < k"
    then show "size (normal_at B' k) \<le> 1"
    proof (cases "k = h")
      case True
      with \<open>1 < k\<close> free writes_new_normal [OF w _ uh] show ?thesis by blast
    next
      case False
      with \<open>1 < k\<close> inv show ?thesis by (simp add: at [OF ok] chain_inv_def one_normal_def)
    qed
  qed
  moreover have "linked_upto n B'"
    using inv h(2) unfolding chain_inv_def linked_upto_normal_at
    by (auto simp: at [OF ok])
  ultimately show ?thesis
    using writes_basic [OF w m] inv by (simp add: chain_inv_def)
qed

text \<open>Once a \<^const>\<open>NORMAL\<close> block of height \<open>h\<close> has its parent stored, the invariant reaches \<open>h\<close>.\<close>

lemma chain_inv_extend:
  assumes inv: "chain_inv E hdr n B" and m: "header_map E hdr" and h: "h = n + 1" "hdr x = (h, y)"
    and b: "b \<in># normal_at B h" "col_eq E (F_hash b) x"
    and p: "1 < h \<Longrightarrow> \<exists>p \<in># normal_at B (h - 1). F_hash p = y"
  shows "chain_inv E hdr h B"
proof -
  have "linked_upto h B"
    unfolding linked_upto_normal_at
  proof (intro allI impI)
    fix k c assume k: "2 \<le> k \<and> k \<le> h \<and> c \<in># normal_at B k"
    show "\<exists>p \<in># normal_at B (k - 1). F_hash p = F_parent_hash c"
    proof (cases "k = h")
      case True
      with k b inv have "c = b" by (intro one_normal_eq [of B h]) (auto simp: chain_inv_def)
      moreover have "hdr (F_hash b) = (F_block b, F_parent_hash b)"
        using inv b(1) by (simp add: chain_inv_def headers_ok_def normal_at_def)
      moreover have "hdr (F_hash b) = hdr x"
        using m b(2) unfolding header_map_def by blast
      ultimately have "F_parent_hash c = y" by (simp add: h(2))
      with p True k show ?thesis by simp
    next
      case False
      with k inv h show ?thesis by (simp add: chain_inv_def linked_upto_normal_at)
    qed
  qed
  with inv show ?thesis by (simp add: chain_inv_def)
qed

end
