(* ===== verification/Sync_Proof.thy ===== *)
theory Sync_Proof
  imports Sync_Inv
begin

text \<open>
  The block-level functions of the synchroniser keep the invariant of \<open>Sync_Inv\<close>: what \<^const>\<open>DropBlok\<close>,
  \<^const>\<open>WriteBlock\<close> and \<^const>\<open>WriteTransactions\<close> do to the tables, then \<^const>\<open>SyncOneBlock\<close>, over any
  database and chain node that satisfy \<open>chain_node\<close>.
\<close>

section \<open>Row updates as changes of the table\<close>

lemma block_updated_drops:
  assumes upd: "block_updated (b\<lparr>F_status := FORK\<rparr>) (\<lambda>r. r\<lparr>F_status := FORK\<rparr>) D D'"
    and ids: "unique_ids (blocks D)"
    and b: "b \<in># blocks D" "F_block b = h" "F_status b = NORMAL"
  shows "drops h (blocks D) (blocks D')"
    and "size (normal_at (blocks D) h) \<le> 1 \<Longrightarrow> normal_at (blocks D') h = {#}"
    and "txs D' = txs D" and "rewards D' = rewards D"
proof -
  obtain t where D': "D' = update_blocks (F_id b) (\<lambda>r. r\<lparr>F_status := FORK, F_modify_time := t\<rparr>) D"
    using upd by (auto simp: block_updated_def BeforeUpdate_Block_def)
  define g where "g = (\<lambda>r :: Block. if F_id r = F_id b then r\<lparr>F_status := FORK, F_modify_time := t\<rparr> else r)"
  have B': "blocks D' = image_mset g (blocks D)"
    by (simp add: D' update_blocks_def g_def)
  have g: "g r = (if r = b then b\<lparr>F_status := FORK, F_modify_time := t\<rparr> else r)" if "r \<in># blocks D" for r
    using unique_ids_eq [OF ids that b(1)] by (auto simp: g_def)
  have "restates g (blocks D) (blocks D')"
    by (auto simp: restates_def B' g_def)
  moreover have "\<forall>r \<in># blocks D. g r = r \<or> F_block r = h \<and> F_status r = NORMAL \<and> F_status (g r) = FORK"
    using b by (simp add: g)
  ultimately show "drops h (blocks D) (blocks D')"
    unfolding drops_def by blast
  show "normal_at (blocks D') h = {#}" if "size (normal_at (blocks D) h) \<le> 1"
  proof -
    have only: "r = b" if "r \<in># blocks D" "F_block r = h" "F_status r = NORMAL" for r
      using b that by (intro size_le_1_eq [OF \<open>size (normal_at (blocks D) h) \<le> 1\<close>]) (auto simp: normal_at_def)
    have "\<not> (F_block (g r) = h \<and> F_status (g r) = NORMAL)" if "r \<in># blocks D" for r
      using only [OF that] g [OF that] by (cases "r = b") auto
    then show ?thesis by (auto simp: normal_at_def B')
  qed
  show "txs D' = txs D" "rewards D' = rewards D"
    by (simp_all add: D' update_blocks_def)
qed

lemma block_updated_revives:
  assumes upd: "block_updated (b\<lparr>F_status := NORMAL\<rparr>) (\<lambda>r. r\<lparr>F_status := NORMAL\<rparr>) D D'"
    and ids: "unique_ids (blocks D)"
    and b: "b \<in># blocks D" "col_eq E (F_hash b) x"
  shows "revives E x (blocks D) (blocks D')"
    and "\<exists>b' \<in># blocks D'. F_status b' = NORMAL \<and> col_eq E (F_hash b') x"
    and "txs D' = txs D" and "rewards D' = rewards D"
proof -
  obtain t where D': "D' = update_blocks (F_id b) (\<lambda>r. r\<lparr>F_status := NORMAL, F_modify_time := t\<rparr>) D"
    using upd by (auto simp: block_updated_def BeforeUpdate_Block_def)
  define g where "g = (\<lambda>r :: Block. if F_id r = F_id b then r\<lparr>F_status := NORMAL, F_modify_time := t\<rparr> else r)"
  have B': "blocks D' = image_mset g (blocks D)"
    by (simp add: D' update_blocks_def g_def)
  have g: "g r = (if r = b then b\<lparr>F_status := NORMAL, F_modify_time := t\<rparr> else r)" if "r \<in># blocks D" for r
    using unique_ids_eq [OF ids that b(1)] by (auto simp: g_def)
  have "restates g (blocks D) (blocks D')"
    by (auto simp: restates_def B' g_def)
  moreover have "\<forall>r \<in># blocks D. g r = r \<or> col_eq E (F_hash r) x \<and> F_status (g r) = NORMAL"
    using b by (simp add: g)
  ultimately show "revives E x (blocks D) (blocks D')"
    unfolding revives_def by blast
  have "g b \<in># blocks D'" using b(1) by (simp add: B')
  then show "\<exists>b' \<in># blocks D'. F_status b' = NORMAL \<and> col_eq E (F_hash b') x"
    using b by (intro bexI [of _ "g b"]) (simp_all add: g [OF b(1)])
  show "txs D' = txs D" "rewards D' = rewards D"
    by (simp_all add: D' update_blocks_def)
qed

lemma block_created_adds:
  assumes "block_created E (new_block_row zero_Block cb k fees) D D'"
  obtains row where "adds E row (blocks D) (blocks D')" and "F_hash row = Hash cb"
    and "F_block row = to_int64 (Number cb)" and "F_parent_hash row = ParentHash cb"
    and "txs D' = txs D" and "rewards D' = rewards D" and "F_fees row = String fees"
    and "F_txn row = int k" and "F_reward row = []" and "F_miner row = []"
proof -
  obtain i t where "\<forall>r \<in># blocks D. F_id r \<noteq> i \<and> \<not> col_eq E (F_hash r) (Hash cb)"
    and "D' = D\<lparr>blocks := add_mset ((BeforeCreate_Block t (new_block_row zero_Block cb k fees))\<lparr>F_id := i\<rparr>) (blocks D)\<rparr>"
    using assms by (auto simp: block_created_def new_block_row_def)
  then show thesis
    by (intro that [of "(BeforeCreate_Block t (new_block_row zero_Block cb k fees))\<lparr>F_id := i\<rparr>"])
      (auto simp: adds_def BeforeCreate_Block_def new_block_row_def zero_Block_def)
qed

section \<open>Functions that leave table t\_block alone\<close>

definition same_blocks :: "('w \<Rightarrow> dbst) \<Rightarrow> 'w st \<Rightarrow> 'w st \<Rightarrow> bool" where
  "same_blocks db s s' \<longleftrightarrow> io_frame s s' \<and> blocks (db (ext s')) = blocks (db (ext s)) \<and>
     rewards (db (ext s')) = rewards (db (ext s))"

lemma same_blocks_refl [simp]: "same_blocks db s s"
  by (simp add: same_blocks_def)

lemma same_blocks_trans: "same_blocks db s s' \<Longrightarrow> same_blocks db s' s'' \<Longrightarrow> same_blocks db s s''"
  by (auto simp: same_blocks_def intro: io_frame_trans)

lemma quiet_same_blocks: "quiet db s s' \<Longrightarrow> same_blocks db s s'"
  by (simp add: quiet_def same_blocks_def)

text \<open>No panic, or one that \<^const>\<open>PanicRecover\<close> stops.\<close>

fun string_panic :: "'a out \<Rightarrow> bool" where
  "string_panic (Ret a) = True"
| "string_panic (Panic p) = kind_string p"

lemma io_frame_ext: "io_frame s s' \<Longrightarrow> only_ext s' s'' \<Longrightarrow> io_frame s s''"
  by (blast intro: io_frame_trans only_ext_io_frame)

context gorm_db
begin

lemma Mysql_thenI:
  assumes "\<And>s'. quiet db s s' \<Longrightarrow> wp k Q s'"
    and "\<And>e s'. quiet db s s' \<Longrightarrow> Q (Panic (PStr e)) s'"
  shows "wp (thenE (Mysql E) k) Q s"
  by (rule wp_thenI [OF Mysql_wp]) (use assms in auto)

lemma UpdateTransactionStatus_same_blocks:
  "wp (UpdateTransactionStatus E t) (\<lambda>r s'. same_blocks db s s' \<and> (\<exists>e. r = Ret e)) s"
  unfolding UpdateTransactionStatus_def
  by (rule wp_mono [OF updateTransactionColumn_wp])
    (auto simp: same_blocks_def tx_updated_def only_ext_io_frame)

lemma drop_txs_wp:
  "wp (drop_txs E ts) (\<lambda>r s'. same_blocks db s s' \<and> string_panic r) s"
proof (induction ts arbitrary: s)
  case (Cons t ts)
  have "wp (thenE (Mysql E) (bindE (UpdateTransactionStatus E (t\<lparr>F_status_t := FORK\<rparr>)) (\<lambda>_. drop_txs E ts)))
      (\<lambda>r s'. same_blocks db s s' \<and> string_panic r) s"
  proof (rule Mysql_thenI)
    fix s1 assume "quiet db s s1"
    then have s1: "same_blocks db s s1" by (rule quiet_same_blocks)
    show "wp (bindE (UpdateTransactionStatus E (t\<lparr>F_status_t := FORK\<rparr>)) (\<lambda>_. drop_txs E ts))
      (\<lambda>r s'. same_blocks db s s' \<and> string_panic r) s1"
      by (rule wp_bindI [OF UpdateTransactionStatus_same_blocks], rule wp_mono [OF Cons.IH])
        (use s1 in \<open>auto intro: same_blocks_trans\<close>)
  qed (auto dest: quiet_same_blocks)
  then show ?case by (simp split: option.split)
qed simp

lemma mysql_update_tx_wp:
  assumes "same_blocks db s0 s"
  shows "wp (thenE (Mysql E) (UpdateTransactionStatus E t)) (\<lambda>r s'. same_blocks db s0 s') s"
proof (rule Mysql_thenI)
  fix s1 assume "quiet db s s1"
  with assms have "same_blocks db s0 s1" by (blast intro: same_blocks_trans quiet_same_blocks)
  then show "wp (UpdateTransactionStatus E t) (\<lambda>r s'. same_blocks db s0 s') s1"
    by (intro wp_mono [OF UpdateTransactionStatus_same_blocks]) (blast intro: same_blocks_trans)
next
  fix s1 assume "quiet db s s1"
  with assms show "same_blocks db s0 s1" by (blast intro: same_blocks_trans quiet_same_blocks)
qed

lemma calc_create_wp:
  assumes "same_blocks db s0 s"
  shows "wp (bindE (CalcTransactionType t) (\<lambda>ty. CreateTransaction E (row ty))) (\<lambda>r s'. same_blocks db s0 s') s"
proof (rule wp_bindI [of _ "\<lambda>r s'. s' = s"])
  show "wp (CalcTransactionType t) (\<lambda>r s'. s' = s) s"
    by (auto simp: CalcTransactionType_def last64_def wp_simps)
  show "wp (CreateTransaction E (row ty)) (\<lambda>r s'. same_blocks db s0 s') s'" if "s' = s" for ty s'
    by (rule wp_mono [OF CreateTransaction_wp])
      (use that assms in \<open>auto simp: same_blocks_def tx_created_def
         intro: io_frame_ext split: out.splits option.splits\<close>)
qed (use assms in auto)

lemma write_tx_wp:
  "wp (write_tx E cb rcs x t) (\<lambda>r s'. same_blocks db s s') s"
  unfolding write_tx_def
proof (rule Mysql_thenI, goal_cases)
  case (1 s1)
  then have s1: "same_blocks db s s1" by (rule quiet_same_blocks)
  have s2: "same_blocks db s s2" if "unchanged db s1 s2" for s2
    using s1 quiet_same_blocks [OF unchanged_quiet [OF that]] by (rule same_blocks_trans)
  show ?case
    by (rule wp_bindI [OF FindTrasactionByHash_wp])
      (auto split: option.split intro!: mysql_update_tx_wp calc_create_wp s2)
qed (auto dest: quiet_same_blocks)

lemma write_txs_wp:
  "wp (write_txs E cb rcs m) (\<lambda>r s'. same_blocks db s s') s"
proof (induction m arbitrary: s)
  case (Cons e m)
  obtain x t where e: "e = (x, t)" by (cases e)
  show ?case unfolding e write_txs.simps
    by (rule wp_bindI [OF write_tx_wp])
      (auto split: option.split intro: wp_mono [OF Cons.IH] same_blocks_trans)
qed simp

end

section \<open>Dropping a height\<close>

definition B_of :: "('w \<Rightarrow> dbst) \<Rightarrow> 'w st \<Rightarrow> Block multiset" where
  "B_of db s = blocks (db (ext s))"

lemma same_blocks_B: "same_blocks db s s' \<Longrightarrow> B_of db s' = B_of db s"
  by (simp add: same_blocks_def B_of_def)

lemma same_blocks_io: "same_blocks db s s' \<Longrightarrow> io_frame s s'"
  by (simp add: same_blocks_def)

text \<open>What dropping height \<open>h\<close> may do to the table, and what it has done when it reports no error.\<close>

definition dropped :: "('w \<Rightarrow> dbst) \<Rightarrow> int \<Rightarrow> 'w st \<Rightarrow> 'w st \<Rightarrow> bool" where
  "dropped db h s s' \<longleftrightarrow> io_frame s s' \<and> drops h (B_of db s) (B_of db s')"

definition cleared :: "('w \<Rightarrow> dbst) \<Rightarrow> int \<Rightarrow> 'w st \<Rightarrow> 'w st \<Rightarrow> bool" where
  "cleared db h s s' \<longleftrightarrow> dropped db h s s' \<and>
     (1 < h \<and> size (normal_at (B_of db s) h) \<le> 1 \<longrightarrow> normal_at (B_of db s') h = {#})"

lemma same_blocks_dropped: "same_blocks db s s' \<Longrightarrow> dropped db h s s'"
  by (simp add: dropped_def same_blocks_B same_blocks_io)

lemma same_then_dropped: "same_blocks db s s' \<Longrightarrow> dropped db h s' s'' \<Longrightarrow> dropped db h s s''"
  by (auto simp: dropped_def same_blocks_B dest: same_blocks_io intro: io_frame_trans)

lemma dropped_then_same: "dropped db h s s' \<Longrightarrow> same_blocks db s' s'' \<Longrightarrow> dropped db h s s''"
  by (auto simp: dropped_def same_blocks_B dest: same_blocks_io intro: io_frame_trans)

lemma cleared_then_same: "cleared db h s s' \<Longrightarrow> same_blocks db s' s'' \<Longrightarrow> cleared db h s s''"
  by (auto simp: cleared_def same_blocks_B intro: dropped_then_same)

lemma same_then_cleared: "same_blocks db s s' \<Longrightarrow> cleared db h s' s'' \<Longrightarrow> cleared db h s s''"
  by (auto simp: cleared_def same_blocks_B intro: same_then_dropped)

lemma cleared_dropped: "cleared db h s s' \<Longrightarrow> dropped db h s s'"
  by (simp add: cleared_def)

text \<open>The two postconditions of a drop.\<close>

definition drop_post :: "('w \<Rightarrow> dbst) \<Rightarrow> int \<Rightarrow> 'w st \<Rightarrow> go_error out \<Rightarrow> 'w st \<Rightarrow> bool" where
  "drop_post db h s r s' \<longleftrightarrow> string_panic r \<and> dropped db h s s' \<and> (r = Ret None \<longrightarrow> cleared db h s s')"

lemma drop_postI:
  "dropped db h s s' \<Longrightarrow> drop_post db h s (Ret (Some e)) s'"
  "cleared db h s s' \<Longrightarrow> drop_post db h s (Ret None) s'"
  "dropped db h s s' \<Longrightarrow> kind_string p \<Longrightarrow> drop_post db h s (Panic p) s'"
  by (auto simp: drop_post_def dest: cleared_dropped)

context gorm_db_reliable
begin

lemma UpdateBlockStatus_drops:
  assumes "unique_ids (B_of db s)" and "b \<in># normal_at (B_of db s) h"
  shows "wp (UpdateBlockStatus E (b\<lparr>F_status := FORK\<rparr>)) (\<lambda>r s'. drop_post db h s r s') s"
proof (rule wp_mono [OF updateBlockColumn_reliable [of "b\<lparr>F_status := FORK\<rparr>" "\<lambda>r. r\<lparr>F_status := FORK\<rparr>" s],
      folded UpdateBlockStatus_def [of E "b\<lparr>F_status := FORK\<rparr>", simplified]], goal_cases)
  case (1 r s')
  show ?case
  proof (cases r)
    case (Ret e)
    show ?thesis
    proof (cases e)
      case None
      with 1 Ret have "block_updated (b\<lparr>F_status := FORK\<rparr>) (\<lambda>r. r\<lparr>F_status := FORK\<rparr>) (db (ext s)) (db (ext s'))"
        and "only_ext s s'" by auto
      with block_updated_drops [OF this(1), of h] assms None Ret show ?thesis
        by (auto simp: drop_post_def cleared_def dropped_def B_of_def normal_at_def only_ext_io_frame)
    qed (use 1 Ret in \<open>auto simp: drop_post_def dropped_def B_of_def only_ext_io_frame\<close>)
  qed (use 1 in auto)
qed

lemma drop_rest_wp:
  assumes "cleared db h s0 s"
  shows "wp (thenE (Mysql E) (bindE (FindTrasactionByHeight E h) (\<lambda>(transactions, err).
      if err \<noteq> None \<and> err \<noteq> Some DATA_NOT_EXIST then ret err
      else bindE (drop_txs E transactions) (\<lambda>done. if \<not> done then ret err else ret None))))
    (drop_post db h s0) s"
proof (rule Mysql_thenI, goal_cases)
  case (1 s1)
  with assms have s1: "cleared db h s0 s1" by (blast intro: cleared_then_same quiet_same_blocks)
  have s2: "cleared db h s0 s2" if "unchanged db s1 s2" for s2
    using s1 quiet_same_blocks [OF unchanged_quiet [OF that]] by (rule cleared_then_same)
  have drop: "wp (bindE (drop_txs E ts) (\<lambda>done. if \<not> done then ret None else ret None)) (drop_post db h s0) s2"
    if "cleared db h s0 s2" for ts s2
    by (rule wp_bindI [OF drop_txs_wp])
      (use that in \<open>auto intro!: drop_postI intro: cleared_then_same dest: cleared_dropped dropped_then_same\<close>)
  show ?case
    by (rule wp_bindI [OF FindTrasactionByHeight_wp])
      (auto split: option.splits intro!: drop drop_postI intro: s2 cleared_dropped)
next
  case (2 e s1)
  with assms show ?case
    by (auto intro!: drop_postI(3) intro: dropped_then_same quiet_same_blocks cleared_dropped)
qed

lemma drop_found_wp:
  assumes "same_blocks db s0 s" and "unique_ids (B_of db s)" and "b \<in># normal_at (B_of db s) h"
  shows "wp (thenE (Mysql E) (bindE (UpdateBlockStatus E (b\<lparr>F_status := FORK\<rparr>)) (\<lambda>err.
      case err of Some e \<Rightarrow> ret (Some e) | None \<Rightarrow>
        thenE (Mysql E) (bindE (FindTrasactionByHeight E h) (\<lambda>(transactions, err).
          if err \<noteq> None \<and> err \<noteq> Some DATA_NOT_EXIST then ret err
          else bindE (drop_txs E transactions) (\<lambda>done. if \<not> done then ret err else ret None))))))
    (drop_post db h s0) s"
proof (rule Mysql_thenI, goal_cases)
  case (1 s1)
  then have same: "same_blocks db s s1" by (rule quiet_same_blocks)
  with assms(1) have s1: "same_blocks db s0 s1" by (rule same_blocks_trans)
  have upd: "wp (UpdateBlockStatus E (b\<lparr>F_status := FORK\<rparr>)) (drop_post db h s1) s1"
    by (rule UpdateBlockStatus_drops) (use assms(2,3) same in \<open>simp_all add: same_blocks_B\<close>)
  show ?case
    by (rule wp_bindI [OF upd])
      (auto simp: drop_post_def simp del: not_None_eq split: option.splits
        intro!: drop_rest_wp
        intro: same_then_cleared [OF s1] same_then_dropped [OF s1])
next
  case (2 e s1)
  with assms(1) show ?case
    by (auto intro!: drop_postI(3) same_blocks_dropped intro: same_blocks_trans quiet_same_blocks)
qed

lemma DropBlok_wp:
  assumes "unique_ids (B_of db s)"
  shows "wp (DropBlok E h) (drop_post db h s) s"
proof (cases "h \<le> 1")
  case True
  then show ?thesis
    by (simp add: DropBlok_def) (rule drop_postI, simp add: cleared_def dropped_def)
next
  case False
  show ?thesis
    unfolding DropBlok_def if_not_P [OF False]
  proof (rule Mysql_thenI, goal_cases)
    case (1 s1)
    have s2: "same_blocks db s s2" if "unchanged db s1 s2" for s2
      using quiet_same_blocks [OF 1] quiet_same_blocks [OF unchanged_quiet [OF that]] by (rule same_blocks_trans)
    show ?case
    proof (rule wp_bindI [OF FindBlockByHeight_wp], goal_cases)
      case (1 x s2)
      obtain b err where x: "x = (b, err)" by (cases x)
      from 1 have same: "same_blocks db s s2" by (auto intro: s2)
      have Bs: "B_of db s2 = B_of db s" "blocks (db (ext s1)) = B_of db s"
        using same_blocks_B [OF same] 1 by (auto simp: B_of_def unchanged_def)
      show ?case
      proof (cases err)
        case None
        with 1 x Bs have "b \<in># normal_at (B_of db s2) h" by (simp add: normal_at_def)
        with same assms show ?thesis
          by (simp add: x None Bs drop_found_wp del: not_None_eq)
      next
        case (Some e)
        with 1 x Bs have "normal_at (B_of db s2) h = {#}" "e = DATA_NOT_EXIST" by (auto simp: normal_at_def)
        with Some x show ?thesis
          by (auto intro!: drop_postI simp: cleared_def same_blocks_dropped [OF same])
      qed
    qed (auto intro!: drop_postI(3) same_blocks_dropped s2)
  next
    case (2 e s1)
    then show ?case by (auto intro!: drop_postI(3) same_blocks_dropped quiet_same_blocks)
  qed
qed

end

section \<open>Writing a block\<close>

definition written :: "'w env \<Rightarrow> ('w \<Rightarrow> dbst) \<Rightarrow> header \<Rightarrow> string \<Rightarrow> 'w st \<Rightarrow> 'w st \<Rightarrow> bool" where
  "written E db hdr x s s' \<longleftrightarrow> io_frame s s' \<and> writes E hdr x (B_of db s) (B_of db s')"

definition write_post ::
  "'w env \<Rightarrow> ('w \<Rightarrow> dbst) \<Rightarrow> header \<Rightarrow> string \<Rightarrow> 'w st \<Rightarrow> go_error out \<Rightarrow> 'w st \<Rightarrow> bool" where
  "write_post E db hdr x s r s' \<longleftrightarrow> written E db hdr x s s' \<and>
     (r = Ret None \<longrightarrow> (\<exists>b \<in># B_of db s'. F_status b = NORMAL \<and> col_eq E (F_hash b) x))"

lemma same_blocks_written: "same_blocks db s s' \<Longrightarrow> written E db hdr x s s'"
  by (simp add: written_def same_blocks_B same_blocks_io writes_refl)

lemma same_then_write_post:
  "same_blocks db s s' \<Longrightarrow> write_post E db hdr x s' r s'' \<Longrightarrow> write_post E db hdr x s r s''"
  by (auto simp: write_post_def written_def same_blocks_B dest: same_blocks_io intro: io_frame_trans)

lemma write_post_same:
  assumes "same_blocks db s s'" and "r \<noteq> Ret None"
  shows "write_post E db hdr x s r s'"
  using assms by (simp add: write_post_def same_blocks_written)

lemma wp_count_fees: "wp (count_fees rcs m a) (\<lambda>r s'. s' = s) s"
  by (induction rcs m a rule: count_fees.induct) (auto split: option.splits)

context gorm_db_reliable
begin

lemma UpdateBlockStatus_revives:
  assumes "unique_ids (B_of db s)" and "b \<in># B_of db s" and "col_eq E (F_hash b) x"
  shows "wp (UpdateBlockStatus E (b\<lparr>F_status := NORMAL\<rparr>)) (write_post E db hdr x s) s"
proof -
  have "write_post E db hdr x s r s'"
    if u: "only_ext s s' \<and>
     (case r of
        Ret None \<Rightarrow> block_updated (b\<lparr>F_status := NORMAL\<rparr>) (\<lambda>r. r\<lparr>F_status := NORMAL\<rparr>) (db (ext s)) (db (ext s'))
      | Ret (Some e) \<Rightarrow> db (ext s') = db (ext s)
      | Panic p \<Rightarrow> False)" for r :: "go_error out" and s'
  proof (cases "r = Ret None")
    case True
    with u have upd: "block_updated (b\<lparr>F_status := NORMAL\<rparr>) (\<lambda>r. r\<lparr>F_status := NORMAL\<rparr>) (db (ext s)) (db (ext s'))"
      by simp
    from u block_updated_revives(1,2) [OF upd assms [unfolded B_of_def]] show ?thesis
      by (simp add: write_post_def written_def writes_def B_of_def only_ext_io_frame)
  next
    case False
    with u have "same_blocks db s s'"
      by (auto simp: same_blocks_def only_ext_io_frame split: out.splits option.splits)
    with False show ?thesis by (simp add: write_post_same)
  qed
  with wp_mono [OF updateBlockColumn_reliable [of "b\<lparr>F_status := NORMAL\<rparr>" "\<lambda>r. r\<lparr>F_status := NORMAL\<rparr>" s]]
  show ?thesis by (simp add: UpdateBlockStatus_def)
qed

lemma CreateBlock_adds:
  assumes "hdr (Hash cb) = (to_int64 (Number cb), ParentHash cb)"
  shows "wp (CreateBlock E (new_block_row zero_Block cb k fees)) (write_post E db hdr (Hash cb) s) s"
proof (rule wp_mono [OF CreateBlock_wp], goal_cases)
  case (1 r s')
  show ?case
  proof (cases "r = Ret None")
    case True
    with 1 have c: "block_created E (new_block_row zero_Block cb k fees) (db (ext s)) (db (ext s'))" by simp
    obtain row where row: "adds E row (B_of db s) (B_of db s')" "F_hash row = Hash cb"
      "F_block row = to_int64 (Number cb)" "F_parent_hash row = ParentHash cb"
      using block_created_adds [OF c] unfolding B_of_def by metis
    then have "writes E hdr (Hash cb) (B_of db s) (B_of db s')"
      unfolding writes_def using assms by auto
    moreover have "row \<in># B_of db s'" "F_status row = NORMAL" using row(1) by (auto simp: adds_def)
    ultimately show ?thesis
      using 1 row(2) by (auto simp: write_post_def written_def only_ext_io_frame col_refl intro!: bexI [of _ row])
  next
    case False
    with 1 have "same_blocks db s s'"
      by (auto simp: same_blocks_def only_ext_io_frame split: out.splits option.splits)
    with False show ?thesis by (simp add: write_post_same)
  qed
qed

lemma Mysql_then_write:
  assumes "same_blocks db s0 s"
    and "\<And>s'. same_blocks db s s' \<Longrightarrow> wp k (write_post E db hdr x s') s'"
  shows "wp (thenE (Mysql E) k) (write_post E db hdr x s0) s"
proof (rule Mysql_thenI, goal_cases)
  case (1 s1)
  then have same: "same_blocks db s s1" by (rule quiet_same_blocks)
  show ?case
    by (rule wp_mono [OF assms(2) [OF same]])
      (rule same_then_write_post [OF same_blocks_trans [OF assms(1) same]])
next
  case (2 e s1)
  then have "same_blocks db s0 s1" by (rule same_blocks_trans [OF assms(1) quiet_same_blocks])
  then show ?case by (simp add: write_post_same)
qed

lemma WriteBlock_wp:
  assumes ids: "unique_ids (B_of db s)"
    and hdr: "hdr (Hash cb) = (to_int64 (Number cb), ParentHash cb)"
  shows "wp (WriteBlock E cb transactions receipts) (write_post E db hdr (Hash cb) s) s"
  unfolding WriteBlock_def
proof (rule Mysql_then_write [OF same_blocks_refl], rule wp_bindI [OF FindBlockByHash_wp], goal_cases)
  case (1 s1 x s2)
  obtain b err where x: "x = (b, err)" by (cases x)
  from 1 have same: "same_blocks db s1 s2" by (auto intro: quiet_same_blocks unchanged_quiet)
  have B: "B_of db s1 = B_of db s" "B_of db s2 = B_of db s" "blocks (db (ext s1)) = B_of db s"
    using same_blocks_B [OF same] same_blocks_B [OF 1(1)] by (simp_all add: B_of_def)
  show ?case
  proof (cases err)
    case None
    with 1 x B have b: "b \<in># B_of db s" "col_eq E (F_hash b) (Hash cb)" by auto
    have "wp (thenE (Mysql E) (UpdateBlockStatus E (b\<lparr>F_status := NORMAL\<rparr>))) (write_post E db hdr (Hash cb) s1) s2"
      by (rule Mysql_then_write [OF same], rule UpdateBlockStatus_revives)
        (use ids b B in \<open>simp_all add: same_blocks_B\<close>)
    moreover have "write_post E db hdr (Hash cb) s1 (Ret None) s2" if "F_status b = NORMAL"
      using b that B by (auto simp: write_post_def same_blocks_written [OF same])
    ultimately show ?thesis by (simp add: x None)
  next
    case (Some e)
    with 1 x have zb: "b = zero_Block" "e = DATA_NOT_EXIST" by auto
    have "wp (bindE (count_fees receipts (order_txs E transactions) 0) (\<lambda>fees. thenE (Mysql E)
        (CreateBlock E (new_block_row zero_Block cb (length transactions) fees)))) (write_post E db hdr (Hash cb) s1) s2"
    proof (rule wp_bindI [OF wp_count_fees], goal_cases)
      case (1 fees s3)
      then show ?case
        using Mysql_then_write [OF same CreateBlock_adds [of hdr cb, OF hdr]] by simp
    qed (auto intro!: write_post_same same)
    then show ?thesis by (simp add: x Some zb)
  qed
qed (auto intro!: write_post_same quiet_same_blocks unchanged_quiet)

end

section \<open>Copying one block\<close>

text \<open>What one copy promises when the invariant holds up to \<open>n\<close> and the height copied is \<open>n + 1\<close>:
  without an error the invariant reaches \<open>n + 1\<close>; otherwise \<^verbatim>\<open>block_now\<close> stays or steps back by one,
  never below \<open>-1\<close>, and the invariant holds up to it.\<close>

definition sync_post ::
  "'w env \<Rightarrow> ('w \<Rightarrow> dbst) \<Rightarrow> header \<Rightarrow> int \<Rightarrow> go_error out \<Rightarrow> 'w st \<Rightarrow> bool" where
  "sync_post E db hdr n r s \<longleftrightarrow>
     (if r = Ret None then block_now s = n \<and> chain_inv E hdr (n + 1) (B_of db s)
      else (block_now s = n \<or> 0 \<le> n \<and> block_now s = n - 1) \<and> chain_inv E hdr (block_now s) (B_of db s))"

text \<open>The state between the steps of a copy: the invariant up to \<open>n\<close>, and no \<^const>\<open>NORMAL\<close> block of
  the next height.\<close>

definition sync_mid :: "'w env \<Rightarrow> ('w \<Rightarrow> dbst) \<Rightarrow> header \<Rightarrow> int \<Rightarrow> 'w st \<Rightarrow> bool" where
  "sync_mid E db hdr n s \<longleftrightarrow> block_now s = n \<and> chain_inv E hdr n (B_of db s) \<and>
     (1 < n + 1 \<longrightarrow> normal_at (B_of db s) (n + 1) = {#})"

lemma io_frame_block_now: "io_frame s s' \<Longrightarrow> block_now s' = block_now s"
  by (simp add: io_frame_def)

lemma same_blocks_mid: "same_blocks db s s' \<Longrightarrow> sync_mid E db hdr n s \<Longrightarrow> sync_mid E db hdr n s'"
  by (auto simp: sync_mid_def same_blocks_B dest!: io_frame_block_now [OF same_blocks_io])

lemma quiet_mid: "quiet db s s' \<Longrightarrow> sync_mid E db hdr n s \<Longrightarrow> sync_mid E db hdr n s'"
  by (blast intro: same_blocks_mid quiet_same_blocks)

lemma sync_mid_ext: "db w = db (ext s) \<Longrightarrow> sync_mid E db hdr n (s\<lparr>ext := w\<rparr>) = sync_mid E db hdr n s"
  by (simp add: sync_mid_def B_of_def)

lemma sync_mid_upd [simp]:
  "sync_mid E db hdr n (s\<lparr>GLastBlock := g\<rparr>) = sync_mid E db hdr n s"
  "sync_mid E db hdr n (s\<lparr>c_web3 := c\<rparr>) = sync_mid E db hdr n s"
  by (simp_all add: sync_mid_def B_of_def)

lemma sync_mid_post: "sync_mid E db hdr n s \<Longrightarrow> r \<noteq> Ret None \<Longrightarrow> sync_post E db hdr n r s"
  by (simp add: sync_mid_def sync_post_def)

lemma sync_mid_back:
  assumes "sync_mid E db hdr n s" and "0 \<le> n" and "n < 2 ^ 63" and "r \<noteq> Ret None"
  shows "sync_post E db hdr n r (s\<lparr>block_now := to_int64 (block_now s + - 1)\<rparr>)"
  using assms by (auto simp: sync_mid_def sync_post_def in_int64_def B_of_def intro: chain_inv_mono)

text \<open>A drop without an error reaches the state in between; with an error it keeps the invariant.\<close>

lemma drop_post_sync:
  assumes "drop_post db (n + 1) s r s'" and "chain_inv E hdr n (B_of db s)" and "block_now s = n"
  shows "r' \<noteq> Ret None \<Longrightarrow> sync_post E db hdr n r' s'"
    and "r = Ret None \<Longrightarrow> sync_mid E db hdr n s'"
proof -
  have d: "dropped db (n + 1) s s'" using assms(1) by (simp add: drop_post_def)
  then have inv: "chain_inv E hdr n (B_of db s')"
    using drops_chain_inv [OF _ assms(2), of "n + 1"] by (simp add: dropped_def)
  have now: "block_now s' = n" using d assms(3) by (auto simp: dropped_def dest: io_frame_block_now)
  with inv show "sync_post E db hdr n r' s'" if "r' \<noteq> Ret None" using that by (simp add: sync_post_def)
  assume "r = Ret None"
  with assms(1,2) have "1 < n + 1 \<longrightarrow> normal_at (B_of db s') (n + 1) = {#}"
    by (auto simp: drop_post_def cleared_def chain_inv_def one_normal_def)
  with inv now show "sync_mid E db hdr n s'" by (simp add: sync_mid_def)
qed

text \<open>The table after the block has been written.\<close>

lemma write_post_sync:
  assumes w: "write_post E db hdr (Hash cb) s r s'" and mid: "sync_mid E db hdr n s"
    and m: "header_map E hdr" and h: "hdr (Hash cb) = (n + 1, ParentHash cb)"
    and p: "1 < n + 1 \<Longrightarrow> \<exists>p \<in># normal_at (B_of db s) n. F_hash p = ParentHash cb"
  shows "block_now s' = n \<and> chain_inv E hdr (if r = Ret None then n + 1 else n) (B_of db s')"
proof -
  have ws: "writes E hdr (Hash cb) (B_of db s) (B_of db s')" and now: "block_now s' = n"
    using w mid by (auto simp: write_post_def written_def sync_mid_def dest: io_frame_block_now)
  from mid have inv: "chain_inv E hdr n (B_of db s)" by (simp add: sync_mid_def)
  have inv': "chain_inv E hdr n (B_of db s')"
    by (rule writes_chain_inv [OF ws m inv, of "n + 1"]) (use h mid in \<open>auto simp: sync_mid_def\<close>)
  have "chain_inv E hdr (n + 1) (B_of db s')" if "r = Ret None"
  proof -
    obtain b where b: "b \<in># B_of db s'" "F_status b = NORMAL" "col_eq E (F_hash b) (Hash cb)"
      using w \<open>r = Ret None\<close> unfolding write_post_def by blast
    have "hdr (F_hash b) = hdr (Hash cb)" using m b(3) unfolding header_map_def by blast
    then have "b \<in># normal_at (B_of db s') (n + 1)"
      using inv' b h by (simp add: chain_inv_def headers_ok_def normal_at_def)
    moreover have "normal_at (B_of db s') n = normal_at (B_of db s) n"
      by (rule writes_normal_at [OF ws _ m]) (use inv h in \<open>auto simp: chain_inv_def\<close>)
    ultimately show ?thesis
      using chain_inv_extend [OF inv' m _ h, of b] b(3) p by simp
  qed
  with inv' now show ?thesis by simp
qed

context chain_node
begin

lemma header_map: "header_map E hdr"
  unfolding header_map_def using col_refl col_sym col_trans hdr_col by blast

lemma fetch_receipts_wp:
  assumes "sync_mid E db hdr n s"
  shows "wp (fetch_receipts E ts m rcs) (\<lambda>r s'. sync_mid E db hdr n s') s"
  using assms
proof (induction ts arbitrary: m rcs s)
  case (Cons t ts)
  have "sync_mid E db hdr n (s'\<lparr>ext := w\<rparr>)"
    if "GetTransactionReceipt (rpc E) x (ext s') = (r, w)" "sync_mid E db hdr n s'" for r w s' x
    using that by (simp add: sync_mid_ext rpc_receipt_db)
  then show ?case
    using Cons by (auto simp: wp_simps split: prod.splits out.splits sum.splits)
qed simp

text \<open>Fetching the block and its parent, on one chain.\<close>

definition fetched :: "int \<Rightarrow> ChainBlock \<Rightarrow> ChainBlock option \<Rightarrow> bool" where
  "fetched h cb p \<longleftrightarrow> Number cb = h \<and> hdr (Hash cb) = (h, ParentHash cb) \<and>
     (0 < h \<longrightarrow> (\<exists>b. p = Some b \<and> Hash b = ParentHash cb))"

lemma fetch_parent_wp:
  assumes mid: "sync_mid E db hdr n s" and h: "h = n + 1" "0 \<le> h" "h < 2 ^ 63"
    and cb: "GetBlockByNumber (rpc E) h True w = (Ret (Inr cb), w')" and c: "canon (ext s) = canon w'"
  shows "wp (fetch_parent E h) (\<lambda>r s'. sync_mid E db hdr n s' \<and>
    (\<forall>p. r = Ret (Inr p) \<longrightarrow> fetched h cb p)) s"
proof -
  have here: "Number cb = h" "hdr (Hash cb) = (h, ParentHash cb)"
    using block_number [OF cb] block_header [OF cb] by simp_all
  have [simp]: "to_int64 (h - 1) = h - 1" using h by (intro to_int64_id) (simp add: in_int64_def)
  have par: "Hash p = ParentHash cb"
    if "GetBlockByNumber (rpc E) (h - 1) True (ext s) = (Ret (Inr p), w3)" for p w3
    using block_parent [OF cb that c] by simp
  have "sync_mid E db hdr n (s\<lparr>ext := w2\<rparr>)"
    if "GetBlockByNumber (rpc E) (h - 1) True (ext s) = (r, w2)" for r w2
    using rpc_block_db [OF that] mid by (simp add: sync_mid_ext)
  then show ?thesis
    using mid here(2) unfolding fetched_def here(1)
    by (auto simp: fetch_parent_def wp_simps sync_mid_ext par
        split: prod.splits out.splits sum.splits dest: rpc_block_db)
qed

lemma check_parent_wp:
  assumes mid: "sync_mid E db hdr n s" and h: "h = n + 1" "0 \<le> h" "h < 2 ^ 63" and f: "fetched h cb p"
  shows "wp (check_parent E h p) (\<lambda>r s'. if r = Ret None
      then sync_mid E db hdr n s' \<and> (1 < h \<longrightarrow> (\<exists>b \<in># normal_at (B_of db s') n. F_hash b = ParentHash cb))
      else \<forall>r'. r' \<noteq> Ret None \<longrightarrow> sync_post E db hdr n r' s') s"
proof -
  have [simp]: "to_int64 (h - 1) = n" using h by (simp add: in_int64_def)
  have stepback: "sync_post E db hdr n r (s2\<lparr>block_now := to_int64 (block_now s2 - 1)\<rparr>)"
    if "sync_mid E db hdr n s2" "h \<noteq> 0" "r \<noteq> Ret None" for r s2
    using sync_mid_back [OF that(1) _ _ that(3)] that(2) h by simp
  show ?thesis
    unfolding check_parent_def
  proof (rule Mysql_thenI, rule wp_bindI [OF FindBlockByHeight_wp], goal_cases)
    case (1 s1 x s2)
    obtain b err where x: "x = (b, err)" by (cases x)
    from 1 have q: "quiet db s1 s2" "quiet db s s2" by (auto intro: unchanged_quiet quiet_trans)
    have mid2: "sync_mid E db hdr n s2" using quiet_mid [OF q(2) mid] .
    have B: "B_of db s2 = blocks (db (ext s1))" using q(1) by (simp add: quiet_def B_of_def)
    show ?case
    proof (cases err)
      case None
      with 1 x have "b \<in># normal_at (B_of db s2) n" by (simp add: B normal_at_def)
      with None x f h mid2 show ?thesis
        by (auto simp: fetched_def stepback wp_simps intro!: bexI [of _ b] split: option.split)
    next
      case (Some e)
      with 1 x f h mid2 show ?thesis by (auto simp: fetched_def stepback wp_thenE)
    qed
  next
    case (2 s1 p s2)
    then have "quiet db s s2" by (auto intro: unchanged_quiet quiet_trans)
    with quiet_mid [OF _ mid] show ?case by (simp add: sync_mid_post)
  next
    case (3 e s1)
    with quiet_mid [OF _ mid] show ?case by (simp add: sync_mid_post)
  qed
qed

lemma write_all_wp:
  assumes mid: "sync_mid E db hdr n s" and h: "h = n + 1" "0 \<le> h" "h < 2 ^ 63" and f: "fetched h cb p"
    and par: "1 < h \<longrightarrow> (\<exists>b \<in># normal_at (B_of db s) n. F_hash b = ParentHash cb)"
  shows "wp (bindE (WriteBlock E cb ts rcs) (\<lambda>err.
      case err of Some e \<Rightarrow> ret (Some e) | None \<Rightarrow> WriteTransactions E cb ts rcs)) (sync_post E db hdr n) s"
proof -
  have hd: "hdr (Hash cb) = (to_int64 (Number cb), ParentHash cb)" "hdr (Hash cb) = (n + 1, ParentHash cb)"
    using f h by (simp_all add: fetched_def in_int64_def)
  have ids: "unique_ids (B_of db s)" using mid by (simp add: sync_mid_def chain_inv_def)
  have ws: "block_now s1 = n \<and> chain_inv E hdr (if r = Ret None then n + 1 else n) (B_of db s1)"
    if "write_post E db hdr (Hash cb) s r s1" for r s1
    by (rule write_post_sync [OF that mid header_map hd(2)]) (use par h in auto)
  have fin: "sync_post E db hdr n r s2"
    if "write_post E db hdr (Hash cb) s (Ret None) s1" "same_blocks db s1 s2" for r s1 s2
    using ws [OF that(1)] io_frame_block_now [OF same_blocks_io [OF that(2)]] same_blocks_B [OF that(2)]
    by (auto simp: sync_post_def intro: chain_inv_mono)
  show ?thesis
  proof (rule wp_bindI [OF WriteBlock_wp [of s hdr cb, OF ids hd(1)]], goal_cases)
    case (1 err s1)
    show ?case
    proof (cases err)
      case None
      with 1 show ?thesis
        by (auto simp: WriteTransactions_def intro!: wp_mono [OF write_txs_wp] intro: fin)
    qed (use ws [OF 1] in \<open>simp add: sync_post_def\<close>)
  qed (auto simp: sync_post_def dest: ws)
qed

lemma copy_rest_wp:
  assumes mid: "sync_mid E db hdr n s" and h: "h = n + 1" "0 \<le> h" "h < 2 ^ 63" and f: "fetched h cb p"
  shows "wp (bindE (fetch_receipts E (Transactions cb) [] []) (\<lambda>r.
     case r of Inl e \<Rightarrow> ret (Some e) | Inr (transactions, receipts) \<Rightarrow>
     bindE (check_parent E h p) (\<lambda>err.
     case err of Some e \<Rightarrow> ret (Some e) | None \<Rightarrow>
     bindE (WriteBlock E cb transactions receipts) (\<lambda>err.
     case err of Some e \<Rightarrow> ret (Some e) | None \<Rightarrow>
     WriteTransactions E cb transactions receipts)))) (sync_post E db hdr n) s"
proof (rule wp_bindI [OF fetch_receipts_wp [OF mid]], goal_cases)
  case (1 r s1)
  show ?case
  proof (cases r)
    case (Inl e)
    with 1 show ?thesis by (simp add: sync_mid_post)
  next
    case (Inr x)
    obtain ts rcs where x: "x = (ts, rcs)" by (cases x)
    have "wp (bindE (check_parent E h p) (\<lambda>err. case err of Some e \<Rightarrow> ret (Some e) | None \<Rightarrow>
       bindE (WriteBlock E cb ts rcs) (\<lambda>err. case err of Some e \<Rightarrow> ret (Some e) | None \<Rightarrow>
       WriteTransactions E cb ts rcs))) (sync_post E db hdr n) s1"
      by (rule wp_bindI [OF check_parent_wp [OF 1 h f]])
        (auto split: option.splits if_splits intro!: write_all_wp [OF _ h f])
    then show ?thesis by (simp add: Inr x)
  qed
qed (simp add: sync_mid_post)

lemma copy_fetched_wp:
  assumes mid: "sync_mid E db hdr n s" and h: "h = n + 1" "0 \<le> h" "h < 2 ^ 63"
  shows "wp (bindE (callE (GetBlockByNumber (rpc E) h True)) (\<lambda>r.
     case r of Inl e \<Rightarrow> ret (Some e) | Inr chain_block \<Rightarrow>
     thenE (modifyE (\<lambda>s. s\<lparr>GLastBlock := Some chain_block\<rparr>))
    (bindE (fetch_parent E h) (\<lambda>r.
     case r of Inl e \<Rightarrow> ret (Some e) | Inr chain_parent_block \<Rightarrow>
     bindE (fetch_receipts E (Transactions chain_block) [] []) (\<lambda>r.
     case r of Inl e \<Rightarrow> ret (Some e) | Inr (transactions, receipts) \<Rightarrow>
     bindE (check_parent E h chain_parent_block) (\<lambda>err.
     case err of Some e \<Rightarrow> ret (Some e) | None \<Rightarrow>
     bindE (WriteBlock E chain_block transactions receipts) (\<lambda>err.
     case err of Some e \<Rightarrow> ret (Some e) | None \<Rightarrow>
     WriteTransactions E chain_block transactions receipts))))))) (sync_post E db hdr n) s"
  (is "wp (bindE _ ?k) _ _")
proof (rule wp_bindI [of _ "\<lambda>r s'. sync_mid E db hdr n s' \<and>
    GetBlockByNumber (rpc E) h True (ext s) = (r, ext s')"], goal_cases)
  case 1
  show ?case
    using mid by (auto simp: wp_callE sync_mid_ext dest: rpc_block_db split: prod.splits)
next
  case (2 r s1)
  show ?case
  proof (cases r)
    case (Inl e)
    with 2 show ?thesis by (simp add: sync_mid_post)
  next
    case (Inr cb)
    let ?s = "s1\<lparr>GLastBlock := Some cb\<rparr>"
    have cb: "GetBlockByNumber (rpc E) h True (ext s) = (Ret (Inr cb), ext s1)" using 2 Inr by simp
    have mid': "sync_mid E db hdr n ?s" using 2 by simp
    have "wp (bindE (fetch_parent E h) (\<lambda>r.
       case r of Inl e \<Rightarrow> ret (Some e) | Inr chain_parent_block \<Rightarrow>
       bindE (fetch_receipts E (Transactions cb) [] []) (\<lambda>r.
       case r of Inl e \<Rightarrow> ret (Some e) | Inr (transactions, receipts) \<Rightarrow>
       bindE (check_parent E h chain_parent_block) (\<lambda>err.
       case err of Some e \<Rightarrow> ret (Some e) | None \<Rightarrow>
       bindE (WriteBlock E cb transactions receipts) (\<lambda>err.
       case err of Some e \<Rightarrow> ret (Some e) | None \<Rightarrow>
       WriteTransactions E cb transactions receipts))))) (sync_post E db hdr n) ?s"
      by (rule wp_bindI [OF fetch_parent_wp [OF mid' h cb]])
        (auto split: sum.split intro!: sync_mid_post copy_rest_wp [OF _ h])
    then show ?thesis by (simp add: Inr wp_thenE)
  qed
qed (simp add: sync_mid_post)

lemma SyncOneBlock_wp:
  assumes inv: "chain_inv E hdr n (B_of db s)" and n: "block_now s = n" and h: "0 \<le> n + 1" "n + 1 < 2 ^ 63"
  shows "wp (SyncOneBlock E (n + 1)) (sync_post E db hdr n) s"
  unfolding SyncOneBlock_def
proof (rule wp_bindI [OF DropBlok_wp], goal_cases)
  case 1
  show ?case using inv by (simp add: chain_inv_def)
next
  case (2 err s1)
  show ?case
  proof (cases err)
    case None
    with drop_post_sync(2) [OF 2 inv n] have mid: "sync_mid E db hdr n s1" by simp
    show ?thesis unfolding None option.case
      by (rule wp_thenI [OF Web3_quiet [of db]]) (auto intro!: copy_fetched_wp quiet_mid [OF _ mid] h)
  qed (use drop_post_sync(1) [OF 2 inv n] in simp)
next
  case (3 p s1)
  with drop_post_sync(1) [OF 3 inv n] show ?case by simp
qed

end

end
