(* ===== verification/Sync_Loop.thy ===== *)
theory Sync_Loop
  imports Sync_Proof
begin

text \<open>
  \<^verbatim>\<open>StartSyncLastBlock\<close> of \<^verbatim>\<open>src/src/sync/sync.go\<close>: the endless loop that follows the chain, as a machine
  whose step is one round of the polling loop or one round of the inner copying loop. A panic that
  \<^const>\<open>PanicRecover\<close> stops ends the goroutine, and the outer loop starts a new one, which polls again; any
  other panic ends the process. The sleeps are not modelled. Rule induction over the reachable states
  shows that the invariant of the copied chain holds at every moment.
\<close>

section \<open>The rounds\<close>

text \<open>Where the goroutine is: at the head of the polling loop, in the inner loop towards a height, or gone.\<close>

datatype pc = Poll | Catchup int64 | Exited | Crashed

definition poll_round :: "'w env \<Rightarrow> ('w st, pc) eff" where
  "poll_round E =
     thenE Web3
    (bindE (callE (GetBlockNumber (rpc E))) (\<lambda>r.
     case r of
       Inl e \<Rightarrow> ret Poll
     | Inr blockNumber \<Rightarrow>
         bindE GetBlockNOw (\<lambda>block_now.
         if to_int64 blockNumber < block_now then
           thenE (AddBlockNow (-1))
          (bindE GetBlockNOw (\<lambda>height.
           thenE (DropBlok E height) (ret Poll)))
         else ret (Catchup (to_int64 blockNumber)))))"

definition catchup_round :: "'w env \<Rightarrow> int64 \<Rightarrow> ('w st, pc) eff" where
  "catchup_round E blockNumber =
     bindE GetBlockNOw (\<lambda>block_now.
     if blockNumber > block_now then
       bindE (SyncOneBlock E (to_int64 (block_now + 1))) (\<lambda>err.
       case err of
         Some e \<Rightarrow> ret (Catchup blockNumber)
       | None \<Rightarrow> thenE (AddBlockNow 1) (ret (Catchup blockNumber)))
     else ret Poll)"

text \<open>What happens to the goroutine when a round ends: \<^verbatim>\<open>defer c.PanicRecover()\<close> and the outer loop.\<close>

fun after_round :: "pc out \<Rightarrow> pc" where
  "after_round (Ret p) = p"
| "after_round (Panic p) = (if kind_string p then Poll else Crashed)"

fun sync_step :: "'w env \<Rightarrow> pc \<times> 'w st \<Rightarrow> pc \<times> 'w st" where
  "sync_step E (Poll, s) = (case poll_round E s of (r, s') \<Rightarrow> (after_round r, s'))"
| "sync_step E (Catchup n, s) = (case catchup_round E n s of (r, s') \<Rightarrow> (after_round r, s'))"
| "sync_step E (Exited, s) = (Exited, s)"
| "sync_step E (Crashed, s) = (Crashed, s)"

text \<open>The part before the loop: the height to start from is the one below the highest stored block.\<close>

definition start_sync :: "'w env \<Rightarrow> ('w st, pc) eff" where
  "start_sync E =
     thenE (Mysql E)
    (bindE (GetMaxBlocNumber E) (\<lambda>(max_block, err).
     if err \<noteq> None \<and> err \<noteq> Some DATA_NOT_EXIST then ret Exited
     else thenE (SetBlockNow (to_int64 (max_block - 1))) (ret Poll)))"

text \<open>A panic before the loop is not recovered: \<^verbatim>\<open>Close\<close> is the only deferred call.\<close>

definition StartSyncLastBlock :: "'w env \<Rightarrow> 'w st \<Rightarrow> pc \<times> 'w st" where
  "StartSyncLastBlock E s =
     (case start_sync E s of (Ret p, s') \<Rightarrow> (p, s') | (Panic p, s') \<Rightarrow> (Crashed, s'))"

text \<open>Between two steps the handlers of the HTTP interface run; they change the outside, their own fields
  and nothing of the blocks and transactions; neither does the recount of the rewards.\<close>

definition handler_frame :: "('w \<Rightarrow> dbst) \<Rightarrow> 'w st \<Rightarrow> 'w st \<Rightarrow> bool" where
  "handler_frame db s s' \<longleftrightarrow> block_now s' = block_now s \<and> B_of db s' = B_of db s \<and>
     txs (db (ext s')) = txs (db (ext s))"

inductive reachable :: "'w env \<Rightarrow> ('w \<Rightarrow> dbst) \<Rightarrow> 'w st \<Rightarrow> pc \<Rightarrow> 'w st \<Rightarrow> bool"
  for E db s0 where
  start: "StartSyncLastBlock E s0 = (p, s) \<Longrightarrow> reachable E db s0 p s"
| sync: "reachable E db s0 p s \<Longrightarrow> sync_step E (p, s) = (p', s') \<Longrightarrow> reachable E db s0 p' s'"
| handler: "reachable E db s0 p s \<Longrightarrow> handler_frame db s s' \<Longrightarrow> reachable E db s0 p s'"

inductive_cases reachable_Catchup: "reachable E db s0 (Catchup n) s"
inductive_simps reachable_Exited: "reachable E db s0 Exited s"

section \<open>The invariant\<close>

definition sync_inv :: "'w env \<Rightarrow> ('w \<Rightarrow> dbst) \<Rightarrow> header \<Rightarrow> 'w st \<Rightarrow> bool" where
  "sync_inv E db hdr s \<longleftrightarrow> -1 \<le> block_now s \<and> block_now s < 2 ^ 63 \<and> chain_inv E hdr (block_now s) (B_of db s)"

lemma sync_postD:
  assumes "sync_post E db hdr n r s" and "-1 \<le> n" and "n + 1 < 2 ^ 63"
  shows "sync_inv E db hdr s"
    and "r = Ret None \<Longrightarrow> block_now s = n \<and> sync_inv E db hdr (s\<lparr>block_now := n + 1\<rparr>)"
  using assms by (auto simp: sync_post_def sync_inv_def B_of_def intro: chain_inv_mono split: if_splits)

lemma sync_inv_frame: "handler_frame db s s' \<Longrightarrow> sync_inv E db hdr s \<Longrightarrow> sync_inv E db hdr s'"
  by (simp add: handler_frame_def sync_inv_def)

lemma sync_inv_quiet: "quiet db s s' \<Longrightarrow> sync_inv E db hdr s \<Longrightarrow> sync_inv E db hdr s'"
  by (rule sync_inv_frame [of db s s']) (simp_all add: handler_frame_def B_of_def quiet_fields)

text \<open>The initial state: \<^verbatim>\<open>block_now\<close> is set from the table, whose chain has to be sound below its top.\<close>

definition top_block :: "Block multiset \<Rightarrow> int" where
  "top_block B = (let M = {# b \<in># B. F_status b = NORMAL #} in
     if M = {#} then 0 else Max (F_block ` set_mset M))"

definition start_ok :: "'w env \<Rightarrow> ('w \<Rightarrow> dbst) \<Rightarrow> header \<Rightarrow> 'w st \<Rightarrow> bool" where
  "start_ok E db hdr s \<longleftrightarrow> 0 \<le> top_block (B_of db s) \<and> top_block (B_of db s) < 2 ^ 63 \<and>
     chain_inv E hdr (top_block (B_of db s) - 1) (B_of db s)"

context gorm_db
begin

lemma GetMaxBlocNumber_wp:
  "wp (GetMaxBlocNumber E) (\<lambda>r s'. unchanged db s s' \<and>
     (case r of
        Ret (m, None) \<Rightarrow> m = top_block (B_of db s)
      | Ret (m, Some e) \<Rightarrow> False
      | Panic p \<Rightarrow> (\<exists>e. p = PStr e))) s"
  by (auto simp: GetMaxBlocNumber_def wp_simps unchanged_def blk_max_frame top_block_def Let_def B_of_def
      split: prod.splits qres.splits option.splits if_splits dest!: blk.max_rows simp: blk.max_found)

end

context chain_node
begin

lemma start_sync_wp:
  assumes "start_ok E db hdr s"
  shows "wp (start_sync E) (\<lambda>r s'. case r of Ret p \<Rightarrow> p = Poll \<and> sync_inv E db hdr s'
      | Panic p \<Rightarrow> B_of db s' = B_of db s) s"
  unfolding start_sync_def
proof (rule Mysql_thenI, rule wp_bindI [OF GetMaxBlocNumber_wp], goal_cases)
  case (1 s1 x s2)
  obtain m err where x: "x = (m, err)" by (cases x)
  from 1 have B: "B_of db s1 = B_of db s" "B_of db s2 = B_of db s"
    by (simp_all add: quiet_def unchanged_def B_of_def)
  have m: "0 \<le> m" "m < 2 ^ 63" "m \<le> top_block (B_of db s)"
    using 1 x assms B by (auto simp: start_ok_def split: option.splits)
  then have "sync_inv E db hdr (s2\<lparr>block_now := to_int64 (m - 1)\<rparr>)"
    using assms B by (auto simp: sync_inv_def start_ok_def in_int64_def B_of_def intro: chain_inv_mono)
  with 1 x show ?case by (auto simp: wp_thenE split: option.splits)
qed (auto simp: B_of_def quiet_def unchanged_def)

text \<open>What a round keeps: the invariant, and the height to catch up with is one the node reported.\<close>

definition round_post :: "pc out \<Rightarrow> 'w st \<Rightarrow> bool" where
  "round_post r s \<longleftrightarrow> sync_inv E db hdr s \<and> (\<forall>n. r = Ret (Catchup n) \<longrightarrow> n < 2 ^ 63)"

lemma regress_wp:
  assumes inv: "sync_inv E db hdr s" and pos: "0 < block_now s"
  shows "wp (thenE (AddBlockNow (-1)) (bindE GetBlockNOw (\<lambda>height. thenE (DropBlok E height) (ret Poll))))
    round_post s"
proof -
  let ?s = "s\<lparr>block_now := block_now s - 1\<rparr>"
  have dec: "to_int64 (block_now s - 1) = block_now s - 1"
    using inv pos by (intro to_int64_id) (simp add: sync_inv_def in_int64_def)
  have inv': "chain_inv E hdr (block_now s - 1) (B_of db ?s)"
    using inv by (auto simp: sync_inv_def B_of_def intro: chain_inv_mono)
  then have ids: "unique_ids (B_of db ?s)" by (simp add: chain_inv_def)
  have "sync_inv E db hdr s'" if "drop_post db (block_now s - 1) ?s r s'" for r s'
    using that drops_chain_inv [OF _ inv'] pos inv
    by (auto simp: drop_post_def dropped_def sync_inv_def dest!: io_frame_block_now)
  then have "wp (thenE (DropBlok E (block_now s - 1)) (ret Poll)) round_post ?s"
    by (intro wp_thenI [OF DropBlok_wp [OF ids]]) (auto simp: round_post_def)
  with dec show ?thesis by (simp add: wp_thenE [of "AddBlockNow (-1)"] wp_bindE [of GetBlockNOw])
qed

lemma poll_number_wp:
  assumes "sync_inv E db hdr s"
  shows "wp (callE (GetBlockNumber (rpc E))) (\<lambda>r s'. sync_inv E db hdr s' \<and>
    (\<forall>n. r = Ret (Inr n) \<longrightarrow> to_int64 n = n \<and> 0 \<le> n \<and> n < 2 ^ 63)) s"
  using assms by (auto simp: wp_callE sync_inv_def B_of_def in_int64_def split: prod.split
      dest: rpc_number_db number_range)

lemma poll_round_wp:
  assumes "sync_inv E db hdr s"
  shows "wp (poll_round E) round_post s"
  unfolding poll_round_def
proof (rule wp_thenI [OF Web3_quiet [of db]], rule wp_bindI [OF poll_number_wp], goal_cases)
  case (1 a s1)
  with assms show ?case by (auto intro: sync_inv_quiet)
next
  case (2 a s1 r s2)
  show ?case
  proof (cases r)
    case (Inr n)
    with 2 have n: "to_int64 n = n" "0 \<le> n" "n < 2 ^ 63" and inv: "sync_inv E db hdr s2" by auto
    show ?thesis
      using regress_wp [OF inv] n inv
      by (auto simp: Inr wp_bindE [of GetBlockNOw "\<lambda>b. if n < b then _ b else _ b"] round_post_def)
  qed (use 2 in \<open>auto simp: round_post_def\<close>)
qed (auto simp: round_post_def)

lemma catchup_round_wp:
  assumes inv: "sync_inv E db hdr s" and n: "n < 2 ^ 63"
  shows "wp (catchup_round E n) round_post s"
proof (cases "block_now s < n")
  case True
  let ?b = "block_now s"
  have b: "-1 \<le> ?b" "?b + 1 < 2 ^ 63" "0 \<le> ?b + 1" "to_int64 (?b + 1) = ?b + 1"
    using inv True n by (simp_all add: sync_inv_def in_int64_def)
  have "wp (bindE (SyncOneBlock E (?b + 1)) (\<lambda>err. case err of
       Some e \<Rightarrow> ret (Catchup n) | None \<Rightarrow> thenE (AddBlockNow 1) (ret (Catchup n)))) round_post s"
  proof (rule wp_bindI [OF SyncOneBlock_wp [OF _ refl b(3,2)]], goal_cases)
    case 1
    with inv show ?case by (simp add: sync_inv_def)
  next
    case (2 err s1)
    with sync_postD [OF 2 b(1,2)] b n show ?case
      by (auto simp: round_post_def wp_thenE split: option.split)
  next
    case (3 p s1)
    with sync_postD(1) [OF 3 b(1,2)] show ?case by (simp add: round_post_def)
  qed
  with True b show ?thesis by (simp add: catchup_round_def wp_bindE [of GetBlockNOw])
next
  case False
  with inv show ?thesis by (simp add: catchup_round_def round_post_def wp_bindE)
qed

text \<open>A step of the machine, and rule induction over the reachable states. A process that dies before the
  loop leaves the table as it was.\<close>

definition machine_ok :: "'w st \<Rightarrow> pc \<Rightarrow> 'w st \<Rightarrow> bool" where
  "machine_ok s0 p s \<longleftrightarrow> p \<noteq> Exited \<and> (\<forall>n. p = Catchup n \<longrightarrow> n < 2 ^ 63) \<and>
     (sync_inv E db hdr s \<or> p = Crashed \<and> B_of db s = B_of db s0)"

lemma after_round_ok:
  assumes "wp m round_post s" and "m s = (r, s')" and "r \<noteq> Ret Exited"
  shows "machine_ok s0 (after_round r) s'"
  using assms wpD [OF assms(1,2)] by (cases r) (auto simp: machine_ok_def round_post_def)

lemma rounds_not_Exited:
  "wp (poll_round E) (\<lambda>r s'. r \<noteq> Ret Exited) s" "wp (catchup_round E n) (\<lambda>r s'. r \<noteq> Ret Exited) s"
proof -
  have *: "wp m (\<lambda>r s'. True) s" for m :: "('w st, 'a) eff" and s by (simp add: wp_def)
  show "wp (poll_round E) (\<lambda>r s'. r \<noteq> Ret Exited) s"
    unfolding poll_round_def
    by (rule wp_thenI [OF *] wp_bindI [OF *] | auto split: sum.split)+
  show "wp (catchup_round E n) (\<lambda>r s'. r \<noteq> Ret Exited) s"
    unfolding catchup_round_def
    by (rule wp_thenI [OF *] wp_bindI [OF *] | auto split: option.split)+
qed

lemma sync_step_ok:
  assumes "machine_ok s0 p s" and "sync_step E (p, s) = (p', s')"
  shows "machine_ok s0 p' s'"
proof (cases p)
  case Poll
  obtain r where r: "poll_round E s = (r, s')" "p' = after_round r"
    using assms(2) Poll by (auto split: prod.splits)
  from assms(1) Poll have "sync_inv E db hdr s" by (simp add: machine_ok_def)
  from after_round_ok [OF poll_round_wp [OF this] r(1)] show ?thesis
    using wpD [OF rounds_not_Exited(1) r(1)] by (simp add: r(2))
next
  case (Catchup n)
  obtain r where r: "catchup_round E n s = (r, s')" "p' = after_round r"
    using assms(2) Catchup by (auto split: prod.splits)
  from assms(1) Catchup have "sync_inv E db hdr s" "n < 2 ^ 63" by (simp_all add: machine_ok_def)
  from after_round_ok [OF catchup_round_wp [OF this] r(1)] show ?thesis
    using wpD [OF rounds_not_Exited(2) r(1)] by (simp add: r(2))
qed (use assms in auto)

lemma reachable_ok:
  assumes "reachable E db s0 p s" and "start_ok E db hdr s0"
  shows "machine_ok s0 p s"
  using assms
proof (induction rule: reachable.induct)
  case (start p s)
  obtain r where r: "start_sync E s0 = (r, s)" "p = (case r of Ret p \<Rightarrow> p | Panic x \<Rightarrow> Crashed)"
    using start(1) by (auto simp: StartSyncLastBlock_def split: prod.splits out.splits)
  from wpD [OF start_sync_wp [OF start(2)] r(1)] show ?case
    by (auto simp: r(2) machine_ok_def split: out.splits)
next
  case (sync p s p' s')
  then show ?case by (blast intro: sync_step_ok)
next
  case (handler p s s')
  then show ?case
    by (auto simp: machine_ok_def intro: sync_inv_frame) (simp add: handler_frame_def)
qed

end

end
