(* ===== verification/Table_Store.thy ===== *)
theory Table_Store
  imports Sync_Loop
begin

text \<open>
  A database and a chain node in memory, on which the interfaces of \<open>Store_Spec\<close> are interpreted: rows
  as lists in the order of their ids, the primary and unique keys of \<^verbatim>\<open>src/src/model/create_table.go\<close>,
  case-insensitive collation (the default one of \<^verbatim>\<open>utf8\<close>), a snapshot for the transaction that is open,
  and a node that serves a chain it has validated. Every statement about a database or a node in general
  is witnessed on them. The text of the tables' definitions is in the first section.
\<close>

section \<open>The tables of the schema\<close>

record column =
  c_name :: string
  c_type :: string
  c_default :: "string option"
  c_auto :: bool

record table_def =
  t_name :: string
  t_columns :: "column list"
  t_unique :: string
  t_index :: "string list"

definition col :: "string \<Rightarrow> string \<Rightarrow> string \<Rightarrow> column" where
  "col n ty d = \<lparr>c_name = n, c_type = ty, c_default = Some d, c_auto = False\<rparr>"

definition id_col :: column where
  "id_col = \<lparr>c_name = ''F_id'', c_type = ''bigint(20) unsigned'', c_default = None, c_auto = True\<rparr>"

definition time_cols :: "column list" where
  "time_cols = map (\<lambda>n. \<lparr>c_name = n, c_type = ''datetime'', c_default = None, c_auto = False\<rparr>)
     [''F_create_time'', ''F_modify_time'']"

definition text_col :: "string \<Rightarrow> column" where
  "text_col n = col n ''varchar(128)'' (CHR 39 # CHR 39 # [])"

definition Table :: "table_def list" where
  "Table =
    [\<lparr>t_name = ''t_transaction'',
      t_columns = [id_col, text_col ''F_tx_hash'', col ''F_block'' ''int(64) '' ''-1'',
        col ''F_timestamp'' ''bigint unsigned  '' ''0'', text_col ''F_from'', text_col ''F_to'',
        text_col ''F_value'', text_col ''F_tx_fee'', col ''F_status'' ''int(4) '' ''0'',
        col ''F_tx_type'' ''bigint(20) '' ''0'', text_col ''F_tx_type_ext''] @ time_cols,
      t_unique = ''F_tx_hash'', t_index = [''F_from'', ''F_to'', ''F_block'']\<rparr>,
     \<lparr>t_name = ''t_pending'',
      t_columns = [id_col, text_col ''F_tx_hash'', text_col ''F_from'', text_col ''F_to'',
        text_col ''F_value'', text_col ''F_tx_fee'', col ''F_status'' ''int(4) '' ''0''] @ time_cols,
      t_unique = ''F_tx_hash'', t_index = [''F_from'', ''F_to'']\<rparr>,
     \<lparr>t_name = ''t_block'',
      t_columns = [id_col, col ''F_block'' ''int(64) '' ''-1'', col ''F_timestamp'' ''bigint unsigned  '' ''0'',
        col ''F_txn'' ''int(64) '' ''-1'', text_col ''F_miner'', text_col ''F_gas_used'',
        text_col ''F_gas_limit'', text_col ''F_hash'', text_col ''F_parent_hash'', text_col ''F_reward'',
        text_col ''F_fees'', col ''F_status'' ''int(4) '' ''0''] @ time_cols,
      t_unique = ''F_hash'', t_index = [''F_miner'', ''F_block'']\<rparr>,
     \<lparr>t_name = ''t_miner_reward'',
      t_columns = [id_col, text_col ''F_miner'', text_col ''F_total_reward'', text_col ''F_total_fees''] @ time_cols,
      t_unique = ''F_miner'', t_index = []\<rparr>,
     \<lparr>t_name = ''t_rate'',
      t_columns = [id_col, col ''F_eth'' ''double '' ''0'', col ''F_btc'' ''double '' ''0'',
        col ''F_usd'' ''double '' ''0'', col ''F_kwr'' ''double '' ''0'',
        col ''F_timestamp'' ''bigint unsigned '' ''0''] @ time_cols,
      t_unique = ''F_timestamp'', t_index = []\<rparr>]"

text \<open>The statement text; a column name stands between back quotes.\<close>

definition quoted :: "string \<Rightarrow> string" where
  "quoted n = CHR 96 # n @ [CHR 96]"

definition column_text :: "column \<Rightarrow> string" where
  "column_text c = quoted (c_name c) @ '' '' @ c_type c @ '' NOT NULL'' @
     (if c_auto c then '' AUTO_INCREMENT''
      else case c_default c of None \<Rightarrow> [] | Some d \<Rightarrow> '' DEFAULT '' @ d) @ '',''"

fun index_text :: "string list \<Rightarrow> string" where
  "index_text [] = []"
| "index_text (i # is) = '',INDEX ('' @ quoted i @ '')'' @ index_text is"

definition create_text :: "string \<Rightarrow> table_def \<Rightarrow> string" where
  "create_text Schema t =
     ''CREATE TABLE IF NOT EXISTS '' @ Schema @ ''.'' @ t_name t @ '' ('' @
     concat (map column_text (t_columns t)) @
     ''PRIMARY KEY ('' @ quoted ''F_id'' @ ''),UNIQUE KEY ('' @ quoted (t_unique t) @ '')'' @
     index_text (t_index t) @ '') ENGINE=InnoDB  DEFAULT CHARSET=utf8 ;''"

text \<open>\<^verbatim>\<open>InitDatabase\<close> runs every statement, in the order in which Go ranges over the map, and ignores the results.\<close>

definition InitDatabase ::
  "'w env \<Rightarrow> (string \<Rightarrow> 'w \<Rightarrow> 'w) \<Rightarrow> (table_def list \<Rightarrow> table_def list) \<Rightarrow> string \<Rightarrow> ('w st, unit) eff" where
  "InitDatabase E exec ord Schema =
     bindE (call (mysql_open E)) (\<lambda>err.
     case err of
       Some e \<Rightarrow> panicE (PStr ''connect mysql failed'')
     | None \<Rightarrow> modifyE (\<lambda>s. s\<lparr>ext := fold (exec \<circ> create_text Schema) (ord Table) (ext s)\<rparr>))"

section \<open>One table in memory\<close>

definition fresh_id :: "('r \<Rightarrow> int) \<Rightarrow> 'r list \<Rightarrow> int" where
  "fresh_id rid xs = fold max (map rid xs) 0 + 1"

definition mem_table ::
  "('w \<Rightarrow> 'r list) \<Rightarrow> ('r list \<Rightarrow> 'w \<Rightarrow> 'w) \<Rightarrow> ('r \<Rightarrow> int) \<Rightarrow> (int \<Rightarrow> 'r \<Rightarrow> 'r) \<Rightarrow> ('r \<Rightarrow> 'r \<Rightarrow> bool) \<Rightarrow>
     ('w, 'r) table_api" where
  "mem_table rd wr rid set_rid same_key = \<lparr>
     tbl_first = (\<lambda>P w. (case filter P (rd w) of [] \<Rightarrow> QNotFound | r # _ \<Rightarrow> QOk r, w)),
     tbl_find = (\<lambda>P ord pg w.
       (QOk (let xs = filter P (rd w);
                 ys = (case ord of None \<Rightarrow> xs | Some k \<Rightarrow> sort_key (\<lambda>r. - k r) xs)
             in case pg of None \<Rightarrow> ys | Some (off, n) \<Rightarrow> page off n ys), w)),
     tbl_count = (\<lambda>P w. (QOk (int (length (filter P (rd w)))), w)),
     tbl_max = (\<lambda>P k w. (QOk (case map k (filter P (rd w)) of [] \<Rightarrow> None | x # xs \<Rightarrow> Some (fold max xs x)), w)),
     tbl_create = (\<lambda>r w.
       let i = (if rid r = 0 then fresh_id rid (rd w) else rid r) in
       if (\<exists>r' \<in> set (rd w). rid r' = i \<or> same_key r' r)
       then (Some ''Error 1062: Duplicate entry'', w)
       else (None, wr (rd w @ [set_rid i r]) w)),
     tbl_update = (\<lambda>P f w. (None, wr (map (\<lambda>r. if P r then f r else r) (rd w)) w))\<rparr>"

lemma fold_max_ge: "(x::int) \<le> fold max xs x"
proof (induction xs arbitrary: x)
  case (Cons a xs)
  from Cons [of "max a x"] show ?case by simp
qed simp

lemma fold_max_mem: "(y::int) \<in> set xs \<Longrightarrow> y \<le> fold max xs x"
proof (induction xs arbitrary: x)
  case (Cons a xs)
  then show ?case
    using fold_max_ge [of "max a x" xs] by auto
qed simp

lemma fresh_id_new: "fresh_id rid xs \<noteq> 0" "r \<in> set xs \<Longrightarrow> rid r \<noteq> fresh_id rid xs"
  using fold_max_ge [of 0 "map rid xs"] fold_max_mem [of "rid r" "map rid xs" 0]
  by (auto simp: fresh_id_def)

lemma fold_max_Max: "fold max xs x = Max (set (x # xs))" for x :: int
  using Max.set_eq_fold [of x xs] by simp

lemma mem_max:
  "(case map k (filter P xs) of [] \<Rightarrow> None | x # xs \<Rightarrow> Some (fold max xs x)) =
     (if filter_mset P (mset xs) = {#} then None
      else Some (Max (k ` set_mset (filter_mset P (mset xs)))))" for k :: "'r \<Rightarrow> int"
proof (cases "filter P xs")
  case (Cons y ys)
  then have "filter_mset P (mset xs) = mset (y # ys)" by (metis mset_filter)
  then show ?thesis by (simp add: Cons fold_max_Max)
qed (metis list.map_disc_iff list.simps(4) mset_filter mset_zero_iff)

lemma sorted_wrt_sort_desc: "sorted_wrt (\<lambda>a b. k b \<le> k a) (sort_key (\<lambda>r. - k r) xs)" for k :: "'r \<Rightarrow> int"
  using sorted_sort_key [of "\<lambda>r. - k r" xs] by (simp add: sorted_wrt_map)

lemma mem_table_laws:
  assumes "\<And>xs w. rd (wr xs w) = xs" and "\<And>xs w. rest (wr xs w) = rest w" and "\<And>xs w. snap (wr xs w) = snap w"
  shows "sql_table (mem_table rd wr rid set_rid same_key) (\<lambda>w. mset (rd w)) rest snap rid set_rid same_key"
proof (unfold_locales, goal_cases)
  case (1 P w r w')
  then obtain rs where "filter P (rd w) = r # rs" by (auto simp: mem_table_def split: list.splits)
  then have "r \<in> set (filter P (rd w))" by simp
  then show ?case by simp
next
  case (2 P w w' r)
  then show ?case by (auto simp: mem_table_def filter_empty_conv split: list.splits)
next
  case (4 P ord w rs w')
  then show ?case by (auto simp: mem_table_def Let_def split: option.splits)
next
  case (5 P k off n w rs w')
  then show ?case
    by (intro exI [of _ "sort_key (\<lambda>r. - k r) (filter P (rd w))"])
      (auto simp: mem_table_def Let_def sorted_wrt_sort_desc)
next
  case (8 P w c w')
  then show ?case by (auto simp: mem_table_def) (metis mset_filter size_mset)
next
  case (10 P k w m w')
  then show ?case by (auto simp: mem_table_def mem_max simp del: filter_mset_eq_mempty_iff)
next
  case (13 r w w')
  then show ?case
    by (intro exI [of _ "if rid r = 0 then fresh_id rid (rd w) else rid r"])
      (auto simp: mem_table_def Let_def assms fresh_id_new split: if_splits)
next
  case (15 P f w w')
  then show ?case by (auto simp: mem_table_def assms)
qed (auto simp: mem_table_def Let_def assms split: if_splits)

section \<open>The database\<close>

record mem =
  mem_blocks :: "Block list"
  mem_txs :: "Transaction list"
  mem_rewards :: "MinerReward list"

text \<open>The world: the tables, the snapshot of the open transaction, a clock, and the state of the node.\<close>

record 'n mem_world =
  m_now :: mem
  m_snap :: mem
  m_clock :: int
  m_node :: 'n

definition mem_dbst :: "mem \<Rightarrow> dbst" where
  "mem_dbst m = \<lparr>blocks = mset (mem_blocks m), txs = mset (mem_txs m), rewards = mset (mem_rewards m)\<rparr>"

definition mem_db :: "'n mem_world \<Rightarrow> dbst" where
  "mem_db w = mem_dbst (m_now w)"

definition mem_snap :: "'n mem_world \<Rightarrow> dbst" where
  "mem_snap w = mem_dbst (m_snap w)"

definition ci_eq :: "string \<Rightarrow> string \<Rightarrow> bool" where
  "ci_eq a b \<longleftrightarrow> ToLower a = ToLower b"

definition mem_env :: "'n mem_world rpc_api \<Rightarrow> 'n mem_world env" where
  "mem_env R = \<lparr>
     col_eq = ci_eq,
     t_block = mem_table (\<lambda>w. mem_blocks (m_now w)) (\<lambda>xs w. w\<lparr>m_now := (m_now w)\<lparr>mem_blocks := xs\<rparr>\<rparr>)
       F_id (\<lambda>i r. r\<lparr>F_id := i\<rparr>) (\<lambda>a b. ci_eq (F_hash a) (F_hash b)),
     t_transaction = mem_table (\<lambda>w. mem_txs (m_now w)) (\<lambda>xs w. w\<lparr>m_now := (m_now w)\<lparr>mem_txs := xs\<rparr>\<rparr>)
       F_id_t (\<lambda>i r. r\<lparr>F_id_t := i\<rparr>) (\<lambda>a b. ci_eq (F_tx_hash a) (F_tx_hash b)),
     t_miner_reward = mem_table (\<lambda>w. mem_rewards (m_now w)) (\<lambda>xs w. w\<lparr>m_now := (m_now w)\<lparr>mem_rewards := xs\<rparr>\<rparr>)
       F_id_m (\<lambda>i r. r\<lparr>F_id_m := i\<rparr>) (\<lambda>a b. ci_eq (F_miner_m a) (F_miner_m b)),
     db_begin = (\<lambda>w. w\<lparr>m_snap := m_now w\<rparr>),
     db_commit = (\<lambda>w. (None, w)),
     db_rollback = (\<lambda>w. w\<lparr>m_now := m_snap w\<rparr>),
     mysql_open = (\<lambda>w. (None, w)),
     redis_get = (\<lambda>w. (None, w)),
     now = (\<lambda>w. (m_clock w, w\<lparr>m_clock := m_clock w + 1\<rparr>)),
     now_text = (\<lambda>w. (''2019-11-11 00:00:00.000'', w)),
     rpc = R,
     order_txs = (\<lambda>m. m),
     order_pending = (\<lambda>m. m)\<rparr>"

lemma mem_env_sel [simp]:
  "col_eq (mem_env R) = ci_eq" "rpc (mem_env R) = R" "order_txs (mem_env R) = (\<lambda>m. m)"
  "order_pending (mem_env R) = (\<lambda>m. m)" "mysql_open (mem_env R) = (\<lambda>w. (None, w))"
  "redis_get (mem_env R) = (\<lambda>w. (None, w))"
  by (simp_all add: mem_env_def)

lemma mem_db_sel:
  "blocks (mem_db w) = mset (mem_blocks (m_now w))" "txs (mem_db w) = mset (mem_txs (m_now w))"
  "rewards (mem_db w) = mset (mem_rewards (m_now w))"
  by (simp_all add: mem_db_def mem_dbst_def)

interpretation mem_t_block: sql_table "t_block (mem_env R)" "\<lambda>w. blocks (mem_db w)"
  "\<lambda>w. (txs (mem_db w), rewards (mem_db w))" mem_snap F_id "\<lambda>i r. r\<lparr>F_id := i\<rparr>"
  "\<lambda>a b. ci_eq (F_hash a) (F_hash b)" for R
  unfolding mem_env_def env.select_convs mem_db_sel by (rule mem_table_laws) (simp_all add: mem_snap_def)

interpretation mem_t_transaction: sql_table "t_transaction (mem_env R)" "\<lambda>w. txs (mem_db w)"
  "\<lambda>w. (blocks (mem_db w), rewards (mem_db w))" mem_snap F_id_t "\<lambda>i r. r\<lparr>F_id_t := i\<rparr>"
  "\<lambda>a b. ci_eq (F_tx_hash a) (F_tx_hash b)" for R
  unfolding mem_env_def env.select_convs mem_db_sel by (rule mem_table_laws) (simp_all add: mem_snap_def)

interpretation mem_t_miner_reward: sql_table "t_miner_reward (mem_env R)" "\<lambda>w. rewards (mem_db w)"
  "\<lambda>w. (blocks (mem_db w), txs (mem_db w))" mem_snap F_id_m "\<lambda>i r. r\<lparr>F_id_m := i\<rparr>"
  "\<lambda>a b. ci_eq (F_miner_m a) (F_miner_m b)" for R
  unfolding mem_env_def env.select_convs mem_db_sel by (rule mem_table_laws) (simp_all add: mem_snap_def)

lemma mem_gorm_db_reliable: "gorm_db_reliable (mem_env R) mem_db mem_snap"
  unfolding gorm_db_reliable_def gorm_db_def mem_env_sel
  by (intro conjI mem_t_block.sql_table_axioms mem_t_transaction.sql_table_axioms
      mem_t_miner_reward.sql_table_axioms)
    (unfold_locales, auto simp: mem_env_def ci_eq_def mem_db_def mem_snap_def)

interpretation mem_gorm: gorm_db_reliable "mem_env R" mem_db mem_snap for R
  by (rule mem_gorm_db_reliable)

section \<open>The chain node\<close>

text \<open>
  The node follows a list of blocks, the \<open>i\<close>-th of height \<open>i\<close>. The hash of a block is the text of its
  height, a colon and the hash of its parent, so that a hash determines its block; the node serves
  blocks only from a chain in which numbers, hashes and parents fit.
\<close>

record node =
  nd_chain :: "ChainBlock list"
  nd_receipts :: "(string \<times> TransactionReceipt) list"
  nd_pending :: Content
  nd_rewarded :: "(string \<times> int) list"

fun split_colon :: "string \<Rightarrow> string \<times> string" where
  "split_colon [] = ([], [])"
| "split_colon (c # cs) = (if c = CHR '':'' then ([], cs) else case split_colon cs of (a, b) \<Rightarrow> (c # a, b))"

definition mem_hdr :: header where
  "mem_hdr x = (case split_colon (ToLower x) of (a, b) \<Rightarrow> (case SetString 10 a of None \<Rightarrow> -1 | Some n \<Rightarrow> n, b))"

fun valid_chain :: "int \<Rightarrow> string \<Rightarrow> ChainBlock list \<Rightarrow> bool" where
  "valid_chain n p [] = True"
| "valid_chain n p (b # bs) \<longleftrightarrow> Number b = n \<and> ParentHash b = p \<and> mem_hdr (Hash b) = (n, p) \<and>
     valid_chain (n + 1) (Hash b) bs"

definition genesis_parent :: string where
  "genesis_parent = ''genesis''"

definition served_chain :: "node mem_world \<Rightarrow> ChainBlock list" where
  "served_chain w = (if valid_chain 0 genesis_parent (nd_chain (m_node w)) then nd_chain (m_node w) else [])"

definition node_block :: "ChainBlock list \<Rightarrow> int \<Rightarrow> string + ChainBlock" where
  "node_block bs n = (if 0 \<le> n \<and> n < int (length bs) then Inr (bs ! nat n) else Inl EMPTY_RSP)"

definition node_rpc :: "node mem_world rpc_api" where
  "node_rpc = \<lparr>
     GetBlockNumber = (\<lambda>w. (Ret (if served_chain w = [] \<or> int (length (served_chain w)) > 2 ^ 62 then Inl EMPTY_RSP
        else Inr (int (length (served_chain w)) - 1)), w)),
     GetBlockByNumber = (\<lambda>n d w. (Ret (node_block (served_chain w) n), w)),
     GetBlockByHash = (\<lambda>x d w. (Ret (case filter (\<lambda>b. Hash b = x) (served_chain w) of
        [] \<Rightarrow> Inl EMPTY_RSP | b # _ \<Rightarrow> Inr b), w)),
     GetBlockPocByNumber = (\<lambda>n w. (Ret (Inl EMPTY_RSP), w)),
     GetTransactionByHash = (\<lambda>x w. (Ret (case filter (\<lambda>t. Hash_tr t = x) (concat (map Transactions (served_chain w))) of
        [] \<Rightarrow> Inl EMPTY_RSP | t # _ \<Rightarrow> Inr t), w)),
     GetTransactionReceipt = (\<lambda>x w. (Ret (case map_of (nd_receipts (m_node w)) x of
        None \<Rightarrow> Inl EMPTY_RSP | Some r \<Rightarrow> Inr r), w)),
     GetBalance = (\<lambda>a d w. (Ret (Inl EMPTY_RSP), w)),
     GetTotalRewarded = (\<lambda>a w. (Ret (case map_of (nd_rewarded (m_node w)) a of
        None \<Rightarrow> Inl EMPTY_RSP | Some r \<Rightarrow> Inr r), w)),
     GetTotalMortgage = (\<lambda>a w. (Ret (Inl EMPTY_RSP), w)),
     TxpoolContent = (\<lambda>w. (Ret (Inr (nd_pending (m_node w))), w))\<rparr>"

lemma valid_chain_nth:
  "valid_chain n p bs \<Longrightarrow> i < length bs \<Longrightarrow> Number (bs ! i) = n + int i \<and>
     mem_hdr (Hash (bs ! i)) = (n + int i, ParentHash (bs ! i)) \<and>
     (0 < i \<longrightarrow> ParentHash (bs ! i) = Hash (bs ! (i - 1)))"
proof (induction n p bs arbitrary: i rule: valid_chain.induct)
  case (2 n p b bs)
  show ?case
  proof (cases i)
    case 0
    with 2 show ?thesis by simp
  next
    case (Suc j)
    with "2.IH" [of j] "2.prems" show ?thesis by (cases j; cases bs) auto
  qed
qed simp

lemma served_nth:
  assumes "node_block (served_chain w) n = Inr b"
  shows "Number b = n \<and> mem_hdr (Hash b) = (n, ParentHash b)"
proof -
  have n: "0 \<le> n" "nat n < length (served_chain w)" "b = served_chain w ! nat n"
    using assms by (auto simp: node_block_def split: if_splits)
  moreover have "valid_chain 0 genesis_parent (served_chain w)" by (simp add: served_chain_def)
  ultimately show ?thesis using valid_chain_nth [of 0 genesis_parent "served_chain w" "nat n"] by simp
qed

lemma served_parent:
  assumes "node_block (served_chain w) n = Inr b" and "node_block (served_chain w) (n - 1) = Inr p"
  shows "ParentHash b = Hash p"
proof -
  have n: "0 < n" "nat n < length (served_chain w)" "b = served_chain w ! nat n" "p = served_chain w ! (nat n - 1)"
    using assms by (auto simp: node_block_def nat_diff_distrib split: if_splits)
  moreover have "valid_chain 0 genesis_parent (served_chain w)" by (simp add: served_chain_def)
  ultimately show ?thesis using valid_chain_nth [of 0 genesis_parent "served_chain w" "nat n"] by simp
qed

lemma mem_chain_node: "chain_node (mem_env node_rpc) mem_db mem_snap mem_hdr served_chain"
proof (intro chain_node.intro mem_gorm_db_reliable chain_node_axioms.intro, goal_cases)
  case (1 x y)
  then show ?case by (simp add: mem_hdr_def ci_eq_def)
next
  case (7 n d w b w1 d' w2 p w3)
  then show ?case by (auto simp: node_rpc_def intro: served_parent)
qed (auto simp: node_rpc_def dest!: served_nth split: if_splits)

interpretation mem_node: chain_node "mem_env node_rpc" mem_db mem_snap mem_hdr served_chain
  by (rule mem_chain_node)

end
