(* ===== verification/Example_Chain.thy ===== *)
theory Example_Chain
  imports Table_Store
begin

text \<open>
  A small chain on the node and the tables of \<open>Table_Store\<close>: three blocks, the last one with two
  transactions, one of them to the mortgage contract, and a fork of the last block. The witnesses of the
  general statements run the model on it.
\<close>

definition ex_tx :: "string \<Rightarrow> string \<Rightarrow> string \<Rightarrow> TransactionResponse" where
  "ex_tx h t inp = \<lparr>Version = [], From = ''0xaa'', Hash_tr = h, Nonce_tr = 0, BlockHash_tr = [],
     BlockNumber_tr = 2, TransactionIndex_tr = 0, To = t, Input = inp, Value = 5, GasPrice = 3,
     Gas = 21000, sig_V = [], sig_R = [], sig_S = []\<rparr>"

definition ex_receipt :: "string \<Rightarrow> TransactionReceipt" where
  "ex_receipt h = \<lparr>TransactionHash = h, TransactionIndex_rc = 0, BlockHash_rc = [], BlockNumber_rc = 2,
     From_rc = ''0xaa'', To_rc = [], CumulativeGasUsed = 7, GasUsed_rc = 7, ContractAddress = [],
     Logs = [], Root_rc = [], Status_rc = 1\<rparr>"

definition ex_block :: "int \<Rightarrow> string \<Rightarrow> string \<Rightarrow> TransactionResponse list \<Rightarrow> ChainBlock" where
  "ex_block n h p ts = \<lparr>Number = n, Timestamp = 1000 + n, Transactions = ts, Hash = h, ParentHash = p,
     Size = 1, GasUsed = 7, GasLimit = 100, ExtraData = [], Root = [], TxHash = [], ReceiptHash = [],
     BlockType = 0, KeyHash = [], Exceptions = []\<rparr>"

definition ex_input :: string where
  "ex_input = MORTGAGECONTRACT_FUNC_MORTGAGE @ replicate 64 (CHR ''1'')"

definition ex_txs :: "TransactionResponse list" where
  "ex_txs = [ex_tx ''0x01'' ''0xbb'' [], ex_tx ''0x02'' MORTGAGECONTRACTADDR ex_input]"

definition ex_chain :: "ChainBlock list" where
  "ex_chain = [ex_block 0 ''0:genesis'' ''genesis'' [], ex_block 1 ''1:0:genesis'' ''0:genesis'' [],
     ex_block 2 ''2:1:0:genesis'' ''1:0:genesis'' ex_txs]"

definition ex_fork :: "ChainBlock list" where
  "ex_fork = [ex_block 0 ''0:genesis'' ''genesis'' [], ex_block 1 ''1:0:genesis'' ''0:genesis'' [],
     ex_block 2 ''02:1:0:genesis'' ''1:0:genesis'' []]"

definition ex_node :: "ChainBlock list \<Rightarrow> node" where
  "ex_node bs = \<lparr>nd_chain = bs, nd_receipts = [(''0x01'', ex_receipt ''0x01''), (''0x02'', ex_receipt ''0x02'')],
     nd_pending = \<lparr>Pending = [], Queued = []\<rparr>, nd_rewarded = []\<rparr>"

definition ex_mem :: mem where
  "ex_mem = \<lparr>mem_blocks = [], mem_txs = [], mem_rewards = []\<rparr>"

definition ex_world :: "ChainBlock list \<Rightarrow> node mem_world" where
  "ex_world bs = \<lparr>m_now = ex_mem, m_snap = ex_mem, m_clock = 0, m_node = ex_node bs\<rparr>"

definition init_st :: "'w \<Rightarrow> 'w st" where
  "init_st w = \<lparr>ext = w, block_now = -1, GLastBlock = None, c_mysql = False, c_redis = False,
     c_web3 = False, cache_reward = 0, cache_updatetime = 0, x_mysql = False, x_redis = False, x_web3 = False\<rparr>"

abbreviation ex_env :: "node mem_world env" where
  "ex_env \<equiv> mem_env node_rpc"

text \<open>The machine after some steps.\<close>

definition ex_run :: "nat \<Rightarrow> pc \<times> node mem_world st" where
  "ex_run k = (sync_step ex_env ^^ k) (StartSyncLastBlock ex_env (init_st (ex_world ex_chain)))"

lemma reachable_iterate:
  assumes "reachable E db s0 p s"
  shows "reachable E db s0 (fst ((sync_step E ^^ k) (p, s))) (snd ((sync_step E ^^ k) (p, s)))"
proof (induction k)
  case (Suc k)
  then show ?case
    using reachable.sync [OF Suc] by (metis funpow.simps(2) o_apply prod.collapse)
qed (simp add: assms)

lemma ex_run_reachable: "reachable ex_env db (init_st (ex_world ex_chain)) (fst (ex_run k)) (snd (ex_run k))"
  unfolding ex_run_def
  using reachable_iterate [OF reachable.start [OF prod.collapse [symmetric]]] by simp

lemma ex_start_ok: "start_ok ex_env mem_db mem_hdr (init_st (ex_world bs))"
  by (simp add: start_ok_def init_st_def ex_world_def ex_mem_def B_of_def mem_db_sel top_block_def
      chain_inv_defs normal_at_def)

end
