(* ===== verification/Check_Reward.thy ===== *)
theory Check_Reward
  imports Sync_Proof
begin

text \<open>
  \<^verbatim>\<open>src/src/sync/checkreward.go\<close>: the recount of the miners' rewards from their stored blocks. After a
  recount that returns, every miner's reward total is the sum over its blocks; the fee totals are
  computed too, but the update writes the reward column only.
\<close>

section \<open>The recount\<close>

text \<open>Adding up two columns; a text that is not a number gives a nil \<^verbatim>\<open>big.Int\<close>, which \<^verbatim>\<open>Add\<close> dereferences.\<close>

fun add_blocks :: "Block list \<Rightarrow> int \<Rightarrow> int \<Rightarrow> ('s, int \<times> int) eff" where
  "add_blocks [] rs fs = ret (rs, fs)"
| "add_blocks (block # bs) rs fs =
     (case (SetString 10 (F_reward block), SetString 10 (F_fees block)) of
        (Some reward, Some fee) \<Rightarrow> add_blocks bs (rs + reward) (fs + fee)
      | _ \<Rightarrow> panicE nil_deref)"

definition LAST_TIMESTAMP :: int64 where
  "LAST_TIMESTAMP = 9540364631"

definition check_miner :: "'w env \<Rightarrow> MinerReward \<Rightarrow> ('w st, unit) eff" where
  "check_miner E miner =
     bindE (FindMinedBlockByAddrAndTime E (F_miner_m miner) 0 LAST_TIMESTAMP) (\<lambda>(blocks, err).
     case err of
       Some e \<Rightarrow> panicE (PStr (''FindMinedBlockByAddrAndTime,err: '' @ e))
     | None \<Rightarrow>
         bindE (add_blocks blocks 0 0) (\<lambda>(rewards, fees).
         if F_total_reward miner \<noteq> String rewards \<or> F_total_fees miner \<noteq> String fees then
           bindE (UpdateMinerReward E (miner\<lparr>F_total_reward := String rewards, F_total_fees := String fees\<rparr>)) (\<lambda>err.
           case err of
             Some e \<Rightarrow> panicE (PStr (''UpdateMinerReward,err: '' @ e))
           | None \<Rightarrow> ret ())
         else ret ()))"

fun check_miners :: "'w env \<Rightarrow> MinerReward list \<Rightarrow> ('w st, unit) eff" where
  "check_miners E [] = ret ()"
| "check_miners E (miner # ms) = thenE (check_miner E miner) (check_miners E ms)"

definition checkReward :: "'w env \<Rightarrow> ('w st, unit) eff" where
  "checkReward E =
     bindE (call (mysql_open E)) (\<lambda>err.
     case err of
       Some e \<Rightarrow> panicE (PStr (''connect mysql failed,err: '' @ e))
     | None \<Rightarrow>
         bindE (GetAddrList E) (\<lambda>(miners, err).
         case err of
           Some e \<Rightarrow> panicE (PStr (''GetAddrList,err: '' @ e))
         | None \<Rightarrow> check_miners E miners))"

text \<open>\<^verbatim>\<open>CheckReward\<close> recounts for ever; \<open>k\<close> rounds of its loop.\<close>

primrec CheckReward :: "'w env \<Rightarrow> nat \<Rightarrow> ('w st, unit) eff" where
  "CheckReward E 0 = ret ()"
| "CheckReward E (Suc k) = thenE (checkReward E) (CheckReward E k)"

section \<open>What a recount establishes\<close>

definition mined_by :: "'w env \<Rightarrow> Block multiset \<Rightarrow> string \<Rightarrow> Block multiset" where
  "mined_by E B addr = {# b \<in># B. col_eq E (F_miner b) addr \<and> F_timestamp b \<ge> 0 \<and>
     F_timestamp b \<le> LAST_TIMESTAMP \<and> F_status b = NORMAL #}"

definition reward_sum :: "Block multiset \<Rightarrow> int" where
  "reward_sum B = (\<Sum>b \<in># B. read_total (F_reward b))"

definition reward_right :: "'w env \<Rightarrow> Block multiset \<Rightarrow> MinerReward \<Rightarrow> bool" where
  "reward_right E B m \<longleftrightarrow> F_total_reward m = String (reward_sum (mined_by E B (F_miner_m m)))"

definition unique_miners :: "'w env \<Rightarrow> MinerReward multiset \<Rightarrow> bool" where
  "unique_miners E R \<longleftrightarrow> (\<forall>x \<in># R. \<forall>y \<in># R. col_eq E (F_miner_m x) (F_miner_m y) \<longrightarrow> x = y)"

lemma add_blocks_wp:
  "wp (add_blocks bs r f) (\<lambda>x s'. s' = s \<and>
     (\<forall>r' f'. x = Ret (r', f') \<longrightarrow> r' = r + reward_sum (mset bs))) s"
proof (induction bs r f rule: add_blocks.induct)
  case (2 b bs r f)
  show ?case
  proof (cases "SetString 10 (F_reward b)"; cases "SetString 10 (F_fees b)")
    fix x y assume xy: "SetString 10 (F_reward b) = Some x" "SetString 10 (F_fees b) = Some y"
    from 2 [OF refl xy] show ?thesis
      by (auto simp: xy reward_sum_def read_total_def elim!: wp_mono)
  qed simp_all
qed (simp add: reward_sum_def)

text \<open>The frame of the recount and its effect on one row.\<close>

definition recount_frame :: "('w \<Rightarrow> dbst) \<Rightarrow> 'w st \<Rightarrow> 'w st \<Rightarrow> bool" where
  "recount_frame db s s' \<longleftrightarrow> only_ext s s' \<and> blocks (db (ext s')) = blocks (db (ext s)) \<and> txs (db (ext s')) = txs (db (ext s))"

lemma recount_frame_trans:
  "recount_frame db s s' \<Longrightarrow> recount_frame db s' s'' \<Longrightarrow> recount_frame db s s''"
  by (auto simp: recount_frame_def intro: only_ext_trans)

lemma unchanged_recount: "unchanged db s s' \<Longrightarrow> recount_frame db s s'"
  by (simp add: recount_frame_def unchanged_def)

text \<open>Rewriting the rows of the miner \<open>addr\<close>: they become right, keep their fee totals, and the other rows are
  untouched.\<close>

definition recounted :: "'w env \<Rightarrow> Block multiset \<Rightarrow> string \<Rightarrow> MinerReward multiset \<Rightarrow> MinerReward multiset \<Rightarrow> bool" where
  "recounted E B addr R R' \<longleftrightarrow>
     (\<exists>g. R' = image_mset g R \<and> (\<forall>x. F_miner_m (g x) = F_miner_m x \<and> F_total_fees (g x) = F_total_fees x) \<and>
        (\<forall>x. col_eq E (F_miner_m x) addr \<longrightarrow> reward_right E B (g x)) \<and>
        (\<forall>x. \<not> col_eq E (F_miner_m x) addr \<longrightarrow> g x = x))"

definition checked :: "'w env \<Rightarrow> Block multiset \<Rightarrow> MinerReward \<Rightarrow> MinerReward multiset \<Rightarrow> MinerReward multiset \<Rightarrow> bool" where
  "checked E B m R R' \<longleftrightarrow> R' = R \<and> reward_right E B m \<or> recounted E B (F_miner_m m) R R'"

context gorm_db_reliable
begin

lemma mined_by_cong: "col_eq E a b \<Longrightarrow> mined_by E B a = mined_by E B b"
  unfolding mined_by_def by (rule filter_mset_cong) (use col_sym col_trans in blast)+

lemma FindMinedBlockByAddrAndTime_wp:
  "wp (FindMinedBlockByAddrAndTime E addr 0 LAST_TIMESTAMP) (\<lambda>r s'. unchanged db s s' \<and>
     (case r of
        Ret (bs, None) \<Rightarrow> mset bs = mined_by E (blocks (db (ext s))) addr
      | Ret (bs, Some e) \<Rightarrow> False
      | Panic p \<Rightarrow> (\<exists>e. p = PStr e))) s"
  by (auto simp: FindMinedBlockByAddrAndTime_def wp_simps unchanged_def blk_find_frame blk.find_found mined_by_def
      split: prod.splits qres.splits dest!: blk.find_rows)

lemma reward_updated_recounted:
  assumes "reward_updated E m (\<lambda>x. x\<lparr>F_total_reward := String (reward_sum (mined_by E B addr))\<rparr>) D D'"
    and "F_miner_m m = addr"
  shows "recounted E B addr (rewards D) (rewards D') \<and> blocks D' = blocks D \<and> txs D' = txs D"
proof -
  obtain t where D': "D' = D\<lparr>rewards := image_mset (\<lambda>x. if col_eq E (F_miner_m x) addr
      then BeforeUpdate_MinerReward t (x\<lparr>F_total_reward := String (reward_sum (mined_by E B addr))\<rparr>)
      else x) (rewards D)\<rparr>" (is "_ = D\<lparr>rewards := image_mset ?g _\<rparr>")
    using assms unfolding reward_updated_def by auto
  have "recounted E B addr (rewards D) (rewards D')"
    unfolding recounted_def D'
    by (rule exI [of _ ?g]) (auto simp: BeforeUpdate_MinerReward_def reward_right_def mined_by_cong)
  then show ?thesis by (simp add: D')
qed

lemma UpdateMinerReward_recounts:
  assumes "unchanged db s s1"
  shows "wp (UpdateMinerReward E (m\<lparr>F_total_reward := String (reward_sum (mined_by E (blocks (db (ext s))) (F_miner_m m))),
      F_total_fees := t\<rparr>)) (\<lambda>r s'. recount_frame db s s' \<and> (r = Ret None \<longrightarrow>
        recounted E (blocks (db (ext s))) (F_miner_m m) (rewards (db (ext s))) (rewards (db (ext s'))))) s1"
  unfolding UpdateMinerReward_def
proof (rule wp_mono [OF updateMinerRewardColumn_reliable], goal_cases)
  case (1 r s')
  show ?case
  proof (cases "r = Ret None")
    case True
    with 1 have "reward_updated E (m\<lparr>F_total_reward := String (reward_sum (mined_by E (blocks (db (ext s))) (F_miner_m m))),
        F_total_fees := t\<rparr>) (\<lambda>x. x\<lparr>F_total_reward := String (reward_sum (mined_by E (blocks (db (ext s))) (F_miner_m m)))\<rparr>)
        (db (ext s1)) (db (ext s'))" by simp
    from reward_updated_recounted [OF this] 1 assms show ?thesis
      by (auto simp: recount_frame_def unchanged_def intro: only_ext_trans)
  next
    case False
    with 1 assms show ?thesis
      by (auto simp: recount_frame_def unchanged_def intro: only_ext_trans split: out.splits option.splits)
  qed
qed

lemma check_miner_wp:
  "wp (check_miner E m) (\<lambda>r s'. recount_frame db s s' \<and>
     (r = Ret () \<longrightarrow> checked E (blocks (db (ext s))) m (rewards (db (ext s))) (rewards (db (ext s'))))) s"
  unfolding check_miner_def
proof (rule wp_bindI [OF FindMinedBlockByAddrAndTime_wp], goal_cases)
  case (1 x s1)
  obtain bs err where x: "x = (bs, err)" by (cases x)
  with 1 have err: "err = None" and bs: "mset bs = mined_by E (blocks (db (ext s))) (F_miner_m m)"
    and u: "unchanged db s s1" by (auto split: option.splits)
  let ?sum = "reward_sum (mined_by E (blocks (db (ext s))) (F_miner_m m))"
  show ?case
    unfolding x err prod.case option.case
  proof (rule wp_bindI [OF add_blocks_wp], goal_cases)
    case (1 y s2)
    then obtain f where y: "y = (?sum, f)" and s2: "s2 = s1" by (cases y) (simp add: bs)
    have same: "checked E (blocks (db (ext s))) m (rewards (db (ext s))) (rewards (db (ext s1)))"
      if "F_total_reward m = String ?sum"
      using that u by (simp add: checked_def reward_right_def unchanged_def)
    have upd: "wp (bindE (UpdateMinerReward E (m\<lparr>F_total_reward := String ?sum, F_total_fees := String f\<rparr>)) (\<lambda>err. case err of
        Some e \<Rightarrow> panicE (PStr (''UpdateMinerReward,err: '' @ e)) | None \<Rightarrow> ret ()))
      (\<lambda>r s'. recount_frame db s s' \<and>
        (r = Ret () \<longrightarrow> checked E (blocks (db (ext s))) m (rewards (db (ext s))) (rewards (db (ext s'))))) s1"
      by (rule wp_bindI [OF UpdateMinerReward_recounts [OF u]]) (auto simp: checked_def split: option.splits)
    have "wp (ret ()) (\<lambda>r s'. recount_frame db s s' \<and> (r = Ret () \<longrightarrow>
        checked E (blocks (db (ext s))) m (rewards (db (ext s))) (rewards (db (ext s'))))) s1"
      if "F_total_reward m = String ?sum"
      using same [OF that] unchanged_recount [OF u] by simp
    with upd show ?case unfolding y s2 prod.case wp_if by presburger
  qed (use unchanged_recount [OF u] in auto)
qed (auto intro: unchanged_recount)

text \<open>The loop: a row is right, or it is still as it was and its miner has not been visited.\<close>

definition recount_inv :: "Block multiset \<Rightarrow> MinerReward multiset \<Rightarrow> MinerReward set \<Rightarrow> MinerReward multiset \<Rightarrow> bool" where
  "recount_inv B R0 todo R \<longleftrightarrow>
     (\<forall>x \<in># R. reward_right E B x \<or> x \<in># R0 \<and> x \<in> todo)"

lemma checked_inv:
  assumes "recount_inv B R0 (insert m todo) R" and "checked E B m R R'" and "unique_miners E R0" and "m \<in># R0"
  shows "recount_inv B R0 todo R'"
  using assms col_refl unfolding recount_inv_def checked_def recounted_def
  by (auto simp: reward_right_def) (metis)+

lemma check_miners_wp:
  assumes "recount_inv B R0 (set ms) (rewards (db (ext s)))" and "blocks (db (ext s)) = B"
    and "unique_miners E R0" and "set ms \<subseteq> set_mset R0"
  shows "wp (check_miners E ms) (\<lambda>r s'. recount_frame db s s' \<and>
    (r = Ret () \<longrightarrow> recount_inv B R0 {} (rewards (db (ext s'))))) s"
  using assms
proof (induction ms arbitrary: s)
  case Nil
  then show ?case by (simp add: recount_frame_def)
next
  case (Cons m ms)
  show ?case
    unfolding check_miners.simps
  proof (rule wp_thenI [OF check_miner_wp], goal_cases)
    case (1 a s1)
    then have fr: "recount_frame db s s1" and "checked E B m (rewards (db (ext s))) (rewards (db (ext s1)))"
      using Cons.prems(2) by auto
    then have "recount_inv B R0 (set ms) (rewards (db (ext s1)))"
      using Cons.prems(1,3,4) by (intro checked_inv [of B R0 m "set ms" "rewards (db (ext s))"]) simp_all
    moreover have "blocks (db (ext s1)) = B" using fr Cons.prems(2) by (simp add: recount_frame_def)
    ultimately have "wp (check_miners E ms) (\<lambda>r s'. recount_frame db s1 s' \<and>
      (r = Ret () \<longrightarrow> recount_inv B R0 {} (rewards (db (ext s'))))) s1"
      using Cons.prems by (intro Cons.IH) auto
    then show ?case by (rule wp_mono) (auto intro: recount_frame_trans [OF fr])
  qed auto
qed

lemma checkReward_wp:
  assumes "unique_miners E (rewards (db (ext s)))"
  shows "wp (checkReward E) (\<lambda>r s'. recount_frame db s s' \<and>
    (r = Ret () \<longrightarrow> (\<forall>m \<in># rewards (db (ext s')). reward_right E (blocks (db (ext s'))) m))) s"
proof -
  have o: "wp (call (mysql_open E)) (\<lambda>r s'. unchanged db s s' \<and> (\<exists>e. r = Ret e)) s"
    by (auto simp: wp_call unchanged_def dest: open_db split: prod.splits)
  show ?thesis
    unfolding checkReward_def
  proof (rule wp_bindI [OF o], goal_cases)
    case (1 err s1)
    then have u: "unchanged db s s1" by simp
    have "wp (bindE (GetAddrList E) (\<lambda>(miners, err). case err of
           Some e \<Rightarrow> panicE (PStr (''GetAddrList,err: '' @ e)) | None \<Rightarrow> check_miners E miners))
      (\<lambda>r s'. recount_frame db s s' \<and>
        (r = Ret () \<longrightarrow> (\<forall>m \<in># rewards (db (ext s')). reward_right E (blocks (db (ext s'))) m))) s1"
    proof (rule wp_bindI [OF GetAddrList_wp], goal_cases)
      case (1 x s2)
      obtain ms e where x: "x = (ms, e)" by (cases x)
      with 1 have e: "e = None" and ms: "mset ms = rewards (db (ext s))" and u2: "unchanged db s s2"
        using u by (auto split: option.splits intro: unchanged_trans [OF u] dest: unchanged_db)
      have "wp (check_miners E ms) (\<lambda>r s'. recount_frame db s2 s' \<and>
          (r = Ret () \<longrightarrow> recount_inv (blocks (db (ext s))) (rewards (db (ext s))) {} (rewards (db (ext s'))))) s2"
        by (rule check_miners_wp)
          (use assms u2 ms in \<open>auto simp: recount_inv_def unchanged_def simp flip: set_mset_mset\<close>)
      then show ?case unfolding x e prod.case option.case
        by (rule wp_mono)
          (use u2 in \<open>auto simp: recount_inv_def recount_frame_def unchanged_def intro: only_ext_trans\<close>)
    qed (auto intro: unchanged_recount unchanged_trans [OF u])
    then show ?case
      by (cases err) (simp_all only: option.case wp_panicE unchanged_recount [OF u], simp)
  qed auto
qed

text \<open>The fee totals survive a recount: the update writes the reward column only.\<close>

definition same_fees :: "'a st \<Rightarrow> 'a st \<Rightarrow> bool" where
  "same_fees s s' \<longleftrightarrow> image_mset F_total_fees (rewards (db (ext s'))) = image_mset F_total_fees (rewards (db (ext s)))"

lemma UpdateMinerReward_fees: "wp (UpdateMinerReward E m) (\<lambda>r s'. same_fees s s') s"
  unfolding UpdateMinerReward_def
  by (rule wp_mono [OF updateMinerRewardColumn_wp])
    (auto simp: same_fees_def reward_updated_def BeforeUpdate_MinerReward_def multiset.map_comp comp_def intro!: image_mset_cong)

lemma check_miner_fees: "wp (check_miner E m) (\<lambda>r s'. same_fees s s') s"
  unfolding check_miner_def
proof (rule wp_bindI [OF FindMinedBlockByAddrAndTime_wp], goal_cases)
  case (1 x s1)
  then have s1: "same_fees s s1" by (simp add: same_fees_def unchanged_def)
  obtain bs err where x: "x = (bs, err)" by (cases x)
  show ?case
  proof (cases err)
    case None
    show ?thesis
      unfolding x None prod.case option.case
      apply (rule wp_bindI [OF add_blocks_wp])
      subgoal for y s2
        apply (cases y)
        apply (simp add: s1 split del: if_split)
        apply (rule wp_ifI)
         apply (rule wp_bindI [OF UpdateMinerReward_fees])
        using s1
          apply (auto simp: same_fees_def split: option.split)
        done
      using s1 by simp
  qed (simp add: x s1)
qed (simp add: same_fees_def unchanged_def)

lemma check_miners_fees: "wp (check_miners E ms) (\<lambda>r s'. same_fees s s') s"
proof (induction ms arbitrary: s)
  case (Cons m ms)
  show ?case
    unfolding check_miners.simps
    by (rule wp_thenI [OF check_miner_fees], rule wp_mono [OF Cons.IH]) (simp_all add: same_fees_def)
qed (simp add: same_fees_def)

lemma checkReward_fees: "wp (checkReward E) (\<lambda>r s'. same_fees s s') s"
proof -
  have "wp (bindE (GetAddrList E) (\<lambda>(miners, err). case err of
       Some e \<Rightarrow> panicE (PStr (''GetAddrList,err: '' @ e)) | None \<Rightarrow> check_miners E miners)) (\<lambda>r s'. same_fees s s') s" for s
    apply (rule wp_bindI [OF GetAddrList_wp])
    subgoal for x s1
      apply (cases x; cases "snd x")
       apply (simp_all add: same_fees_def unchanged_def)
      apply (rule wp_mono [OF check_miners_fees])
      apply (simp add: same_fees_def)
      done
    by (simp add: same_fees_def unchanged_def)
  note rest = this
  show ?thesis
    unfolding checkReward_def
    apply (simp only: wp_bindE [of "call (mysql_open E)"] wp_call out.case split: prod.split)
    apply (intro allI impI)
    subgoal for err w
      apply (cases err)
       apply (simp only: option.case)
       apply (rule wp_mono [OF rest])
      using open_db [of "ext s" err w]
       apply (simp_all add: same_fees_def)
      done
    done
qed

text \<open>Adding to the totals of a miner that has a row.\<close>

lemma WriteMinerRewards_adds:
  assumes r0: "r0 \<in># rewards (db (ext s))" "col_eq E (F_miner_m r0) miner" and un: "unique_miners E (rewards (db (ext s)))"
  shows "wp (WriteMinerRewards E miner reward fees) (\<lambda>r s'. r = Ret None \<longrightarrow>
    (\<exists>r1 \<in># rewards (db (ext s')). F_miner_m r1 = F_miner_m r0 \<and>
       F_total_reward r1 = String (read_total (F_total_reward r0) + reward) \<and> F_total_fees r1 = F_total_fees r0)) s"
  unfolding WriteMinerRewards_def
proof (rule Mysql_thenI, rule wp_bindI [OF FindRewardByMiner_wp], goal_cases)
  case (1 s1 x s2)
  obtain r err where x: "x = (r, err)" by (cases x)
  have s1: "db (ext s1) = db (ext s)" "db (ext s2) = db (ext s)"
    using 1 by (simp_all add: quiet_def unchanged_def)
  show ?case
  proof (cases err)
    case None
    with 1(2) x s1 have "r \<in># rewards (db (ext s))" "col_eq E (F_miner_m r) miner" by simp_all
    with r0 un have r: "r = r0" unfolding unique_miners_def using col_sym col_trans by blast
    let ?m = "r0\<lparr>F_total_reward := String (read_total (F_total_reward r0) + reward),
      F_total_fees := String (read_total (F_total_reward r0) + fees)\<rparr>"
    have "wp (thenE (Mysql E) (UpdateMinerReward E ?m)) (\<lambda>r s'. r = Ret None \<longrightarrow>
      (\<exists>r1 \<in># rewards (db (ext s')). F_miner_m r1 = F_miner_m r0 \<and>
         F_total_reward r1 = String (read_total (F_total_reward r0) + reward) \<and> F_total_fees r1 = F_total_fees r0)) s2"
      unfolding UpdateMinerReward_def
    proof (rule Mysql_thenI, rule wp_mono [OF updateMinerRewardColumn_reliable], goal_cases)
      case (1 s3 r s4)
      then have s3: "rewards (db (ext s3)) = rewards (db (ext s))" using s1 by (simp add: quiet_def)
      show ?case
      proof (intro impI)
        assume "r = Ret None"
        with 1(2) obtain t where "rewards (db (ext s4)) = image_mset
            (\<lambda>x. if col_eq E (F_miner_m x) (F_miner_m r0)
              then BeforeUpdate_MinerReward t (x\<lparr>F_total_reward := String (read_total (F_total_reward r0) + reward)\<rparr>) else x) (rewards (db (ext s)))"
          by (auto simp: reward_updated_def s3)
        moreover have "BeforeUpdate_MinerReward t (r0\<lparr>F_total_reward := String (read_total (F_total_reward r0) + reward)\<rparr>) \<in># \<dots>"
          using r0(1) col_refl by (auto intro!: image_eqI [of _ _ r0])
        ultimately show "\<exists>r1 \<in># rewards (db (ext s4)). F_miner_m r1 = F_miner_m r0 \<and>
            F_total_reward r1 = String (read_total (F_total_reward r0) + reward) \<and> F_total_fees r1 = F_total_fees r0"
          by (intro bexI [of _ "BeforeUpdate_MinerReward t (r0\<lparr>F_total_reward := String (read_total (F_total_reward r0) + reward)\<rparr>)"])
            (simp_all add: BeforeUpdate_MinerReward_def)
      qed
    qed simp
    then show ?thesis by (simp add: x None r Let_def)
  next
    case (Some e)
    with 1 x s1 r0 have False by auto
    then show ?thesis ..
  qed
qed auto

end

end
