(* ===== verification/Api_Context.thy ===== *)
theory Api_Context
  imports Model_Reward
begin

text \<open>
  \<^verbatim>\<open>src/src/apicontext/apicontext.go\<close>: what every HTTP handler uses. A handler is a computation that ends
  with a reply or a panic; \<^verbatim>\<open>PANIC_RECOVER\<close>, deferred by every handler, turns that into what the client
  and the server see. Connections of the request are the fields \<^const>\<open>x_mysql\<close>, \<^const>\<open>x_redis\<close> and
  \<^const>\<open>x_web3\<close> of the state. Binding a request to the input structure is echo's; its result is an argument
  of the handler.
\<close>

section \<open>Connections\<close>

definition ctx_Mysql :: "'w env \<Rightarrow> ('w st, unit) eff" where
  "ctx_Mysql E =
     bindE (getE x_mysql) (\<lambda>opened.
     if \<not> opened then
       bindE (call (mysql_open E)) (\<lambda>err.
       case err of
         Some e \<Rightarrow> panicE (PStr (''connect mysql failed,err: '' @ e))
       | None \<Rightarrow> modifyE (\<lambda>s. s\<lparr>x_mysql := True\<rparr>))
     else ret ())"

definition ctx_Redis :: "'w env \<Rightarrow> ('w st, unit) eff" where
  "ctx_Redis E =
     bindE (getE x_redis) (\<lambda>opened.
     if \<not> opened then
       bindE (call (redis_get E)) (\<lambda>err.
       case err of
         Some e \<Rightarrow> panicE (PStr e)
       | None \<Rightarrow> modifyE (\<lambda>s. s\<lparr>x_redis := True\<rparr>))
     else ret ())"

definition ctx_Web3 :: "('w st, unit) eff" where
  "ctx_Web3 = modifyE (\<lambda>s. if \<not> x_web3 s then s\<lparr>x_web3 := True\<rparr> else s)"

text \<open>A new request starts with no connection.\<close>

definition ctx_New :: "'w st \<Rightarrow> 'w st" where
  "ctx_New s = s\<lparr>x_mysql := False, x_redis := False, x_web3 := False\<rparr>"

section \<open>Input\<close>

text \<open>What echo's \<^verbatim>\<open>Bind\<close> made of the request, and the text of the validator for the fields it misses.\<close>

record 'i request =
  bound :: "string + 'i"
  missing :: "string list \<Rightarrow> string"

text \<open>\<^verbatim>\<open>BindInput\<close>: bind, then validate; \<open>required i\<close> are the fields tagged \<^verbatim>\<open>validate:"required"\<close> with their
  values, none of which may be empty.\<close>

definition Validate :: "'i request \<Rightarrow> (string \<times> string) list \<Rightarrow> go_error" where
  "Validate rq flds =
     (let empty = map fst (filter (\<lambda>f. snd f = []) flds) in
      if empty = [] then None else Some (missing rq empty))"

definition BindInput :: "'i request \<Rightarrow> ('i \<Rightarrow> (string \<times> string) list) \<Rightarrow> string + 'i" where
  "BindInput rq required =
     (case bound rq of
        Inl e \<Rightarrow> Inl e
      | Inr i \<Rightarrow> (case Validate rq (required i) of None \<Rightarrow> Inr i | Some e \<Rightarrow> Inl e))"

section \<open>Replies\<close>

record BaseOutput =
  ErrNo :: int
  ErrMsg :: string

text \<open>A handler replies with its output or with an error number and text, or hands an error to echo
  without replying itself.\<close>

datatype 'o reply = Reply 'o | ReplyError BaseOutput | ReturnError string

text \<open>\<^verbatim>\<open>RESULT\<close> closes the request's MySQL connection when it is done; outputs without the two error fields are
  refused. \<open>flds\<close> are the field names of the output's type.\<close>

definition close_mysql :: "('w st, unit) eff" where
  "close_mysql = modifyE (\<lambda>s. s\<lparr>x_mysql := False\<rparr>)"

definition RESULT :: "string list \<Rightarrow> 'o reply \<Rightarrow> ('w st, 'o reply) eff" where
  "RESULT flds output =
     thenE close_mysql
      (if ''ErrNo'' \<notin> set flds then
         ret (ReplyError \<lparr>ErrNo = ERR_INNER_ERROR, ErrMsg = ''Result MUST have 'ErrNo' field''\<rparr>)
       else if ''ErrMsg'' \<notin> set flds then
         ret (ReplyError \<lparr>ErrNo = ERR_INNER_ERROR, ErrMsg = ''Result MUST have 'ErrMsg' field''\<rparr>)
       else ret output)"

definition RESULT_ERROR :: "int \<Rightarrow> string \<Rightarrow> ('w st, 'o reply) eff" where
  "RESULT_ERROR eno err = RESULT [''ErrNo'', ''ErrMsg''] (ReplyError \<lparr>ErrNo = eno, ErrMsg = err\<rparr>)"

definition RESULT_PARAMETER_ERROR :: "string \<Rightarrow> ('w st, 'o reply) eff" where
  "RESULT_PARAMETER_ERROR err = RESULT_ERROR ERR_PARAMETER_INVALID err"

text \<open>\<^verbatim>\<open>XMLRESULT\<close> closes nothing; the XML encoder is a parameter.\<close>

definition XMLRESULT :: "('o \<Rightarrow> string + string) \<Rightarrow> 'o \<Rightarrow> ('w st, 'o reply) eff" where
  "XMLRESULT marshal output =
     (case marshal output of Inl e \<Rightarrow> ret (ReturnError ''xml.MarshalIndent'') | Inr x \<Rightarrow> ret (Reply output))"

section \<open>Recovery\<close>

text \<open>What is seen of a request: a reply; a reply and then a panic; a panic and no reply.\<close>

datatype 'o served = Served "'o reply" | ServedThenPanic "'o reply" panic | is_Lost: Lost panic

text \<open>
  \<^verbatim>\<open>PANIC_RECOVER\<close> looks at the kind of the panic. For kind \<^verbatim>\<open>String\<close> it asserts the value to be a \<^verbatim>\<open>string\<close>,
  which holds of a string and fails of a \<^verbatim>\<open>runtime.errorString\<close>: the assertion then panics before
  anything is written.
\<close>

definition bad_assertion :: panic where
  "bad_assertion = PRuntime ''interface conversion: interface {} is runtime.errorString, not string''"

definition PANIC_RECOVER :: "('w st, 'o reply) eff \<Rightarrow> 'w st \<Rightarrow> 'o served \<times> 'w st" where
  "PANIC_RECOVER m s =
     (case m s of
        (Ret r, s') \<Rightarrow> (Served r, s')
      | (Panic (PStr e), s') \<Rightarrow>
          (case RESULT_ERROR ERR_INNER_ERROR e s' of
             (Ret r, s'') \<Rightarrow> (Served r, s'') | (Panic p, s'') \<Rightarrow> (Lost p, s''))
      | (Panic (PErrorString e), s') \<Rightarrow> (Lost bad_assertion, s')
      | (Panic (PRuntime e), s') \<Rightarrow>
          (case RESULT_ERROR ERR_INNER_ERROR ''unkown error'' s' of
             (Ret r, s'') \<Rightarrow> (ServedThenPanic r (PRuntime e), s'') | (Panic p, s'') \<Rightarrow> (Lost p, s'')))"

section \<open>Lemmas\<close>

lemma wp_RESULT [simp, wp_simps]:
  "wp (RESULT fs out) Q s =
     (if ''ErrNo'' \<notin> set fs then
        Q (Ret (ReplyError \<lparr>ErrNo = ERR_INNER_ERROR, ErrMsg = ''Result MUST have 'ErrNo' field''\<rparr>)) (s\<lparr>x_mysql := False\<rparr>)
      else if ''ErrMsg'' \<notin> set fs then
        Q (Ret (ReplyError \<lparr>ErrNo = ERR_INNER_ERROR, ErrMsg = ''Result MUST have 'ErrMsg' field''\<rparr>)) (s\<lparr>x_mysql := False\<rparr>)
      else Q (Ret out) (s\<lparr>x_mysql := False\<rparr>))"
  by (simp add: RESULT_def close_mysql_def wp_thenE)

lemma wp_RESULT_ERROR [simp, wp_simps]:
  "wp (RESULT_ERROR n e) Q s = Q (Ret (ReplyError \<lparr>ErrNo = n, ErrMsg = e\<rparr>)) (s\<lparr>x_mysql := False\<rparr>)"
  by (simp add: RESULT_ERROR_def)

lemma wp_RESULT_PARAMETER_ERROR [simp, wp_simps]:
  "wp (RESULT_PARAMETER_ERROR e) Q s =
     Q (Ret (ReplyError \<lparr>ErrNo = ERR_PARAMETER_INVALID, ErrMsg = e\<rparr>)) (s\<lparr>x_mysql := False\<rparr>)"
  by (simp add: RESULT_PARAMETER_ERROR_def)

lemma RESULT_ERROR_run:
  "RESULT_ERROR n e s = (Ret (ReplyError \<lparr>ErrNo = n, ErrMsg = e\<rparr>), s\<lparr>x_mysql := False\<rparr>)"
  by (simp add: RESULT_ERROR_def RESULT_def close_mysql_def eff_defs)

lemma PANIC_RECOVER_run:
  "PANIC_RECOVER m s =
     (case m s of
        (Ret r, s') \<Rightarrow> (Served r, s')
      | (Panic (PStr e), s') \<Rightarrow> (Served (ReplyError \<lparr>ErrNo = ERR_INNER_ERROR, ErrMsg = e\<rparr>), s'\<lparr>x_mysql := False\<rparr>)
      | (Panic (PErrorString e), s') \<Rightarrow> (Lost bad_assertion, s')
      | (Panic (PRuntime e), s') \<Rightarrow>
          (ServedThenPanic (ReplyError \<lparr>ErrNo = ERR_INNER_ERROR, ErrMsg = ''unkown error''\<rparr>) (PRuntime e),
           s'\<lparr>x_mysql := False\<rparr>))"
  by (simp add: PANIC_RECOVER_def RESULT_ERROR_run split: out.splits panic.splits prod.splits)

text \<open>Nothing is written exactly when the handler dereferences nil.\<close>

lemma lost_iff_nil_deref:
  "(\<exists>p. fst (PANIC_RECOVER m s) = Lost p) \<longleftrightarrow> (\<exists>e. fst (m s) = Panic (PErrorString e))"
  by (auto simp: PANIC_RECOVER_run split: prod.splits out.splits panic.splits)

text \<open>The outcomes of a handler: a postcondition of the body gives one of the served request.\<close>

definition served_wp :: "('w st \<Rightarrow> 'o served \<times> 'w st) \<Rightarrow> ('o served \<Rightarrow> 'w st \<Rightarrow> bool) \<Rightarrow> 'w st \<Rightarrow> bool" where
  "served_wp h Q s = (case h s of (r, s') \<Rightarrow> Q r s')"

lemma served_wp_PANIC_RECOVER:
  "served_wp (PANIC_RECOVER m) Q s =
     wp m (\<lambda>r s'. case r of
        Ret x \<Rightarrow> Q (Served x) s'
      | Panic (PStr e) \<Rightarrow> Q (Served (ReplyError \<lparr>ErrNo = ERR_INNER_ERROR, ErrMsg = e\<rparr>)) (s'\<lparr>x_mysql := False\<rparr>)
      | Panic (PErrorString e) \<Rightarrow> Q (Lost bad_assertion) s'
      | Panic (PRuntime e) \<Rightarrow>
          Q (ServedThenPanic (ReplyError \<lparr>ErrNo = ERR_INNER_ERROR, ErrMsg = ''unkown error''\<rparr>) (PRuntime e))
            (s'\<lparr>x_mysql := False\<rparr>)) s"
  by (auto simp: served_wp_def wp_def PANIC_RECOVER_run split: out.splits panic.splits prod.splits)

lemma served_wpD: "served_wp h Q s \<Longrightarrow> h s = (r, s') \<Longrightarrow> Q r s'"
  by (simp add: served_wp_def)

text \<open>The body of a handler replies only with its connection closed; then so does the handler.\<close>

definition closes :: "('w st, 'o reply) eff \<Rightarrow> bool" where
  "closes m \<longleftrightarrow> (\<forall>s. wp m (\<lambda>r s'. case r of
     Ret (Reply x) \<Rightarrow> \<not> x_mysql s' | Ret (ReplyError x) \<Rightarrow> \<not> x_mysql s' | _ \<Rightarrow> True) s)"

fun has_reply :: "'o served \<Rightarrow> bool" where
  "has_reply (Served (ReturnError e)) = False"
| "has_reply (Served x) = True"
| "has_reply (ServedThenPanic x p) = True"
| "has_reply (Lost p) = False"

lemma closes_served:
  assumes "closes m" and "PANIC_RECOVER m s = (r, s')" and "has_reply r"
  shows "\<not> x_mysql s'"
proof -
  have "wp m (\<lambda>r s'. case r of
     Ret (Reply x) \<Rightarrow> \<not> x_mysql s' | Ret (ReplyError x) \<Rightarrow> \<not> x_mysql s' | _ \<Rightarrow> True) s"
    using assms(1) by (simp add: closes_def)
  then have "served_wp (PANIC_RECOVER m) (\<lambda>r s'. has_reply r \<longrightarrow> \<not> x_mysql s') s"
    unfolding served_wp_PANIC_RECOVER
    by (rule wp_mono) (auto split: out.splits panic.splits reply.splits)
  from served_wpD [OF this assms(2)] assms(3) show ?thesis by simp
qed

lemma closes_ret_error [intro!]: "closes (RESULT_ERROR n e)" "closes (RESULT_PARAMETER_ERROR e)" "closes (RESULT fs x)"
  by (auto simp: closes_def split: reply.splits)

lemma closes_ReturnError [intro!]: "closes (ret (ReturnError e))"
  by (simp add: closes_def)

lemma closes_panicE [intro!]: "closes (panicE p)"
  by (simp add: closes_def)

lemma closes_bindE [intro!]:
  assumes "\<And>a. closes (f a)"
  shows "closes (bindE m f)"
  unfolding closes_def
proof
  fix s
  show "wp (bindE m f) (\<lambda>r s'. case r of
     Ret (Reply x) \<Rightarrow> \<not> x_mysql s' | Ret (ReplyError x) \<Rightarrow> \<not> x_mysql s' | _ \<Rightarrow> True) s"
    by (rule wp_bindI [of _ "\<lambda>_ _. True"])
      (use assms in \<open>auto simp: closes_def, simp add: wp_def\<close>)
qed

lemma closes_thenE [intro!]: "closes k \<Longrightarrow> closes (thenE m k)"
  unfolding thenE_def by (rule closes_bindE)

lemma closes_if [intro!]: "closes m \<Longrightarrow> closes n \<Longrightarrow> closes (if b then m else n)"
  by simp

lemma closes_case_option [intro!]:
  "closes m \<Longrightarrow> (\<And>a. closes (f a)) \<Longrightarrow> closes (case x of None \<Rightarrow> m | Some a \<Rightarrow> f a)"
  by (cases x) auto

lemma closes_case_sum [intro!]:
  "(\<And>a. closes (f a)) \<Longrightarrow> (\<And>a. closes (g a)) \<Longrightarrow> closes (case x of Inl a \<Rightarrow> f a | Inr a \<Rightarrow> g a)"
  by (cases x) auto

lemma closes_case_prod [intro!]:
  "(\<And>a b. closes (f a b)) \<Longrightarrow> closes (case x of (a, b) \<Rightarrow> f a b)"
  by (cases x) auto

text \<open>A postcondition of the body about its reply holds of the reply served.\<close>

lemma served_replyI:
  assumes "wp m (\<lambda>r s'. \<forall>out. r = Ret (Reply out) \<longrightarrow> Q out s') s"
    and "PANIC_RECOVER m s = (Served (Reply out), s')"
  shows "Q out s'"
proof -
  have "served_wp (PANIC_RECOVER m) (\<lambda>r s'. \<forall>out. r = Served (Reply out) \<longrightarrow> Q out s') s"
    unfolding served_wp_PANIC_RECOVER
    by (rule wp_mono [OF assms(1)]) (auto split: out.splits panic.splits)
  from served_wpD [OF this assms(2)] show ?thesis by simp
qed

text \<open>All replies a body can end with satisfy \<open>P\<close>, from whatever state.\<close>

definition replying :: "('o \<Rightarrow> bool) \<Rightarrow> ('w st, 'o reply) eff \<Rightarrow> bool" where
  "replying P m \<longleftrightarrow> (\<forall>s. wp m (\<lambda>r s'. \<forall>out. r = Ret (Reply out) \<longrightarrow> P out) s)"

lemma replyingD: "replying P m \<Longrightarrow> wp m (\<lambda>r s'. \<forall>out. r = Ret (Reply out) \<longrightarrow> P out) s"
  by (simp add: replying_def)

lemma replying_RESULT: "P x \<Longrightarrow> replying P (RESULT fs (Reply x))"
  by (simp add: replying_def)

lemma replying_error: "replying P (RESULT_ERROR n e)" "replying P (RESULT_PARAMETER_ERROR e)"
  by (simp_all add: replying_def)

lemma replying_bindE: "(\<And>a. replying P (f a)) \<Longrightarrow> replying P (bindE m f)"
proof -
  assume f: "\<And>a. replying P (f a)"
  show "replying P (bindE m f)"
    unfolding replying_def
    by (rule allI, rule wp_bindI [of _ "\<lambda>_ _. True"]) (use f in \<open>simp_all add: replying_def, simp add: wp_def\<close>)
qed

lemma replying_thenE: "replying P k \<Longrightarrow> replying P (thenE m k)"
  unfolding thenE_def by (rule replying_bindE)

lemma replying_if: "replying P m \<Longrightarrow> replying P n \<Longrightarrow> replying P (if b then m else n)"
  by simp

lemma replying_sum:
  "(\<And>a. replying P (f a)) \<Longrightarrow> (\<And>a. replying P (g a)) \<Longrightarrow> replying P (case x of Inl a \<Rightarrow> f a | Inr a \<Rightarrow> g a)"
  by (cases x) auto

lemma replying_prod: "(\<And>a b. replying P (f a b)) \<Longrightarrow> replying P (case x of (a, b) \<Rightarrow> f a b)"
  by (cases x) auto

lemmas replying_intros = replying_RESULT replying_error replying_bindE replying_thenE replying_if replying_sum replying_prod

end
