(* ===== verification/Api_Block.thy ===== *)
theory Api_Block
  imports Api_Context
begin

text \<open>
  The block queries, \<^verbatim>\<open>src/src/api/block_query/**\<close>: the height of the chain, a block by height or by hash
  (from the node, the last one checked against the table), and pages of stored blocks. Every output
  structure extends \<^typ>\<open>BaseOutput\<close>.
\<close>

definition success :: string where
  "success = ''success''"

definition base_flds :: "string list" where
  "base_flds = [''ErrNo'', ''ErrMsg'']"

lemma base_flds_in [simp]: "''ErrNo'' \<in> set (base_flds @ fs)" "''ErrMsg'' \<in> set (base_flds @ fs)"
  "''ErrNo'' \<in> set base_flds" "''ErrMsg'' \<in> set base_flds"
  by (simp_all add: base_flds_def)

section \<open>The height of the chain\<close>

record BlockNumberOutput = BaseOutput +
  BlockNumber :: int64

definition block_number_Main :: "'w env \<Rightarrow> 'w st \<Rightarrow> BlockNumberOutput served \<times> 'w st" where
  "block_number_Main E = PANIC_RECOVER
     (thenE (ctx_Redis E)
     (thenE (ctx_Mysql E)
     (bindE (callE (GetBlockNumber (rpc E))) (\<lambda>r.
      case r of
        Inl e \<Rightarrow> RESULT_ERROR ERR_RPC_ERROR e
      | Inr number \<Rightarrow> RESULT (base_flds @ [''BlockNumber''])
          (Reply \<lparr>ErrNo = 0, ErrMsg = success, BlockNumber = to_int64 number\<rparr>)))))"

section \<open>A block by height\<close>

record BlockDetail =
  Height :: int64
  Timestamp_bd :: int64
  Transactions_bd :: int64
  Hash_bd :: string
  ParentHash_bd :: string
  Miner_bd :: string
  Difficult :: string
  TotalDifficult :: string
  Size_bd :: int64
  GasUsed_bd :: string
  GasLimit_bd :: string
  Nonce_bd :: string
  BlockReward_bd :: string
  BlockFees_bd :: string
  ExtraData_bd :: string
  DeadLine :: string
  Scoop :: string

record BlockDetailOutput = BaseOutput +
  detail :: BlockDetail

definition detail_flds :: "string list" where
  "detail_flds = base_flds @ [''Height'', ''Timestamp'', ''Transactions'', ''Hash'', ''ParentHash'', ''Miner'',
     ''Difficult'', ''TotalDifficult'', ''Size'', ''GasUsed'', ''GasLimit'', ''Nonce'', ''BlockReward'',
     ''BlockFees'', ''ExtraData'', ''DeadLine'', ''Scoop'']"

lemma detail_flds_in [simp]: "''ErrNo'' \<in> set detail_flds" "''ErrMsg'' \<in> set detail_flds"
  by (simp_all add: detail_flds_def)

text \<open>The answer to a failed call of the node: an empty response means there is no such block.\<close>

definition rpc_error :: "string \<Rightarrow> ('w st, 'o reply) eff" where
  "rpc_error e = (if e = EMPTY_RSP then RESULT_ERROR BLOCK_OR_TRANS_NOT_EXIST e else RESULT_ERROR ERR_RPC_ERROR e)"

lemma closes_rpc_error [intro!]: "closes (rpc_error e)"
  by (simp add: rpc_error_def closes_ret_error)

definition block_detail :: "int64 \<Rightarrow> int64 \<Rightarrow> ChainBlock \<Rightarrow> Poc \<Rightarrow> BlockDetail" where
  "block_detail height txn chain_block poc = \<lparr>
     Height = height, Timestamp_bd = to_int64 (Timestamp chain_block), Transactions_bd = txn,
     Hash_bd = Hash chain_block, ParentHash_bd = ParentHash chain_block, Miner_bd = [], Difficult = [],
     TotalDifficult = [], Size_bd = to_int64 (Size chain_block), GasUsed_bd = String (GasUsed chain_block),
     GasLimit_bd = String (GasLimit chain_block), Nonce_bd = [], BlockReward_bd = [], BlockFees_bd = [],
     ExtraData_bd = ExtraData chain_block, DeadLine = String (Deadline poc), Scoop = String (ScoopNumber poc)\<rparr>"

record HeightInput =
  Height_in :: int64

definition get_block_by_height_Main ::
  "'w env \<Rightarrow> HeightInput request \<Rightarrow> 'w st \<Rightarrow> BlockDetailOutput served \<times> 'w st" where
  "get_block_by_height_Main E rq = PANIC_RECOVER
     (thenE (ctx_Redis E)
     (thenE (ctx_Mysql E)
     (case BindInput rq (\<lambda>_. []) of
        Inl e \<Rightarrow> RESULT_PARAMETER_ERROR e
      | Inr input \<Rightarrow>
          bindE (callE (GetBlockByNumber (rpc E) (Height_in input) False)) (\<lambda>r.
          case r of
            Inl e \<Rightarrow> rpc_error e
          | Inr chain_block \<Rightarrow>
              bindE (callE (GetBlockPocByNumber (rpc E) (Height_in input))) (\<lambda>r.
              case r of
                Inl e \<Rightarrow> rpc_error e
              | Inr poc \<Rightarrow> RESULT detail_flds (Reply \<lparr>ErrNo = 0, ErrMsg = success,
                  detail = block_detail (Height_in input) (int (length (Transactions chain_block))) chain_block poc\<rparr>))))))"

section \<open>Pages of blocks\<close>

record PageInput =
  PageIndex :: int64
  PageSize :: int64

record BlockInfo =
  BlockNumber_bi :: int64
  Timestamp_bi :: uint64
  BlockMiner :: string
  BlockReward :: string
  BlockFees :: string
  GasUsed_bi :: string
  GasLimit_bi :: string

record BlocksOutput = BaseOutput +
  Count :: int64
  Blocks :: "BlockInfo list"

definition block_info :: "Block \<Rightarrow> BlockInfo" where
  "block_info block = \<lparr>BlockNumber_bi = F_block block, Timestamp_bi = F_timestamp block,
     BlockMiner = F_miner block, BlockReward = F_reward block, BlockFees = F_fees block,
     GasUsed_bi = F_gas_used block, GasLimit_bi = F_gas_limit block\<rparr>"

text \<open>The offset of a page, in the width of Go's \<^verbatim>\<open>int\<close>.\<close>

definition page_offset :: "int64 \<Rightarrow> int64 \<Rightarrow> int64" where
  "page_offset index sz = to_int64 ((index - 1) * sz)"

definition bad_page :: "int64 \<Rightarrow> int64 \<Rightarrow> bool" where
  "bad_page index sz \<longleftrightarrow> index < 1 \<or> sz \<le> 0"

definition Get_Blocks :: "'w env \<Rightarrow> PageInput request \<Rightarrow> 'w st \<Rightarrow> BlocksOutput served \<times> 'w st" where
  "Get_Blocks E rq = PANIC_RECOVER
     (thenE (ctx_Mysql E)
     (case BindInput rq (\<lambda>_. []) of
        Inl e \<Rightarrow> RESULT_PARAMETER_ERROR e
      | Inr argc \<Rightarrow>
          if bad_page (PageIndex argc) (PageSize argc) then RESULT_ERROR ERR_PARAMETER_INVALID ''param error''
          else
            thenE (ctx_Mysql E)
           (bindE (GetActiveBlockNum E) (\<lambda>(count, err).
            case err of
              Some e \<Rightarrow> RESULT_ERROR BLOCK_COUNT_ERROR (''GetActiveBlockNum error:'' @ e)
            | None \<Rightarrow>
                thenE (ctx_Mysql E)
               (bindE (GetRecentBlocks E (page_offset (PageIndex argc) (PageSize argc)) (PageSize argc)) (\<lambda>(bs, err).
                case err of
                  Some e \<Rightarrow> RESULT_ERROR GET_BLOCKS_ERROR (''GetRecentBlocks error:'' @ e)
                | None \<Rightarrow> RESULT (base_flds @ [''Count'', ''Blocks''])
                    (Reply \<lparr>ErrNo = 0, ErrMsg = success, Count = count, Blocks = map block_info bs\<rparr>)))))))"

section \<open>A block by hash\<close>

record HashInput =
  Hash_in :: string

definition Get_by_hash :: "'w env \<Rightarrow> HashInput request \<Rightarrow> 'w st \<Rightarrow> BlockDetailOutput served \<times> 'w st" where
  "Get_by_hash E rq = PANIC_RECOVER
     (thenE (ctx_Mysql E)
     (case BindInput rq (\<lambda>_. []) of
        Inl e \<Rightarrow> RESULT_PARAMETER_ERROR e
      | Inr argc \<Rightarrow>
          bindE (callE (GetBlockByHash (rpc E) (Hash_in argc) False)) (\<lambda>r.
          case r of
            Inl e \<Rightarrow> rpc_error e
          | Inr chain_block \<Rightarrow>
              bindE (callE (GetBlockPocByNumber (rpc E) (Number chain_block))) (\<lambda>r.
              case r of
                Inl e \<Rightarrow> rpc_error e
              | Inr poc \<Rightarrow>
                  thenE (ctx_Mysql E)
                 (bindE (GetBlockByHash_db E (Hash_in argc)) (\<lambda>(bs, err).
                  case err of
                    Some e \<Rightarrow> RESULT_ERROR GET_BLOCKS_ERROR
                      (''GetBlockByHash error:'' @ e @ '',hash:'' @ Hash_in argc)
                  | None \<Rightarrow>
                      (case bs of
                         [] \<Rightarrow> RESULT_ERROR BLOCK_OR_TRANS_NOT_EXIST (''the block not exist,hash:'' @ Hash_in argc)
                       | block # _ \<Rightarrow> RESULT detail_flds (Reply \<lparr>ErrNo = 0, ErrMsg = success,
                           detail = block_detail (F_block block) (F_txn block) chain_block poc\<rparr>))))))))"

section \<open>Properties of the paged query\<close>

text \<open>Pages of a sorted list depend on the keys only.\<close>

lemma sorted_desc_keys:
  fixes k :: "'a \<Rightarrow> int"
  assumes "sorted_wrt (\<lambda>a b. k b \<le> k a) xs"
  shows "map k xs = rev (sorted_list_of_multiset (mset (map k xs)))"
proof -
  have "sorted_wrt (\<lambda>a b. b \<le> a) (map k xs)" using assms by (simp add: sorted_wrt_map)
  then have s: "sorted (rev (map k xs))" by (simp add: sorted_wrt_rev)
  have "sort (map k xs) = rev (map k xs)"
    by (rule properties_for_sort [OF _ s]) simp
  then show ?thesis by (simp only: sorted_list_of_multiset_mset rev_rev_ident)
qed

lemma map_page: "map f (page off n xs) = page off n (map f xs)"
  by (simp add: page_def Let_def take_map drop_map)

text \<open>What the bodies of the paged handlers see of the database.\<close>

lemma ctx_Mysql_wp:
  assumes "gorm_db E db snap"
  shows "wp (ctx_Mysql E) (\<lambda>r s'. db (ext s') = db (ext s) \<and> (case r of Ret u \<Rightarrow> True | Panic p \<Rightarrow> (\<exists>e. p = PStr e))) s"
  using gorm_db.open_db [OF assms]
  by (auto simp: ctx_Mysql_def wp_simps split: prod.splits option.splits)

text \<open>The common shape of the paged handlers: count, then fetch a page. \<open>P\<close> selects the rows and \<open>k\<close> orders
  them; the rows of the page are those the sorted list has there.\<close>

definition paged ::
  "'w env \<Rightarrow> (string + 'i) \<Rightarrow> ('i \<Rightarrow> int64) \<Rightarrow> ('i \<Rightarrow> int64) \<Rightarrow> ('i \<Rightarrow> ('w st, int64 \<times> go_error) eff) \<Rightarrow> int \<Rightarrow>
     ('i \<Rightarrow> string \<Rightarrow> string) \<Rightarrow> ('i \<Rightarrow> int64 \<Rightarrow> int64 \<Rightarrow> ('w st, 'r list \<times> go_error) eff) \<Rightarrow> int \<Rightarrow>
     ('i \<Rightarrow> string \<Rightarrow> string) \<Rightarrow> string list \<Rightarrow> (int64 \<Rightarrow> 'r list \<Rightarrow> 'o) \<Rightarrow> ('w st, 'o reply) eff" where
  "paged E input idx sz cnt n1 m1 fnd n2 m2 fs mk =
     thenE (ctx_Mysql E)
     (case input of
        Inl e \<Rightarrow> RESULT_PARAMETER_ERROR e
      | Inr argc \<Rightarrow>
          if bad_page (idx argc) (sz argc) then RESULT_ERROR ERR_PARAMETER_INVALID ''param error''
          else
            thenE (ctx_Mysql E)
           (bindE (cnt argc) (\<lambda>(count, err).
            case err of
              Some e \<Rightarrow> RESULT_ERROR n1 (m1 argc e)
            | None \<Rightarrow>
                thenE (ctx_Mysql E)
               (bindE (fnd argc (page_offset (idx argc) (sz argc)) (sz argc)) (\<lambda>(bs, err).
                case err of
                  Some e \<Rightarrow> RESULT_ERROR n2 (m2 argc e)
                | None \<Rightarrow> RESULT (base_flds @ fs) (Reply (mk count bs)))))))"

lemma closes_paged: "closes (paged E input idx sz cnt n1 m1 fnd n2 m2 fs mk)"
  unfolding paged_def by auto

text \<open>What the count and the page promise about the rows they select.\<close>

definition page_of :: "('r \<Rightarrow> int) \<Rightarrow> 'r multiset \<Rightarrow> int \<Rightarrow> int \<Rightarrow> 'r list \<Rightarrow> bool" where
  "page_of k M off n rs \<longleftrightarrow> (\<exists>xs. mset xs = M \<and> sorted_wrt (\<lambda>a b. k b \<le> k a) xs \<and> rs = page off n xs)"

lemma page_of_keys:
  assumes "page_of k M off n rs"
  shows "map k rs = page off n (rev (sorted_list_of_multiset (image_mset k M)))"
    and "set rs \<subseteq> set_mset M"
proof -
  obtain xs where xs: "mset xs = M" "sorted_wrt (\<lambda>a b. k b \<le> k a) xs" "rs = page off n xs"
    using assms unfolding page_of_def by blast
  from sorted_desc_keys [OF xs(2)] xs(1) have "map k xs = rev (sorted_list_of_multiset (image_mset k M))"
    by (simp only: mset_map)
  with xs(3) show "map k rs = page off n (rev (sorted_list_of_multiset (image_mset k M)))"
    by (simp add: map_page)
  show "set rs \<subseteq> set_mset M"
    using set_page [of off n xs] xs by (metis set_mset_mset)
qed

lemma paged_wp:
  assumes db: "gorm_db E db snap"
    and cnt: "\<And>argc s. wp (cnt argc) (\<lambda>r s'. db (ext s') = db (ext s) \<and>
      (\<forall>c. r = Ret (c, None) \<longrightarrow> c = int (size (M argc (db (ext s)))))) s"
    and fnd: "\<And>argc off n s. wp (fnd argc off n) (\<lambda>r s'. db (ext s') = db (ext s) \<and>
      (\<forall>rs. r = Ret (rs, None) \<longrightarrow> page_of k (M argc (db (ext s))) off n rs)) s"
  shows "wp (paged E input idx sz cnt n1 m1 fnd n2 m2 fs mk) (\<lambda>r s'. db (ext s') = db (ext s) \<and>
    (\<forall>out. r = Ret (Reply out) \<longrightarrow> (\<exists>argc rs. input = Inr argc \<and> \<not> bad_page (idx argc) (sz argc) \<and>
       out = mk (int (size (M argc (db (ext s))))) rs \<and>
       page_of k (M argc (db (ext s))) (page_offset (idx argc) (sz argc)) (sz argc) rs))) s"
  unfolding paged_def
proof (rule wp_thenI [OF ctx_Mysql_wp [OF db]], goal_cases)
  case (1 u s1)
  show ?case
  proof (cases input)
    case (Inr argc)
    have "wp (thenE (ctx_Mysql E) (bindE (cnt argc) (\<lambda>(count, err).
            case err of
              Some e \<Rightarrow> RESULT_ERROR n1 (m1 argc e)
            | None \<Rightarrow>
                thenE (ctx_Mysql E)
               (bindE (fnd argc (page_offset (idx argc) (sz argc)) (sz argc)) (\<lambda>(bs, err).
                case err of
                  Some e \<Rightarrow> RESULT_ERROR n2 (m2 argc e)
                | None \<Rightarrow> RESULT (base_flds @ fs) (Reply (mk count bs)))))))
      (\<lambda>r s'. db (ext s') = db (ext s) \<and> (\<forall>out. r = Ret (Reply out) \<longrightarrow> (\<exists>rs.
         out = mk (int (size (M argc (db (ext s))))) rs \<and>
         page_of k (M argc (db (ext s))) (page_offset (idx argc) (sz argc)) (sz argc) rs))) s1"
      apply (rule wp_thenI [OF ctx_Mysql_wp [OF db]], rule wp_bindI [OF cnt])
      subgoal for u s2 x s3
        apply (cases x; cases "snd x")
         apply (simp_all add: 1)
        apply (rule wp_thenI [OF ctx_Mysql_wp [OF db]], rule wp_bindI [OF fnd])
        apply (auto simp: 1 split: option.splits)
        done
      by (auto simp: 1)
    then show ?thesis by (auto simp: Inr 1 elim!: wp_mono)
  qed (use 1 in simp)
qed auto

context gorm_db
begin

lemma GetActiveBlockNum_wp:
  "wp (GetActiveBlockNum E) (\<lambda>r s'. db (ext s') = db (ext s) \<and>
     (\<forall>c. r = Ret (c, None) \<longrightarrow> c = int (size {# b \<in># blocks (db (ext s)). F_status b = NORMAL #}))) s"
  by (auto simp: GetActiveBlockNum_def wp_simps blk_count_frame split: prod.splits qres.splits dest: blk.count_rows)

lemma GetRecentBlocks_wp:
  "wp (GetRecentBlocks E off n) (\<lambda>r s'. db (ext s') = db (ext s) \<and>
     (\<forall>rs. r = Ret (rs, None) \<longrightarrow> page_of F_block {# b \<in># blocks (db (ext s)). F_status b = NORMAL #} off n rs)) s"
  by (auto simp: GetRecentBlocks_def wp_simps blk_find_frame page_of_def split: prod.splits qres.splits dest!: blk.find_page)

end

lemma Get_Blocks_paged:
  "Get_Blocks E rq = PANIC_RECOVER (paged E (BindInput rq (\<lambda>_. [])) PageIndex PageSize
     (\<lambda>_. GetActiveBlockNum E) BLOCK_COUNT_ERROR (\<lambda>_ e. ''GetActiveBlockNum error:'' @ e)
     (\<lambda>_. GetRecentBlocks E) GET_BLOCKS_ERROR (\<lambda>_ e. ''GetRecentBlocks error:'' @ e) [''Count'', ''Blocks'']
     (\<lambda>count bs. \<lparr>ErrNo = 0, ErrMsg = success, Count = count, Blocks = map block_info bs\<rparr>))"
  unfolding Get_Blocks_def paged_def by (rule refl)

text \<open>A served page: what the postcondition of the body says of the reply.\<close>

lemma served_reply:
  assumes "wp m (\<lambda>r s'. D s' \<and> (\<forall>out. r = Ret (Reply out) \<longrightarrow> Q out)) s"
    and "PANIC_RECOVER m s = (Served (Reply out), s')"
  shows "Q out \<and> D s'"
proof -
  have "served_wp (PANIC_RECOVER m) (\<lambda>r s'. \<forall>out. r = Served (Reply out) \<longrightarrow> Q out \<and> D s') s"
    unfolding served_wp_PANIC_RECOVER
    by (rule wp_mono [OF assms(1)]) (auto split: out.splits panic.splits)
  from served_wpD [OF this assms(2)] show ?thesis by simp
qed

lemma Get_Blocks_reply:
  assumes db: "gorm_db E db snap" and run: "Get_Blocks E rq s = (Served (Reply out), s')"
  shows "\<exists>argc. BindInput rq (\<lambda>_. []) = Inr argc \<and> \<not> bad_page (PageIndex argc) (PageSize argc) \<and>
     ErrNo out = 0 \<and> Count out = int (size {# b \<in># blocks (db (ext s)). F_status b = NORMAL #}) \<and>
     map BlockNumber_bi (Blocks out) = page (page_offset (PageIndex argc) (PageSize argc)) (PageSize argc)
       (rev (sorted_list_of_multiset {# F_block b. b \<in># {# b \<in># blocks (db (ext s)). F_status b = NORMAL #} #})) \<and>
     set (Blocks out) \<subseteq> block_info ` set_mset {# b \<in># blocks (db (ext s)). F_status b = NORMAL #} \<and>
     db (ext s') = db (ext s)"
proof -
  let ?M = "\<lambda>D. {# b \<in># blocks D. F_status b = NORMAL #}"
  have k: "BlockNumber_bi \<circ> block_info = F_block" by (simp add: fun_eq_iff block_info_def)
  note wp = paged_wp [OF db, of "\<lambda>_. GetActiveBlockNum E" "\<lambda>_ D. ?M D" "\<lambda>_. GetRecentBlocks E" F_block,
      OF gorm_db.GetActiveBlockNum_wp [OF db] gorm_db.GetRecentBlocks_wp [OF db]]
  obtain argc rs where "BindInput rq (\<lambda>_. []) = Inr argc" "\<not> bad_page (PageIndex argc) (PageSize argc)"
    and out: "out = \<lparr>ErrNo = 0, ErrMsg = success, Count = int (size (?M (db (ext s)))), Blocks = map block_info rs\<rparr>"
    and rs: "page_of F_block (?M (db (ext s))) (page_offset (PageIndex argc) (PageSize argc)) (PageSize argc) rs"
    and "db (ext s') = db (ext s)"
    using served_reply [OF wp run [unfolded Get_Blocks_paged]] by auto
  with page_of_keys [OF rs] show ?thesis by (auto simp: k)
qed

text \<open>The offset of a page is the intended one exactly as long as it fits 64 bits; beyond that it wraps around.\<close>

lemma page_offset_bounds:
  assumes "1 \<le> index" and "0 < sz"
  shows "page_offset index sz = (index - 1) * sz \<longleftrightarrow> (index - 1) * sz < 2 ^ 63"
proof
  assume "page_offset index sz = (index - 1) * sz"
  with to_int64_range [of "(index - 1) * sz"] show "(index - 1) * sz < 2 ^ 63"
    by (simp add: page_offset_def in_int64_def)
next
  assume "(index - 1) * sz < 2 ^ 63"
  moreover have "0 \<le> (index - 1) * sz" using assms by simp
  ultimately show "page_offset index sz = (index - 1) * sz"
    by (simp add: page_offset_def to_int64_id in_int64_def)
qed

end
