(* ===== verification/Api_Transaction.thy ===== *)
theory Api_Transaction
  imports Api_Block Sync_Block
begin

text \<open>
  The transaction queries, \<^verbatim>\<open>src/src/api/transaction/**\<close>: pages of stored transactions, the pages of one
  address mixed with the pending transactions of the node, a transaction by hash, the pending
  transactions of an address or with a hash. Ranging over the maps of the pool follows
  \<^const>\<open>order_pending\<close> and \<^const>\<open>order_txs\<close>.
\<close>

section \<open>Pages of transactions\<close>

record TransInfo =
  TXHash :: string
  BlockNumber_ti :: int64
  Timestamp_ti :: int64
  From_ti :: string
  To_ti :: string
  Value_ti :: string
  TxFee :: string
  Nonce_ti :: int64
  TxType :: int64
  TxTypeExt :: string

record TransOutput = BaseOutput +
  Count_to :: int64
  Transactions_to :: "TransInfo list"

record AddrInput = PageInput +
  Addr :: string

record HeightPageInput = PageInput +
  Height_hp :: int64

definition trans_info :: "Transaction \<Rightarrow> TransInfo" where
  "trans_info tran = \<lparr>TXHash = F_tx_hash tran, BlockNumber_ti = F_block_t tran,
     Timestamp_ti = F_timestamp_t tran, From_ti = F_from tran, To_ti = F_to tran, Value_ti = F_value tran,
     TxFee = F_tx_fee tran, Nonce_ti = 0, TxType = 0, TxTypeExt = []\<rparr>"

definition trans_output :: "int64 \<Rightarrow> TransInfo list \<Rightarrow> TransOutput" where
  "trans_output n ts = \<lparr>ErrNo = 0, ErrMsg = success, Count_to = n, Transactions_to = ts\<rparr>"

definition Get_transactions :: "'w env \<Rightarrow> PageInput request \<Rightarrow> 'w st \<Rightarrow> TransOutput served \<times> 'w st" where
  "Get_transactions E rq = PANIC_RECOVER
     (thenE (ctx_Mysql E)
     (case BindInput rq (\<lambda>_. []) of
        Inl e \<Rightarrow> RESULT_PARAMETER_ERROR e
      | Inr argc \<Rightarrow>
          if bad_page (PageIndex argc) (PageSize argc) then RESULT_ERROR ERR_PARAMETER_INVALID ''param error''
          else
            thenE (ctx_Mysql E)
           (bindE (GetTransactionsCount E) (\<lambda>(count, err).
            case err of
              Some e \<Rightarrow> RESULT_ERROR TRANSACTION_COUNT_ERROR (''GetTransactionsCount error:'' @ e)
            | None \<Rightarrow>
                thenE (ctx_Mysql E)
               (bindE (GetTransactions E (page_offset (PageIndex argc) (PageSize argc)) (PageSize argc)) (\<lambda>(transList, err).
                case err of
                  Some e \<Rightarrow> RESULT_ERROR GET_TRANSACTIONS_ERROR (''GetRecentBlocks error:'' @ e)
                | None \<Rightarrow> RESULT (base_flds @ [''Count'', ''Transactions''])
                    (Reply (trans_output count (map trans_info transList)))))))))"

definition Get_by_addr :: "'w env \<Rightarrow> AddrInput request \<Rightarrow> 'w st \<Rightarrow> TransOutput served \<times> 'w st" where
  "Get_by_addr E rq = PANIC_RECOVER
     (thenE (ctx_Mysql E)
     (case BindInput rq (\<lambda>_. []) of
        Inl e \<Rightarrow> RESULT_PARAMETER_ERROR e
      | Inr argc \<Rightarrow>
          if bad_page (PageIndex argc) (PageSize argc) then RESULT_ERROR ERR_PARAMETER_INVALID ''param error''
          else
            thenE (ctx_Mysql E)
           (bindE (GetTransactionsCountByAddr E (Addr argc)) (\<lambda>(count, err).
            case err of
              Some e \<Rightarrow> RESULT_ERROR TRANSACTION_COUNT_ERROR
                (''GetTransactionsCountByAddr error:'' @ e @ '',addr:'' @ Addr argc)
            | None \<Rightarrow>
                thenE (ctx_Mysql E)
               (bindE (GetTransactionsByAddr E (Addr argc) (page_offset (PageIndex argc) (PageSize argc)) (PageSize argc)) (\<lambda>(transList, err).
                case err of
                  Some e \<Rightarrow> RESULT_ERROR GET_TRANSACTIONS_ERROR
                    (''GetTransactionsByAddr error:'' @ e @ '',addr:'' @ Addr argc)
                | None \<Rightarrow> RESULT (base_flds @ [''Count'', ''Transactions''])
                    (Reply (trans_output count (map trans_info transList)))))))))"

definition Get_by_height :: "'w env \<Rightarrow> HeightPageInput request \<Rightarrow> 'w st \<Rightarrow> TransOutput served \<times> 'w st" where
  "Get_by_height E rq = PANIC_RECOVER
     (thenE (ctx_Mysql E)
     (case BindInput rq (\<lambda>_. []) of
        Inl e \<Rightarrow> RESULT_PARAMETER_ERROR e
      | Inr argc \<Rightarrow>
          if bad_page (PageIndex argc) (PageSize argc) then RESULT_ERROR ERR_PARAMETER_INVALID ''param error''
          else
            thenE (ctx_Mysql E)
           (bindE (GetTransactionsCountByHeight E (Height_hp argc)) (\<lambda>(count, err).
            case err of
              Some e \<Rightarrow> RESULT_ERROR TRANSACTION_COUNT_ERROR
                (''GetActiveBlockNum error:'' @ e @ '',height:'' @ String (Height_hp argc))
            | None \<Rightarrow>
                thenE (ctx_Mysql E)
               (bindE (GetTransactionsByHeight E (Height_hp argc) (page_offset (PageIndex argc) (PageSize argc)) (PageSize argc)) (\<lambda>(transList, err).
                case err of
                  Some e \<Rightarrow> RESULT_ERROR GET_TRANSACTIONS_ERROR
                    (''GetRecentBlocks error:'' @ e @ '',height:'' @ String (Height_hp argc))
                | None \<Rightarrow> RESULT (base_flds @ [''Count'', ''Transactions''])
                    (Reply (trans_output count (map trans_info transList)))))))))"

section \<open>The pending transactions of an address\<close>

text \<open>All transactions of the pool, in the order the nested loops visit them.\<close>

definition pool_txs :: "'w env \<Rightarrow> Content \<Rightarrow> TransactionResponse list" where
  "pool_txs E content = concat (map (\<lambda>e. map snd (order_txs E (snd e))) (order_pending E (Pending content)))"

definition of_addr :: "string \<Rightarrow> TransactionResponse \<Rightarrow> bool" where
  "of_addr addr tx \<longleftrightarrow> ToLower (From tx) = ToLower addr \<or> ToLower (To tx) = ToLower addr"

definition type_matches :: "string \<Rightarrow> int64 \<Rightarrow> TransactionResponse \<Rightarrow> int64 \<Rightarrow> bool" where
  "type_matches addr txtype tx F_type \<longleftrightarrow>
     txtype = TX_TYPE_ALL \<or>
     (txtype = TX_TYPE_ME_MORTGAGE \<and> F_type = TX_TYPE_ME_MORTGAGE) \<or>
     (txtype = TX_TYPE_ME_REDEEM \<and> F_type = TX_TYPE_ME_REDEEM) \<or>
     (txtype = TX_TYPE_QUERY_3OR4 \<and> (F_type = TX_TYPE_ME_REDEEM \<or> F_type = TX_TYPE_ME_MORTGAGE)) \<or>
     (txtype = TX_TYPE_FROM_ME \<and> ToLower (From tx) = ToLower addr) \<or>
     (txtype = TX_TYPE_TO_ME \<and> ToLower (To tx) = ToLower addr)"

definition pending_row :: "TransactionResponse \<Rightarrow> int64 \<times> string \<Rightarrow> string \<Rightarrow> Transaction" where
  "pending_row tx ty t = zero_Transaction\<lparr>F_tx_type := fst ty, F_tx_type_ext := snd ty, F_from := From tx,
     F_to := To tx, F_block_t := -2, F_modify_time_t := t, F_create_time_t := t, F_id_t := 0,
     F_timestamp_t := 0, F_tx_fee := String (GasPrice tx * Gas tx), F_tx_hash := Hash_tr tx,
     F_value := String (Value tx)\<rparr>"

fun pending_loop :: "'w env \<Rightarrow> string \<Rightarrow> int64 \<Rightarrow> TransactionResponse list \<Rightarrow> Transaction list \<Rightarrow> ('w st, Transaction list) eff" where
  "pending_loop E addr txtype [] acc = ret acc"
| "pending_loop E addr txtype (tx # ts) acc =
     (if of_addr addr tx then
        bindE (CalcTransactionType tx) (\<lambda>ty.
        bindE (call (now_text E)) (\<lambda>t.
        if type_matches addr txtype tx (fst ty)
        then pending_loop E addr txtype ts (acc @ [pending_row tx ty t])
        else pending_loop E addr txtype ts acc))
      else pending_loop E addr txtype ts acc)"

definition get_pending :: "'w env \<Rightarrow> string \<Rightarrow> int64 \<Rightarrow> ('w st, string + Transaction list) eff" where
  "get_pending E addr txtype =
     bindE (callE (TxpoolContent (rpc E))) (\<lambda>r.
     case r of
       Inl e \<Rightarrow> ret (Inl e)
     | Inr content \<Rightarrow> bindE (pending_loop E addr txtype (pool_txs E content) []) (\<lambda>l. ret (Inr l)))"

section \<open>The transactions of an address by type\<close>

record AddrTypeInput = AddrInput +
  TxType_in :: int64

text \<open>\<^verbatim>\<open>xs[0:hi]\<close>: a panic for a negative bound or one beyond the capacity; between length and capacity
  the slice is filled up with zero values. \<open>cap n\<close> is the capacity the runtime gives a slice that \<open>n\<close>
  appends have built.\<close>

definition slice_to :: "(nat \<Rightarrow> nat) \<Rightarrow> 'a \<Rightarrow> 'a list \<Rightarrow> int64 \<Rightarrow> ('s, 'a list) eff" where
  "slice_to cap z xs hi =
     (if hi < 0 \<or> hi > int (cap (length xs)) then panicE slice_bounds
      else ret (take (nat hi) (xs @ replicate (nat hi - length xs) z)))"

text \<open>The three ways a page meets the list of pending transactions: behind it, over its end, inside it.
  The offset is reset before it is used in the slice expressions.\<close>

definition split_page ::
  "(nat \<Rightarrow> nat) \<Rightarrow> int64 \<Rightarrow> int64 \<Rightarrow> Transaction list \<Rightarrow> ('s, int64 \<times> int64 \<times> Transaction list) eff" where
  "split_page cap offset sz pendingList =
     (let pendingLen = int (length pendingList) in
      if pendingLen \<le> offset then ret (to_int64 (offset - pendingLen), sz, [])
      else if pendingLen > offset \<and> pendingLen \<le> to_int64 (offset + sz) then
        ret (0, to_int64 (sz - pendingLen), pendingList)
      else if pendingLen > to_int64 (offset + sz) then
        (let sz' = to_int64 (sz - pendingLen) in
         bindE (slice_to cap zero_Transaction pendingList sz') (\<lambda>l. ret (0, sz', l)))
      else ret (offset, sz, []))"

definition typed_info :: "string \<Rightarrow> Transaction \<Rightarrow> TransInfo" where
  "typed_info addr tran =
     (let info = (trans_info tran)\<lparr>TxTypeExt := F_tx_type_ext tran\<rparr> in
      if F_tx_type tran = 0 \<and> ToUpper (F_from tran) = ToUpper addr then
        info\<lparr>TxType := TX_TYPE_FROM_ME, TxTypeExt := F_value tran\<rparr>
      else if F_tx_type tran = 0 \<and> ToUpper (F_to tran) = ToUpper addr then
        info\<lparr>TxType := TX_TYPE_TO_ME, TxTypeExt := F_value tran\<rparr>
      else info\<lparr>TxType := F_tx_type tran\<rparr>)"

definition Get_by_addr_and_type ::
  "'w env \<Rightarrow> (nat \<Rightarrow> nat) \<Rightarrow> AddrTypeInput request \<Rightarrow> 'w st \<Rightarrow> TransOutput served \<times> 'w st" where
  "Get_by_addr_and_type E cap rq = PANIC_RECOVER
     (thenE (ctx_Mysql E)
     (case BindInput rq (\<lambda>_. []) of
        Inl e \<Rightarrow> RESULT_PARAMETER_ERROR e
      | Inr argc \<Rightarrow>
          if bad_page (PageIndex argc) (PageSize argc) then RESULT_ERROR ERR_PARAMETER_INVALID ''param error''
          else
            bindE (get_pending E (Addr argc) (TxType_in argc)) (\<lambda>r.
            case r of
              Inl e \<Rightarrow> RESULT_ERROR GET_TRANSACTIONS_ERROR (''get_pending error:'' @ e @ '',addr:'' @ Addr argc)
            | Inr pendingList \<Rightarrow>
                bindE (split_page cap (page_offset (PageIndex argc) (PageSize argc)) (PageSize argc) pendingList)
                  (\<lambda>(offset, sz, allList).
                thenE (ctx_Mysql E)
               (bindE (GetTransactionsByAddrAndType E (Addr argc) (TxType_in argc) offset sz) (\<lambda>(dbTransList, count, err).
                case err of
                  Some e \<Rightarrow> RESULT_ERROR GET_TRANSACTIONS_ERROR
                    (''GetTransactionsByAddr error:'' @ e @ '',addr:'' @ Addr argc)
                | None \<Rightarrow> RESULT (base_flds @ [''Count'', ''Transactions''])
                    (Reply (trans_output count (map (typed_info (Addr argc)) (allList @ dbTransList))))))))))"

section \<open>A transaction by hash\<close>

record TransactionDetail =
  TxHash_td :: string
  TxReceiptStatus :: bool
  Height_td :: int64
  TimeStamp :: int64
  From_td :: string
  To_td :: string
  Value_td :: string
  GasLimit_td :: string
  GasUsedByTx :: string
  GasPrice_td :: string
  ActualTxCost :: string
  Nonce_td :: int64
  TransactionIndex_td :: int64
  InputData :: string

record DetailOutput = BaseOutput +
  tx_detail :: TransactionDetail

definition detail_out_flds :: "string list" where
  "detail_out_flds = base_flds @ [''TxHash'', ''TxReceiptStatus'', ''Height'', ''TimeStamp'', ''From'', ''To'',
     ''Value'', ''GasLimit'', ''GasUsedByTx'', ''GasPrice'', ''ActualTxCost'', ''Nonce'', ''TransactionIndex'', ''InputData'']"

lemma detail_out_flds_in [simp]: "''ErrNo'' \<in> set detail_out_flds" "''ErrMsg'' \<in> set detail_out_flds"
  by (simp_all add: detail_out_flds_def)

definition tx_details :: "string \<Rightarrow> TransactionResponse \<Rightarrow> ChainBlock \<Rightarrow> TransactionReceipt \<Rightarrow> TransactionDetail" where
  "tx_details hash transaction blockbynumber receipt = \<lparr>
     TxHash_td = hash, TxReceiptStatus = True, Height_td = to_int64 (BlockNumber_tr transaction),
     TimeStamp = to_int64 (Timestamp blockbynumber), From_td = From transaction, To_td = To transaction,
     Value_td = String (Value transaction), GasLimit_td = String (Gas transaction),
     GasUsedByTx = String (GasUsed_rc receipt), GasPrice_td = String (GasPrice transaction),
     ActualTxCost = String (GasUsed_rc receipt * GasPrice transaction), Nonce_td = to_int64 (Nonce_tr transaction),
     TransactionIndex_td = to_int64 (TransactionIndex_tr transaction), InputData = Input transaction\<rparr>"

definition get_transaction_by_hash_Main ::
  "'w env \<Rightarrow> HashInput request \<Rightarrow> 'w st \<Rightarrow> DetailOutput served \<times> 'w st" where
  "get_transaction_by_hash_Main E rq = PANIC_RECOVER
     (thenE (ctx_Redis E)
     (thenE (ctx_Mysql E)
     (case BindInput rq (\<lambda>i. [(''Hash'', Hash_in i)]) of
        Inl e \<Rightarrow> RESULT_PARAMETER_ERROR e
      | Inr input \<Rightarrow>
          bindE (callE (GetTransactionByHash (rpc E) (Hash_in input))) (\<lambda>r.
          case r of
            Inl e \<Rightarrow> RESULT_ERROR BLOCK_OR_TRANS_NOT_EXIST e
          | Inr transaction \<Rightarrow>
              bindE (callE (GetBlockByNumber (rpc E) (BlockNumber_tr transaction) False)) (\<lambda>r.
              case r of
                Inl e \<Rightarrow> rpc_error e
              | Inr blockbynumber \<Rightarrow>
                  bindE (callE (GetTransactionReceipt (rpc E) (Hash_in input))) (\<lambda>r.
                  case r of
                    Inl e \<Rightarrow> rpc_error e
                  | Inr receipt \<Rightarrow> RESULT detail_out_flds (Reply \<lparr>ErrNo = 0, ErrMsg = success,
                      tx_detail = tx_details (Hash_in input) transaction blockbynumber receipt\<rparr>)))))))"

section \<open>Pending transactions\<close>

record AddrOnlyInput =
  Addr_in :: string

record PendingOutput = BaseOutput +
  PenddingList :: "TransInfo list"

definition pending_info :: "TransactionResponse \<Rightarrow> TransInfo" where
  "pending_info tx = \<lparr>TXHash = Hash_tr tx, BlockNumber_ti = 0, Timestamp_ti = 0, From_ti = From tx,
     To_ti = To tx, Value_ti = String (Value tx), TxFee = String (GasPrice tx * Gas tx),
     Nonce_ti = to_int64 (Nonce_tr tx), TxType = 0, TxTypeExt = []\<rparr>"

definition get_addr_pending_Main ::
  "'w env \<Rightarrow> AddrOnlyInput request \<Rightarrow> 'w st \<Rightarrow> PendingOutput served \<times> 'w st" where
  "get_addr_pending_Main E rq = PANIC_RECOVER
     (thenE (ctx_Redis E)
     (thenE (ctx_Mysql E)
     (case BindInput rq (\<lambda>i. [(''Addr'', Addr_in i)]) of
        Inl e \<Rightarrow> RESULT_PARAMETER_ERROR e
      | Inr input \<Rightarrow>
          bindE (callE (TxpoolContent (rpc E))) (\<lambda>r.
          case r of
            Inl e \<Rightarrow> ret (ReturnError e)
          | Inr content \<Rightarrow> RESULT (base_flds @ [''PenddingList''])
              (Reply \<lparr>ErrNo = 0, ErrMsg = success, PenddingList = map pending_info
                 (filter (\<lambda>tx. From tx = ToLower (Addr_in input) \<or> To tx = ToLower (Addr_in input))
                    (pool_txs E content))\<rparr>)))))"

definition zero_detail :: TransactionDetail where
  "zero_detail = \<lparr>TxHash_td = [], TxReceiptStatus = False, Height_td = 0, TimeStamp = 0, From_td = [],
     To_td = [], Value_td = [], GasLimit_td = [], GasUsedByTx = [], GasPrice_td = [], ActualTxCost = [],
     Nonce_td = 0, TransactionIndex_td = 0, InputData = []\<rparr>"

fun hash_loop :: "string \<Rightarrow> TransactionResponse list \<Rightarrow> TransactionDetail \<Rightarrow> TransactionDetail" where
  "hash_loop hash [] output = output"
| "hash_loop hash (tx # ts) output =
     (if Hash_tr tx = ToLower hash then
        hash_loop hash ts (output\<lparr>TxHash_td := hash, From_td := From tx, To_td := To tx,
          Value_td := String (Value tx), Nonce_td := to_int64 (Nonce_tr tx)\<rparr>)
      else hash_loop hash ts output)"

definition get_hash_pending_Main ::
  "'w env \<Rightarrow> HashInput request \<Rightarrow> 'w st \<Rightarrow> DetailOutput served \<times> 'w st" where
  "get_hash_pending_Main E rq = PANIC_RECOVER
     (thenE (ctx_Redis E)
     (thenE (ctx_Mysql E)
     (case BindInput rq (\<lambda>i. [(''Hash'', Hash_in i)]) of
        Inl e \<Rightarrow> RESULT_PARAMETER_ERROR e
      | Inr input \<Rightarrow>
          bindE (callE (TxpoolContent (rpc E))) (\<lambda>r.
          case r of
            Inl e \<Rightarrow> ret (ReturnError e)
          | Inr content \<Rightarrow> RESULT detail_out_flds (Reply \<lparr>ErrNo = 0, ErrMsg = success,
              tx_detail = hash_loop (Hash_in input) (pool_txs E content) zero_detail\<rparr>)))))"

section \<open>Properties of the paged queries\<close>

context gorm_db
begin

lemma tx_count_wp:
  "wp (bindE (call (tbl_count (t_transaction E) P)) (found_or_error who 0)) (\<lambda>r s'. db (ext s') = db (ext s) \<and>
     (\<forall>c. r = Ret (c, None) \<longrightarrow> c = int (size {# t \<in># txs (db (ext s)). P t #}))) s"
  by (auto simp: wp_simps trx_count_frame split: prod.splits qres.splits dest: trx.count_rows)

lemma tx_page_wp:
  "wp (bindE (call (tbl_find (t_transaction E) P (Some k) (Some (off, n)))) (found_or_error who [])) (\<lambda>r s'.
     db (ext s') = db (ext s) \<and>
     (\<forall>rs. r = Ret (rs, None) \<longrightarrow> page_of k {# t \<in># txs (db (ext s)). P t #} off n rs)) s"
  by (auto simp: wp_simps trx_find_frame page_of_def split: prod.splits qres.splits dest!: trx.find_page)

end

text \<open>What a served page of transactions is: \<open>P\<close> selects the rows, newest first.\<close>

definition tx_page_reply ::
  "('w \<Rightarrow> dbst) \<Rightarrow> (Transaction \<Rightarrow> bool) \<Rightarrow> int64 \<Rightarrow> int64 \<Rightarrow> 'w st \<Rightarrow> TransOutput \<Rightarrow> 'w st \<Rightarrow> bool" where
  "tx_page_reply db P index sz s out s' \<longleftrightarrow>
     (let M = {# t \<in># txs (db (ext s)). P t #} in
      ErrNo out = 0 \<and> Count_to out = int (size M) \<and>
      map Timestamp_ti (Transactions_to out) =
        page (page_offset index sz) sz (rev (sorted_list_of_multiset (image_mset F_timestamp_t M))) \<and>
      set (Transactions_to out) \<subseteq> trans_info ` set_mset M \<and> db (ext s') = db (ext s))"

lemma tx_paged_reply:
  assumes db: "gorm_db E db snap"
    and cnt: "\<And>a. cnt a = bindE (call (tbl_count (t_transaction E) (P a))) (found_or_error (who a) 0)"
    and fnd: "\<And>a off n. fnd a off n = bindE (call (tbl_find (t_transaction E) (P a) (Some F_timestamp_t) (Some (off, n))))
      (found_or_error (who' a) [])"
    and run: "PANIC_RECOVER (paged E input idx sz cnt n1 m1 fnd n2 m2 fs (\<lambda>c ts. trans_output c (map trans_info ts))) s =
      (Served (Reply out), s')"
  shows "\<exists>a. input = Inr a \<and> \<not> bad_page (idx a) (sz a) \<and> tx_page_reply db (P a) (idx a) (sz a) s out s'"
proof -
  have k: "Timestamp_ti \<circ> trans_info = F_timestamp_t" by (simp add: fun_eq_iff trans_info_def)
  note wp = paged_wp [OF db, of cnt "\<lambda>a D. {# t \<in># txs D. P a t #}" fnd F_timestamp_t]
  obtain a rs where "input = Inr a" "\<not> bad_page (idx a) (sz a)"
    and out: "out = trans_output (int (size {# t \<in># txs (db (ext s)). P a t #})) (map trans_info rs)"
    and rs: "page_of F_timestamp_t {# t \<in># txs (db (ext s)). P a t #} (page_offset (idx a) (sz a)) (sz a) rs"
    and "db (ext s') = db (ext s)"
    using served_reply [OF wp run] gorm_db.tx_count_wp [OF db] gorm_db.tx_page_wp [OF db]
    unfolding cnt fnd by blast
  with page_of_keys [OF rs] show ?thesis
    by (intro exI [of _ a]) (auto simp: tx_page_reply_def Let_def trans_output_def k)
qed

lemma Get_transactions_reply:
  assumes "gorm_db E db snap" and "Get_transactions E rq s = (Served (Reply out), s')"
  shows "\<exists>a. BindInput rq (\<lambda>_. []) = Inr a \<and> \<not> bad_page (PageIndex a) (PageSize a) \<and>
     tx_page_reply db (\<lambda>t. F_status_t t = NORMAL) (PageIndex a) (PageSize a) s out s'"
proof (rule tx_paged_reply [OF assms(1)])
  show "PANIC_RECOVER (paged E (BindInput rq (\<lambda>_. [])) PageIndex PageSize (\<lambda>_. GetTransactionsCount E)
      TRANSACTION_COUNT_ERROR (\<lambda>_ e. ''GetTransactionsCount error:'' @ e) (\<lambda>_. GetTransactions E)
      GET_TRANSACTIONS_ERROR (\<lambda>_ e. ''GetRecentBlocks error:'' @ e) [''Count'', ''Transactions'']
      (\<lambda>c ts. trans_output c (map trans_info ts))) s = (Served (Reply out), s')"
    using assms(2) unfolding Get_transactions_def paged_def .
qed (simp_all add: GetTransactionsCount_def GetTransactions_def)

lemma Get_by_addr_reply:
  assumes "gorm_db E db snap" and "Get_by_addr E rq s = (Served (Reply out), s')"
  shows "\<exists>a. BindInput rq (\<lambda>_. []) = Inr a \<and> \<not> bad_page (PageIndex a) (PageSize a) \<and>
     tx_page_reply db (\<lambda>t. F_status_t t = NORMAL \<and> (col_eq E (F_from t) (Addr a) \<or> col_eq E (F_to t) (Addr a)))
       (PageIndex a) (PageSize a) s out s'"
proof (rule tx_paged_reply [OF assms(1)])
  show "PANIC_RECOVER (paged E (BindInput rq (\<lambda>_. [])) PageIndex PageSize (\<lambda>a. GetTransactionsCountByAddr E (Addr a))
      TRANSACTION_COUNT_ERROR (\<lambda>a e. ''GetTransactionsCountByAddr error:'' @ e @ '',addr:'' @ Addr a)
      (\<lambda>a. GetTransactionsByAddr E (Addr a)) GET_TRANSACTIONS_ERROR
      (\<lambda>a e. ''GetTransactionsByAddr error:'' @ e @ '',addr:'' @ Addr a) [''Count'', ''Transactions'']
      (\<lambda>c ts. trans_output c (map trans_info ts))) s = (Served (Reply out), s')"
    using assms(2) unfolding Get_by_addr_def paged_def .
qed (simp_all add: GetTransactionsCountByAddr_def GetTransactionsByAddr_def conj_commute)

lemma Get_by_height_reply:
  assumes "gorm_db E db snap" and "Get_by_height E rq s = (Served (Reply out), s')"
  shows "\<exists>a. BindInput rq (\<lambda>_. []) = Inr a \<and> \<not> bad_page (PageIndex a) (PageSize a) \<and>
     tx_page_reply db (\<lambda>t. F_status_t t = NORMAL \<and> F_block_t t = Height_hp a) (PageIndex a) (PageSize a) s out s'"
proof (rule tx_paged_reply [OF assms(1)])
  show "PANIC_RECOVER (paged E (BindInput rq (\<lambda>_. [])) PageIndex PageSize (\<lambda>a. GetTransactionsCountByHeight E (Height_hp a))
      TRANSACTION_COUNT_ERROR (\<lambda>a e. ''GetActiveBlockNum error:'' @ e @ '',height:'' @ String (Height_hp a))
      (\<lambda>a. GetTransactionsByHeight E (Height_hp a)) GET_TRANSACTIONS_ERROR
      (\<lambda>a e. ''GetRecentBlocks error:'' @ e @ '',height:'' @ String (Height_hp a)) [''Count'', ''Transactions'']
      (\<lambda>c ts. trans_output c (map trans_info ts))) s = (Served (Reply out), s')"
    using assms(2) unfolding Get_by_height_def paged_def .
qed (simp_all add: GetTransactionsCountByHeight_def GetTransactionsByHeight_def conj_commute)

section \<open>Splitting a page between the pool and the table\<close>

text \<open>Paging through the pending transactions followed by the stored ones is the intention. A page behind
  the pending ones, and a first page that holds them all, are split that way.\<close>

lemma split_page_right:
  assumes "int (length pend) \<le> off \<or> off = 0 \<and> int (length pend) \<le> n"
    and "0 \<le> off" and "0 < n" and "off + n < 2 ^ 63"
  shows "wp (split_page cap off n pend) (\<lambda>r s'. s' = s \<and>
    (\<exists>off' n' l. r = Ret (off', n', l) \<and> 0 \<le> off' \<and> 0 \<le> n' \<and> (\<forall>xs. l @ page off' n' xs = page off n (pend @ xs)))) s"
proof (cases "int (length pend) \<le> off")
  case True
  then have "to_int64 (off - int (length pend)) = off - int (length pend)"
    using assms by (intro to_int64_id) (simp add: in_int64_def)
  with True assms show ?thesis
    by (auto simp: split_page_def Let_def page_def nat_diff_distrib)
next
  case False
  with assms have off: "off = 0" "int (length pend) \<le> n" "0 < int (length pend)" by auto
  moreover have "to_int64 (n - int (length pend)) = n - int (length pend)" "to_int64 n = n"
    using assms off by (auto intro!: to_int64_id simp: in_int64_def)
  ultimately show ?thesis
    using assms by (auto simp: split_page_def Let_def page_def nat_diff_distrib)
qed

text \<open>A page inside the pending ones never gets an answer: the upper bound of the slice is negative.\<close>

lemma split_page_inside:
  assumes "0 \<le> off" and "0 < n" and "off + n < int (length pend)" and "int (length pend) < 2 ^ 63"
  shows "split_page cap off n pend s = (Panic slice_bounds, s)"
proof -
  have "to_int64 (off + n) = off + n" "to_int64 (n - int (length pend)) = n - int (length pend)"
    using assms by (auto intro!: to_int64_id simp: in_int64_def)
  with assms show ?thesis
    by (simp add: split_page_def Let_def slice_to_def eff_defs)
qed

text \<open>A page over the end of the pending ones repeats those before its offset.\<close>

lemma split_page_over:
  assumes "0 < off" and "0 < n" and "off < int (length pend)" and "int (length pend) \<le> off + n" and "off + n < 2 ^ 63"
  shows "split_page cap off n pend s = (Ret (0, n - int (length pend), pend), s)"
proof -
  have "to_int64 (off + n) = off + n" "to_int64 (n - int (length pend)) = n - int (length pend)"
    using assms by (auto intro!: to_int64_id simp: in_int64_def)
  with assms show ?thesis
    by (simp add: split_page_def Let_def eff_defs)
qed

section \<open>The pool\<close>

lemma sum_mset_concat: "(\<Sum>e \<in># mset xs. mset (f e)) = mset (concat (map f xs))"
  by (induction xs) simp_all

lemma pool_txs_mset:
  assumes "range_order (order_pending E)" and "range_order (order_txs E)"
  shows "mset (pool_txs E c) = mset (concat (map (\<lambda>e. map snd (snd e)) (Pending c)))"
proof -
  have inner: "mset (map snd (order_txs E m)) = mset (map snd m)" for m
    using range_order_mset [OF assms(2), of m] by (metis mset_map)
  have "mset (concat (map (\<lambda>e. map snd (order_txs E (snd e))) xs)) = (\<Sum>e \<in># mset xs. mset (map snd (snd e)))" for xs
    by (induction xs) (simp_all add: inner [simplified])
  then have "mset (pool_txs E c) = (\<Sum>e \<in># mset (order_pending E (Pending c)). mset (map snd (snd e)))"
    by (simp add: pool_txs_def)
  also have "\<dots> = (\<Sum>e \<in># mset (Pending c). mset (map snd (snd e)))"
    by (simp only: range_order_mset [OF assms(1)])
  also have "\<dots> = mset (concat (map (\<lambda>e. map snd (snd e)) (Pending c)))"
    by (rule sum_mset_concat)
  finally show ?thesis .
qed

lemma hash_loop_found:
  "hash_loop h ts d = (case filter (\<lambda>t. Hash_tr t = ToLower h) ts of
     [] \<Rightarrow> d
   | us \<Rightarrow> (let t = last us in d\<lparr>TxHash_td := h, From_td := From t, To_td := To t,
       Value_td := String (Value t), Nonce_td := to_int64 (Nonce_tr t)\<rparr>))"
  by (induction h ts d rule: hash_loop.induct) (auto simp: Let_def split: list.splits)

end
