(* ===== verification/Go_Time.thy ===== *)
theory Go_Time
  imports Go_Prelude
begin

text \<open>
  The part of package \<^verbatim>\<open>time\<close> the program uses: \<^verbatim>\<open>ParseInLocation\<close> with the layout
  \<^verbatim>\<open>2006-01-02 15:04:05\<close> in UTC (as of Go 1.13: a fraction may follow the seconds, the hour may have
  one digit, several spaces may separate date and time), \<^verbatim>\<open>Unix\<close>, \<^verbatim>\<open>Format\<close> with \<^verbatim>\<open>2006-01-02\<close>, and
  \<^verbatim>\<open>CheckDate\<close> of \<^verbatim>\<open>src/src/util/util.go\<close>. The calendar is the proleptic Gregorian one. Parsing what
  has been formatted gives the day back.
\<close>

section \<open>The calendar\<close>

definition leap :: "int \<Rightarrow> bool" where
  "leap y \<longleftrightarrow> y mod 4 = 0 \<and> (y mod 100 \<noteq> 0 \<or> y mod 400 = 0)"

definition days_in :: "int \<Rightarrow> int \<Rightarrow> int" where
  "days_in m y =
     (if m = 2 then (if leap y then 29 else 28)
      else if m = 4 \<or> m = 6 \<or> m = 9 \<or> m = 11 then 30 else 31)"

text \<open>Days before a year, counted from 1 January of year 1, and before a month of a year.\<close>

definition days_to_year :: "int \<Rightarrow> int" where
  "days_to_year y = 365 * (y - 1) + (y - 1) div 4 - (y - 1) div 100 + (y - 1) div 400"

definition days_to_month :: "int \<Rightarrow> int \<Rightarrow> int" where
  "days_to_month m y = sum_list (map (\<lambda>i. days_in (int i) y) [1..<nat m])"

definition unix_day :: "int \<Rightarrow> int \<Rightarrow> int \<Rightarrow> int" where
  "unix_day y m d = days_to_year y + days_to_month m y + d - 1 - 719162"

section \<open>Times\<close>

record go_time =
  sec :: int
  nsec :: int

definition Unix :: "go_time \<Rightarrow> int64" where
  "Unix t = sec t"

text \<open>\<^verbatim>\<open>time.Date(t.Year(), t.Month(), t.Day(), 0, 0, 0, 0, time.UTC)\<close>.\<close>

definition start_of_day :: "go_time \<Rightarrow> go_time" where
  "start_of_day t = \<lparr>sec = sec t - sec t mod 86400, nsec = 0\<rparr>"

definition Add_day :: "go_time \<Rightarrow> go_time" where
  "Add_day t = t\<lparr>sec := sec t + 86400\<rparr>"

section \<open>Parsing\<close>

definition isDigit :: "char \<Rightarrow> bool" where
  "isDigit c \<longleftrightarrow> (let n = of_char c :: nat in 48 \<le> n \<and> n \<le> 57)"

definition dig :: "char \<Rightarrow> int" where
  "dig c = int (of_char c :: nat) - 48"

text \<open>\<^verbatim>\<open>getnum\<close>: one or two digits; exactly two when \<open>fixed\<close>.\<close>

fun getnum :: "bool \<Rightarrow> string \<Rightarrow> (int \<times> string) option" where
  "getnum fixed [] = None"
| "getnum fixed [a] = (if isDigit a \<and> \<not> fixed then Some (dig a, []) else None)"
| "getnum fixed (a # b # s) =
     (if \<not> isDigit a then None
      else if isDigit b then Some (dig a * 10 + dig b, s)
      else if fixed then None else Some (dig a, b # s))"

definition getyear :: "string \<Rightarrow> (int \<times> string) option" where
  "getyear s = (case s of
     a # b # c # d # r \<Rightarrow> if isDigit a \<and> isDigit b \<and> isDigit c \<and> isDigit d
        then Some (dig a * 1000 + dig b * 100 + dig c * 10 + dig d, r) else None
   | _ \<Rightarrow> None)"

definition skip_char :: "char \<Rightarrow> string \<Rightarrow> string option" where
  "skip_char c s = (case s of x # r \<Rightarrow> if x = c then Some r else None | [] \<Rightarrow> None)"

definition skip_space :: "string \<Rightarrow> string option" where
  "skip_space s = (if s \<noteq> [] \<and> hd s \<noteq> CHR '' '' then None else Some (dropWhile (\<lambda>c. c = CHR '' '') s))"

text \<open>A fraction after the seconds, in nanoseconds.\<close>

definition getfrac :: "string \<Rightarrow> (int \<times> string) option" where
  "getfrac s = (case s of
     CHR ''.'' # c # r \<Rightarrow>
       if isDigit c then
         (let ds = takeWhile isDigit (c # r); rest = dropWhile isDigit (c # r);
              v = fold (\<lambda>d a. a * 10 + dig d) ds 0
          in if v \<ge> 1000000000 then None
             else Some (if length ds \<le> 9 then v * 10 ^ (9 - length ds) else v, rest))
       else Some (0, s)
   | _ \<Rightarrow> Some (0, s))"

definition ParseInLocation :: "string \<Rightarrow> go_time option" where
  "ParseInLocation s =
     (case getyear s of None \<Rightarrow> None | Some (y, s) \<Rightarrow>
     (case skip_char (CHR ''-'') s of None \<Rightarrow> None | Some s \<Rightarrow>
     (case getnum True s of None \<Rightarrow> None | Some (mo, s) \<Rightarrow>
     if mo \<le> 0 \<or> mo > 12 then None else
     (case skip_char (CHR ''-'') s of None \<Rightarrow> None | Some s \<Rightarrow>
     (case getnum True s of None \<Rightarrow> None | Some (d, s) \<Rightarrow>
     (case skip_space s of None \<Rightarrow> None | Some s \<Rightarrow>
     (case getnum False s of None \<Rightarrow> None | Some (h, s) \<Rightarrow>
     if h \<ge> 24 then None else
     (case skip_char (CHR '':'') s of None \<Rightarrow> None | Some s \<Rightarrow>
     (case getnum True s of None \<Rightarrow> None | Some (mi, s) \<Rightarrow>
     if mi \<ge> 60 then None else
     (case skip_char (CHR '':'') s of None \<Rightarrow> None | Some s \<Rightarrow>
     (case getnum True s of None \<Rightarrow> None | Some (se, s) \<Rightarrow>
     if se \<ge> 60 then None else
     (case getfrac s of None \<Rightarrow> None | Some (ns, s) \<Rightarrow>
     if s \<noteq> [] then None
     else if d < 1 \<or> d > days_in mo y then None
     else Some \<lparr>sec = unix_day y mo d * 86400 + h * 3600 + mi * 60 + se, nsec = ns\<rparr>))))))))))))"

definition CheckDate :: "string \<Rightarrow> bool" where
  "CheckDate date \<longleftrightarrow> ParseInLocation date \<noteq> None"

section \<open>Formatting a date\<close>

text \<open>The year and the month a day lies in, by counting up from an estimate.\<close>

lemma div_step:
  fixes y k :: int
  assumes "0 < k"
  shows "y div k = (y - 1) div k + (if y mod k = 0 then 1 else 0)"
proof (cases "y mod k = 0")
  case True
  then obtain q where y: "y = k * q" by (auto simp: mod_eq_0_iff_dvd)
  have "(y - 1) div k = q - 1"
    by (rule int_div_pos_eq [of _ _ _ "k - 1"]) (use assms y in \<open>auto simp: algebra_simps\<close>)
  with assms True y show ?thesis by simp
next
  case False
  have r: "0 \<le> y mod k" "y mod k < k" using assms by simp_all
  have "(y - 1) div k = y div k"
    by (rule int_div_pos_eq [of _ _ _ "y mod k - 1"])
      (use r False mult_div_mod_eq [of k y] in auto)
  with False show ?thesis by simp
qed

lemma days_to_year_Suc: "days_to_year (y + 1) = days_to_year y + (if leap y then 366 else 365)"
proof -
  have "(4 :: int) dvd 100" "(100 :: int) dvd 400" by simp_all
  then have "y mod 100 = 0 \<Longrightarrow> y mod 4 = 0" "y mod 400 = 0 \<Longrightarrow> y mod 100 = 0"
    by (auto simp: mod_eq_0_iff_dvd intro: dvd_trans)
  note m = this
  have ar: "365 * y + (a + (if P then 1 else 0)) - (b + (if Q then 1 else 0)) + (c + (if R then 1 else 0)) =
      365 * (y - 1) + a - b + c + (if P \<and> (\<not> Q \<or> R) then 366 else 365)"
    if "Q \<Longrightarrow> P" "R \<Longrightarrow> Q" for P Q R and a b c :: int
    using that by (cases P; cases Q; cases R; simp)
  have "365 * y + ((y - 1) div 4 + (if y mod 4 = 0 then 1 else 0)) -
      ((y - 1) div 100 + (if y mod 100 = 0 then 1 else 0)) + ((y - 1) div 400 + (if y mod 400 = 0 then 1 else 0)) =
      365 * (y - 1) + (y - 1) div 4 - (y - 1) div 100 + (y - 1) div 400 + (if leap y then 366 else 365)"
    unfolding leap_def by (rule ar [OF m])
  moreover have "y div 4 = (y - 1) div 4 + (if y mod 4 = 0 then 1 else 0)"
    "y div 100 = (y - 1) div 100 + (if y mod 100 = 0 then 1 else 0)"
    "y div 400 = (y - 1) div 400 + (if y mod 400 = 0 then 1 else 0)"
    by (rule div_step, simp)+
  ultimately show ?thesis
    unfolding days_to_year_def add_diff_cancel_right' by (simp only:)
qed

lemma days_to_year_mono: "y \<le> z \<Longrightarrow> days_to_year y \<le> days_to_year z"
proof (induction "nat (z - y)" arbitrary: z)
  case (Suc n)
  from Suc.prems Suc.hyps(2) have "y \<le> z - 1" "n = nat (z - 1 - y)" by auto
  with Suc.hyps(1) [of "z - 1"] days_to_year_Suc [of "z - 1"] show ?case
    by (auto split: if_splits)
qed simp

function find_year :: "int \<Rightarrow> int \<Rightarrow> int" where
  "find_year n y = (if days_to_year (y + 1) \<le> n then find_year n (y + 1) else y)"
  by auto
termination
proof (relation "measure (\<lambda>(n, y). nat (n + 1 - days_to_year y))", goal_cases)
  case (2 n y)
  then show ?case using days_to_year_Suc [of y] by (auto split: if_splits)
qed simp

declare find_year.simps [simp del]

function find_month :: "int \<Rightarrow> int \<Rightarrow> int \<Rightarrow> int \<times> int" where
  "find_month n y m = (if m < 12 \<and> days_in m y \<le> n then find_month (n - days_in m y) y (m + 1) else (m, n + 1))"
  by auto
termination
  by (relation "measure (\<lambda>(n, y, m). nat (12 - m))") auto

declare find_month.simps [simp del]

definition civil :: "int \<Rightarrow> int \<times> int \<times> int" where
  "civil day =
     (let n = day + 719162; y = find_year n (n div 366 + 1); (m, d) = find_month (n - days_to_year y) y 1
      in (y, m, d))"

definition two :: "int \<Rightarrow> string" where
  "two n = [digit_char (nat (n div 10)), digit_char (nat (n mod 10))]"

definition four :: "int \<Rightarrow> string" where
  "four n = two (n div 100) @ two (n mod 100)"

definition FormatDate :: "go_time \<Rightarrow> string" where
  "FormatDate t = (case civil (sec t div 86400) of (y, m, d) \<Rightarrow> four y @ ''-'' @ two m @ ''-'' @ two d)"

section \<open>The calendar counts right\<close>

lemma find_year_eq:
  assumes "days_to_year Y \<le> n" and "n < days_to_year (Y + 1)" and "y \<le> Y"
  shows "find_year n y = Y"
  using assms
proof (induction n y rule: find_year.induct)
  case (1 n y)
  show ?case
  proof (cases "y = Y")
    case True
    with "1.prems" show ?thesis by (subst find_year.simps) simp
  next
    case False
    with "1.prems" have "days_to_year (y + 1) \<le> n"
      using days_to_year_mono [of "y + 1" Y] by simp
    with 1 False show ?thesis by (subst find_year.simps) simp
  qed
qed

lemma days_to_year_upper: "0 \<le> z \<Longrightarrow> days_to_year (z + 1) \<le> 366 * z"
proof (induction z rule: int_ge_induct)
  case (step i)
  then show ?case using days_to_year_Suc [of "i + 1"] by (auto split: if_splits simp: add.assoc)
qed (simp add: days_to_year_def)

lemma year_estimate:
  assumes "0 \<le> Y" and "days_to_year Y \<le> n" and "n < days_to_year (Y + 1)"
  shows "n div 366 + 1 \<le> Y"
proof (rule ccontr)
  assume "\<not> n div 366 + 1 \<le> Y"
  then have less: "Y + 1 \<le> n div 366 + 1" "0 \<le> n div 366" using assms(1) by simp_all
  have "days_to_year (n div 366 + 1) \<le> 366 * (n div 366)"
    using less(2) by (rule days_to_year_upper)
  also have "\<dots> \<le> n" by simp
  finally show False using days_to_year_mono [OF less(1)] assms(3) by simp
qed

lemma days_in_pos: "28 \<le> days_in m y"
  by (simp add: days_in_def)

lemma find_month_eq:
  assumes "1 \<le> m" and "m \<le> M" and "M \<le> 12" and "1 \<le> d" and "d \<le> days_in M y"
  shows "find_month (sum_list (map (\<lambda>i. days_in (int i) y) [nat m..<nat M]) + d - 1) y m = (M, d)"
  using assms
proof (induction "nat (M - m)" arbitrary: m)
  case 0
  then show ?case by (subst find_month.simps) simp
next
  case (Suc k)
  then have m: "m < M" "[nat m..<nat M] = nat m # [nat (m + 1)..<nat M]" "k = nat (M - (m + 1))"
    by (auto simp: upt_conv_Cons nat_add_distrib)
  let ?r = "sum_list (map (\<lambda>i. days_in (int i) y) [nat (m + 1)..<nat M]) + d - 1"
  have "0 \<le> sum_list (map (\<lambda>i. days_in (int i) y) [nat (m + 1)..<nat M])"
    by (rule sum_list_nonneg) (auto intro: order_trans [OF _ days_in_pos])
  then have r: "0 \<le> ?r" using Suc.prems by simp
  have n: "sum_list (map (\<lambda>i. days_in (int i) y) [nat m..<nat M]) + d - 1 = days_in m y + ?r"
    unfolding m(2) using Suc.prems(1) by simp
  have "find_month (days_in m y + ?r) y m = find_month ?r y (m + 1)"
    using m(1) Suc.prems(3) r by (subst find_month.simps) simp
  also have "\<dots> = (M, d)"
    by (rule Suc.hyps(1)) (use m Suc.prems in auto)
  finally show ?case unfolding n .
qed

lemma days_to_month_bound:
  assumes "1 \<le> m" and "m \<le> 12" and "1 \<le> d" and "d \<le> days_in m y"
  shows "0 \<le> days_to_month m y + d - 1" and "days_to_month m y + d - 1 < (if leap y then 366 else 365)"
proof -
  have "m = 1 \<or> m = 2 \<or> m = 3 \<or> m = 4 \<or> m = 5 \<or> m = 6 \<or> m = 7 \<or> m = 8 \<or> m = 9 \<or> m = 10 \<or> m = 11 \<or> m = 12"
    using assms(1,2) by presburger
  then have "0 \<le> days_to_month m y + d - 1 \<and> days_to_month m y + d - 1 < (if leap y then 366 else 365)"
    using assms(3,4) by (elim disjE) (simp_all add: days_to_month_def days_in_def upt_rec split: if_splits)
  then show "0 \<le> days_to_month m y + d - 1" and "days_to_month m y + d - 1 < (if leap y then 366 else 365)"
    by simp_all
qed

lemma civil_unix_day:
  assumes "0 \<le> y" and "1 \<le> m" and "m \<le> 12" and "1 \<le> d" and "d \<le> days_in m y"
  shows "civil (unix_day y m d) = (y, m, d)"
proof -
  let ?n = "days_to_year y + days_to_month m y + d - 1"
  note b = days_to_month_bound [OF assms(2-5)]
  have y: "days_to_year y \<le> ?n" "?n < days_to_year (y + 1)"
    using b days_to_year_Suc [of y] by (auto split: if_splits)
  have "find_year ?n (?n div 366 + 1) = y"
    by (rule find_year_eq [OF y year_estimate [OF assms(1) y]])
  moreover have "find_month (days_to_month m y + d - 1) y 1 = (m, d)"
    using find_month_eq [of 1 m d y] assms by (simp add: days_to_month_def)
  ultimately show ?thesis
    by (simp add: civil_def unix_day_def Let_def algebra_simps)
qed

section \<open>Parsing what was formatted\<close>

lemma digit_char_dig:
  assumes "k < 10"
  shows "isDigit (digit_char k)" and "dig (digit_char k) = int k"
  using assms by (simp_all add: isDigit_def dig_def digit_char_def)

lemma two_digits:
  assumes "0 \<le> n" and "n < 100"
  shows "two n = [digit_char (nat (n div 10)), digit_char (nat (n mod 10))]"
    and "isDigit (digit_char (nat (n div 10)))" and "isDigit (digit_char (nat (n mod 10)))"
    and "dig (digit_char (nat (n div 10))) * 10 + dig (digit_char (nat (n mod 10))) = n"
proof -
  have k: "nat (n div 10) < 10" "nat (n mod 10) < 10" using assms by simp_all
  show "two n = [digit_char (nat (n div 10)), digit_char (nat (n mod 10))]" by (simp add: two_def)
  show "isDigit (digit_char (nat (n div 10)))" "isDigit (digit_char (nat (n mod 10)))"
    by (rule digit_char_dig(1) [OF k(1)], rule digit_char_dig(1) [OF k(2)])
  show "dig (digit_char (nat (n div 10))) * 10 + dig (digit_char (nat (n mod 10))) = n"
    using assms by (simp add: digit_char_dig(2) [OF k(1)] digit_char_dig(2) [OF k(2)] pos_imp_zdiv_nonneg_iff)
qed

lemma getnum_two:
  assumes "0 \<le> n" and "n < 100"
  shows "getnum b (two n @ s) = Some (n, s)"
  using two_digits [OF assms] by simp

lemma getyear_four:
  assumes "0 \<le> y" and "y < 10000"
  shows "getyear (four y @ s) = Some (y, s)"
proof -
  have r: "0 \<le> y div 100" "y div 100 < 100" "0 \<le> y mod 100" "y mod 100 < 100" using assms by simp_all
  note hi = two_digits [OF r(1,2)] and lo = two_digits [OF r(3,4)]
  let ?d = "\<lambda>n. dig (digit_char (nat n))"
  have gen: "a * 1000 + b * 100 + c * 10 + d = n" if "a * 10 + b = p" "c * 10 + d = q" "p * 100 + q = n"
    for a b c d p q n :: int using that by simp
  have v: "?d (y div 100 div 10) * 1000 + ?d (y div 100 mod 10) * 100 + ?d (y mod 100 div 10) * 10 + ?d (y mod 100 mod 10) = y"
    by (rule gen [OF hi(4) lo(4) div_mult_mod_eq])
  show ?thesis
    unfolding getyear_def four_def hi(1) lo(1) by (simp only: append.simps list.case hi(2,3) lo(2,3) v simp_thms if_True)
qed

text \<open>A date and midnight.\<close>

definition at_midnight :: "string \<Rightarrow> string" where
  "at_midnight date = date @ '' 00:00:00''"

lemma Parse_midnight:
  assumes "0 \<le> y" and "y < 10000" and "1 \<le> m" and "m \<le> 12" and "1 \<le> d" and "d \<le> days_in m y"
  shows "ParseInLocation (at_midnight (four y @ ''-'' @ two m @ ''-'' @ two d)) =
    Some \<lparr>sec = unix_day y m d * 86400, nsec = 0\<rparr>"
proof -
  have d: "d < 100" "0 \<le> d" using assms(5,6) by (auto simp: days_in_def split: if_splits)
  have m: "m < 100" "0 \<le> m" using assms(3,4) by auto
  have zero: "isDigit (CHR ''0'')" "dig (CHR ''0'') = 0" by (simp_all add: isDigit_def dig_def)
  show ?thesis
    using assms m d
    by (simp add: ParseInLocation_def at_midnight_def getyear_four getnum_two skip_char_def skip_space_def zero
        getfrac_def)
qed

lemma dig_range: "isDigit c \<Longrightarrow> 0 \<le> dig c \<and> dig c \<le> 9"
  by (auto simp: isDigit_def dig_def Let_def)

lemma getnum_range: "getnum b s = Some (n, r) \<Longrightarrow> 0 \<le> n \<and> n < 100"
  by (cases "(b, s)" rule: getnum.cases)
    (auto split: if_splits dest!: dig_range)

lemma getyear_range: "getyear s = Some (y, r) \<Longrightarrow> 0 \<le> y \<and> y < 10000"
  by (auto simp: getyear_def split: list.splits if_splits dest!: dig_range)

lemma ParseE:
  assumes "ParseInLocation s = Some t"
  obtains y m d r where "0 \<le> y" "y < 10000" "1 \<le> m" "m \<le> 12" "1 \<le> d" "d \<le> days_in m y"
    "sec t = unix_day y m d * 86400 + r" "0 \<le> r" "r < 86400"
proof -
  define Q where "Q y m d r \<longleftrightarrow> 0 \<le> y \<and> y < 10000 \<and> 0 < m \<and> m \<le> 12 \<and> 1 \<le> d \<and> d \<le> days_in m y \<and>
      sec t = unix_day y m d * 86400 + r \<and> 0 \<le> r \<and> r < 86400" for y m d r
  have "\<exists>y m d r. Q y m d r"
    using assms
    apply (clarsimp simp: ParseInLocation_def not_le not_less split: option.splits prod.splits if_splits)
    subgoal for y _ _ mo _ _ d _ _ h _ _ mi _ _ se
      by (rule exI [of _ y], rule exI [of _ mo], rule exI [of _ d], rule exI [of _ "h * 3600 + mi * 60 + se"])
        (auto simp: Q_def dest!: getnum_range getyear_range)
    done
  then obtain y m d r where "Q y m d r" by blast
  then show thesis by (intro that [of y m d r]) (simp_all add: Q_def)
qed

lemma Parse_Format:
  assumes "ParseInLocation s = Some t" and "start_of_day t = t"
  shows "ParseInLocation (at_midnight (FormatDate t)) = Some t"
proof -
  obtain y m d r where p: "0 \<le> y" "y < 10000" "1 \<le> m" "m \<le> 12" "1 \<le> d" "d \<le> days_in m y"
    and s: "sec t = unix_day y m d * 86400 + r" "0 \<le> r" "r < 86400"
    using assms(1) by (rule ParseE)
  have t: "sec t mod 86400 = 0" "nsec t = 0"
    using arg_cong [OF assms(2), of sec] arg_cong [OF assms(2), of nsec] by (simp_all add: start_of_day_def)
  then have "r = 0" using s by simp
  then have "sec t div 86400 = unix_day y m d" "t = \<lparr>sec = unix_day y m d * 86400, nsec = 0\<rparr>"
    using s t by simp_all
  with Parse_midnight [OF p] civil_unix_day [OF p(1,3-6)] show ?thesis
    by (simp add: FormatDate_def)
qed

end
