(* ===== verification/Api_Mining.thy ===== *)
theory Api_Mining
  imports Api_Transaction Go_Time
begin

text \<open>
  The mining queries, \<^verbatim>\<open>src/src/api/mining/**\<close>: pages of the blocks of a miner, its blocks between two
  dates, and its rewards day by day. The last two share the checks of the dates and query one day after
  the other; the days together cover the asked range exactly once.
\<close>

section \<open>Pages of the blocks of a miner\<close>

record MinedInfo =
  Hash_mi :: string
  BlockNumber_mi :: int64
  Timestamp_mi :: uint64
  Txn :: int64
  BlockFees_mi :: string
  BlockReward_mi :: string
  GasUsed_mi :: string

record MinedOutput = BaseOutput +
  Count_mo :: int64
  Blocks_mo :: "MinedInfo list"

definition mined_info :: "Block \<Rightarrow> MinedInfo" where
  "mined_info block = \<lparr>Hash_mi = F_hash block, BlockNumber_mi = F_block block, Timestamp_mi = F_timestamp block,
     Txn = F_txn block, BlockFees_mi = F_fees block, BlockReward_mi = F_reward block, GasUsed_mi = F_gas_used block\<rparr>"

definition Get_mined_block_by_addr :: "'w env \<Rightarrow> AddrInput request \<Rightarrow> 'w st \<Rightarrow> MinedOutput served \<times> 'w st" where
  "Get_mined_block_by_addr E rq = PANIC_RECOVER
     (thenE (ctx_Mysql E)
     (case BindInput rq (\<lambda>_. []) of
        Inl e \<Rightarrow> RESULT_PARAMETER_ERROR e
      | Inr argc \<Rightarrow>
          if bad_page (PageIndex argc) (PageSize argc) then RESULT_ERROR ERR_PARAMETER_INVALID ''param error''
          else
            thenE (ctx_Mysql E)
           (bindE (GetActiveBlockNumByAddr E (Addr argc)) (\<lambda>(count, err).
            case err of
              Some e \<Rightarrow> RESULT_ERROR BLOCK_COUNT_ERROR
                (''GetActiveBlockNum error:'' @ e @ '',addr:'' @ Addr argc)
            | None \<Rightarrow>
                thenE (ctx_Mysql E)
               (bindE (GetBlocksByMinerAddr E (Addr argc) (page_offset (PageIndex argc) (PageSize argc)) (PageSize argc)) (\<lambda>(bs, err).
                case err of
                  Some e \<Rightarrow> RESULT_ERROR GET_BLOCKS_ERROR
                    (''GetBlocksByMinerAddr error:'' @ e @ '',addr:'' @ Addr argc)
                | None \<Rightarrow> RESULT (base_flds @ [''Count'', ''Blocks''])
                    (Reply \<lparr>ErrNo = 0, ErrMsg = success, Count_mo = count, Blocks_mo = map mined_info bs\<rparr>)))))))"

section \<open>The dates of a request\<close>

record DateInput =
  Addr_di :: string
  StartDate :: string
  EndDate :: string
  OffsetTime :: int64

definition date_required :: "DateInput \<Rightarrow> (string \<times> string) list" where
  "date_required i = [(''Addr'', Addr_di i), (''StartDate'', StartDate i), (''EndDate'', EndDate i)]"

text \<open>Both dates have to parse, lie at most 100 days apart and be midnights; otherwise the message of the reply.\<close>

definition check_dates :: "DateInput \<Rightarrow> string + go_time \<times> go_time" where
  "check_dates input =
     (case ParseInLocation (StartDate input) of
        None \<Rightarrow> Inl (StartDate input @ '' time error'')
      | Some start \<Rightarrow>
          (case ParseInLocation (EndDate input) of
             None \<Rightarrow> Inl (EndDate input @ '' time error'')
           | Some end \<Rightarrow>
               if Unix end - Unix start > 8640000 then Inl ''day range should less than 100 day''
               else if start \<noteq> start_of_day start \<or> end \<noteq> start_of_day end then
                 Inl ''date should be like 2006-01-02 00:00:00''
               else Inr (start, end)))"

text \<open>The window of one day, shifted by the offset of the request.\<close>

definition day_window :: "go_time \<Rightarrow> int64 \<Rightarrow> int64 \<times> int64" where
  "day_window day off = (to_int64 (Unix day + off), to_int64 (Unix (Add_day day) - 1 + off))"

section \<open>The blocks of a miner between two dates\<close>

record DateBlockInfo =
  BlockNumber_db :: int64
  Timestamp_db :: uint64
  Txn_db :: int64
  BlockFees_db :: string
  BlockReward_db :: string
  GasUsed_db :: string

record DateOutput = BaseOutput +
  Blocks_do :: "DateBlockInfo list"

definition date_info :: "Block \<Rightarrow> DateBlockInfo" where
  "date_info block = \<lparr>BlockNumber_db = F_block block, Timestamp_db = F_timestamp block, Txn_db = F_txn block,
     BlockFees_db = F_fees block, BlockReward_db = F_reward block, GasUsed_db = F_gas_used block\<rparr>"

text \<open>The loop over the days; \<^const>\<open>Inl\<close> is the reply it ends with early.\<close>

function date_loop ::
  "'w env \<Rightarrow> DateInput \<Rightarrow> go_time \<Rightarrow> go_time \<Rightarrow> DateBlockInfo list \<Rightarrow> ('w st, (int \<times> string) + DateBlockInfo list) eff" where
  "date_loop E input end day acc =
     (if Unix day \<le> Unix end then
        thenE (ctx_Mysql E)
       (bindE (FindMinedBlockByAddrAndTime E (Addr_di input) (fst (day_window day (OffsetTime input)))
           (snd (day_window day (OffsetTime input)))) (\<lambda>(bs, err).
        if err \<noteq> None \<and> err \<noteq> Some DATA_NOT_EXIST
        then ret (Inl (ERR_DATABASE_ERROR, case err of Some e \<Rightarrow> e | None \<Rightarrow> []))
        else date_loop E input end (Add_day day) (acc @ map date_info bs)))
      else ret (Inr acc))"
  by auto
termination
  by (relation "measure (\<lambda>(E, input, end, day, acc). nat (Unix end - Unix day + 1))")
    (auto simp: Unix_def Add_day_def)

declare date_loop.simps [simp del]

definition get_mined_block_by_addr_and_date_Main ::
  "'w env \<Rightarrow> DateInput request \<Rightarrow> 'w st \<Rightarrow> DateOutput served \<times> 'w st" where
  "get_mined_block_by_addr_and_date_Main E rq = PANIC_RECOVER
     (thenE (ctx_Redis E)
     (thenE (ctx_Mysql E)
     (case BindInput rq date_required of
        Inl e \<Rightarrow> RESULT_PARAMETER_ERROR e
      | Inr input \<Rightarrow>
          (case check_dates input of
             Inl e \<Rightarrow> RESULT_PARAMETER_ERROR e
           | Inr (start, end) \<Rightarrow>
               bindE (date_loop E input end start []) (\<lambda>r.
               case r of
                 Inl (n, e) \<Rightarrow> RESULT_ERROR n e
               | Inr bs \<Rightarrow> RESULT (base_flds @ [''Blocks''])
                   (Reply \<lparr>ErrNo = 0, ErrMsg = success, Blocks_do = bs\<rparr>))))))"

section \<open>The rewards of a miner\<close>

record dayinfo =
  Date :: string
  Fees :: string
  Reward :: string
  Count_d :: uint64

record RewardOutput = BaseOutput +
  TotalReward :: string
  LastXhReward :: string
  LastXhFees :: string
  DayInfo :: "dayinfo list"

text \<open>Summing up the rewards and fees of some blocks; the error names the reward in both cases.\<close>

fun sum_blocks :: "Block list \<Rightarrow> int \<Rightarrow> int \<Rightarrow> uint64 \<Rightarrow> string + int \<times> int \<times> uint64" where
  "sum_blocks [] rs fs n = Inr (rs, fs, n)"
| "sum_blocks (block # bs) rs fs n =
     (case SetString 10 (F_reward block) of
        None \<Rightarrow> Inl (''Failed to convert %s to BigInt'' @ F_reward block)
      | Some reward \<Rightarrow>
          (case SetString 10 (F_fees block) of
             None \<Rightarrow> Inl (''Failed to convert %s to BigInt'' @ F_reward block)
           | Some fee \<Rightarrow> sum_blocks bs (rs + reward) (fs + fee) (to_uint64 (n + 1))))"

function reward_loop ::
  "'w env \<Rightarrow> DateInput \<Rightarrow> go_time \<Rightarrow> go_time \<Rightarrow> dayinfo list \<Rightarrow> ('w st, (int \<times> string) + dayinfo list) eff" where
  "reward_loop E input end day acc =
     (if Unix day \<le> Unix end then
        thenE (ctx_Mysql E)
       (bindE (FindMinedBlockByAddrAndTime E (Addr_di input) (fst (day_window day (OffsetTime input)))
           (snd (day_window day (OffsetTime input)))) (\<lambda>(bs, err).
        if err \<noteq> None \<and> err \<noteq> Some DATA_NOT_EXIST
        then ret (Inl (ERR_DATABASE_ERROR, case err of Some e \<Rightarrow> e | None \<Rightarrow> []))
        else
          (case sum_blocks bs 0 0 0 of
             Inl e \<Rightarrow> ret (Inl (ERR_INNER_ERROR, e))
           | Inr (rs, fs, n) \<Rightarrow>
               if rs = 0 \<and> fs = 0 then reward_loop E input end (Add_day day) acc
               else reward_loop E input end (Add_day day)
                 (acc @ [\<lparr>Date = FormatDate day, Fees = String fs, Reward = String rs, Count_d = n\<rparr>]))))
      else ret (Inr acc))"
  by auto
termination
  by (relation "measure (\<lambda>(E, input, end, day, acc). nat (Unix end - Unix day + 1))")
    (auto simp: Unix_def Add_day_def)

declare reward_loop.simps [simp del]

definition last_day :: "int \<Rightarrow> int64 \<times> int64" where
  "last_day tnow = (unix (tnow - 24 * 3600 * 1000000000), unix tnow)"

definition get_addr_mining_rewards_Main ::
  "'w env \<Rightarrow> DateInput request \<Rightarrow> 'w st \<Rightarrow> RewardOutput served \<times> 'w st" where
  "get_addr_mining_rewards_Main E rq = PANIC_RECOVER
     (thenE (ctx_Redis E)
     (thenE (ctx_Mysql E)
     (case BindInput rq date_required of
        Inl e \<Rightarrow> RESULT_PARAMETER_ERROR e
      | Inr input \<Rightarrow>
          (case check_dates input of
             Inl e \<Rightarrow> RESULT_PARAMETER_ERROR e
           | Inr (start, end) \<Rightarrow>
               bindE (reward_loop E input end start []) (\<lambda>r.
               case r of
                 Inl (n, e) \<Rightarrow> RESULT_ERROR n e
               | Inr days \<Rightarrow>
                   thenE (ctx_Mysql E)
                  (bindE (FindRewardByMiner E (Addr_di input)) (\<lambda>(miner_reward, err).
                   if err \<noteq> None \<and> err \<noteq> Some DATA_NOT_EXIST
                   then RESULT_ERROR ERR_DATABASE_ERROR (case err of Some e \<Rightarrow> e | None \<Rightarrow> [])
                   else
                     (let total = (if err = None then F_total_reward miner_reward else ''0'') in
                      bindE (call (now E)) (\<lambda>tnow.
                      thenE (ctx_Mysql E)
                     (bindE (FindMinedBlockByAddrAndTime E (Addr_di input) (fst (last_day tnow)) (snd (last_day tnow))) (\<lambda>(bs, err).
                      if err \<noteq> None \<and> err \<noteq> Some DATA_NOT_EXIST
                      then RESULT_ERROR ERR_DATABASE_ERROR (case err of Some e \<Rightarrow> e | None \<Rightarrow> [])
                      else
                        (case sum_blocks bs 0 0 0 of
                           Inl e \<Rightarrow> RESULT_ERROR ERR_INNER_ERROR e
                         | Inr (rs, fs, n) \<Rightarrow>
                             RESULT (base_flds @ [''TotalReward'', ''LastXhReward'', ''LastXhFees'', ''DayInfo''])
                               (Reply \<lparr>ErrNo = 0, ErrMsg = success, TotalReward = total,
                                  LastXhReward = String rs, LastXhFees = String fs, DayInfo = days\<rparr>)))))))))))))"

section \<open>The days cover the range once\<close>

definition mined_in :: "'w env \<Rightarrow> Block multiset \<Rightarrow> string \<Rightarrow> int \<Rightarrow> int \<Rightarrow> Block multiset" where
  "mined_in E B addr lo hi =
     {# b \<in># B. col_eq E (F_miner b) addr \<and> F_timestamp b \<ge> lo \<and> F_timestamp b \<le> hi \<and> F_status b = NORMAL #}"

lemma mined_in_split:
  assumes "lo \<le> mid + 1" and "mid \<le> hi"
  shows "mined_in E B addr lo hi = mined_in E B addr lo mid + mined_in E B addr (mid + 1) hi"
  using assms by (auto simp: mined_in_def multiset_eq_iff)

lemma mined_in_empty: "hi < lo \<Longrightarrow> mined_in E B addr lo hi = {#}"
  by (auto simp: mined_in_def filter_mset_eq_conv intro!: filter_mset_False)

lemma mined_in_day:
  assumes "Unix day \<le> Unix end"
  shows "mined_in E B addr (Unix day + off) (Unix end + 86399 + off) =
    mined_in E B addr (Unix day + off) (Unix day + 86399 + off) +
    mined_in E B addr (Unix (Add_day day) + off) (Unix end + 86399 + off)"
  using mined_in_split [of "Unix day + off" "Unix day + 86399 + off" "Unix end + 86399 + off" E B addr] assms
  by (simp add: Unix_def Add_day_def add.assoc add.commute add.left_commute)

text \<open>The number a text stands for, and the sums of a day.\<close>

definition num :: "string \<Rightarrow> int" where
  "num x = the (SetString 10 x)"

lemma num_String [simp]: "num (String i) = i"
  by (simp add: num_def)

lemma sum_blocks_Inr:
  assumes "sum_blocks bs rs fs n = Inr (rs', fs', n')"
  shows "rs' = rs + (\<Sum>b \<in># mset bs. num (F_reward b)) \<and> fs' = fs + (\<Sum>b \<in># mset bs. num (F_fees b))"
  using assms
proof (induction bs arbitrary: rs fs n)
  case (Cons b bs)
  then obtain x y where "SetString 10 (F_reward b) = Some x" "SetString 10 (F_fees b) = Some y"
    "sum_blocks bs (rs + x) (fs + y) (to_uint64 (n + 1)) = Inr (rs', fs', n')"
    by (auto split: option.splits)
  with Cons.IH [OF this(3)] show ?case by (simp add: num_def)
qed simp

text \<open>Dates that pass the checks are midnights at most 100 days apart.\<close>

lemma midnight_dvd: "t = start_of_day t \<Longrightarrow> 86400 dvd Unix t"
  by (cases t) (auto simp: start_of_day_def Unix_def)

lemma check_dates_Inr:
  assumes "check_dates input = Inr (start, end)"
  shows "ParseInLocation (StartDate input) = Some start" "ParseInLocation (EndDate input) = Some end"
    "Unix end - Unix start \<le> 8640000" "86400 dvd Unix end - Unix start"
  using assms
  by (auto simp: check_dates_def split: option.splits if_splits intro!: dvd_diff midnight_dvd)

text \<open>The windows of the days do not wrap around.\<close>

definition window_ok :: "go_time \<Rightarrow> go_time \<Rightarrow> int64 \<Rightarrow> bool" where
  "window_ok day end off \<longleftrightarrow> in_int64 (Unix day + off) \<and> in_int64 (Unix end + 86400 + off) \<and>
     86400 dvd Unix end - Unix day"

lemma window_ok_past:
  assumes "window_ok day end off" and "\<not> Unix day \<le> Unix end"
  shows "Unix end + 86399 < Unix day"
proof -
  have "86400 dvd Unix day - Unix end" using assms by (simp add: window_ok_def dvd_diff_commute)
  with assms(2) zdvd_imp_le [of 86400 "Unix day - Unix end"] show ?thesis by simp
qed

lemma window_ok_next:
  assumes "window_ok day end off" and "Unix day \<le> Unix end"
  shows "window_ok (Add_day day) end off"
    and "day_window day off = (Unix day + off, Unix day + 86399 + off)"
proof -
  have "86400 dvd (Unix end - Unix day) - 86400"
    using assms by (intro dvd_diff [of _ "Unix end - Unix day"]) (simp_all add: window_ok_def)
  then have "86400 dvd Unix end - Unix (Add_day day)"
    by (simp add: Unix_def Add_day_def algebra_simps)
  with assms show "window_ok (Add_day day) end off"
    by (auto simp: window_ok_def Unix_def Add_day_def in_int64_def)
  show "day_window day off = (Unix day + off, Unix day + 86399 + off)"
    using assms by (auto simp: day_window_def window_ok_def Unix_def Add_day_def in_int64_def intro!: to_int64_id)
qed

text \<open>The loop over the days is a walk over the list of them.\<close>

fun query_days ::
  "'w env \<Rightarrow> DateInput \<Rightarrow> go_time list \<Rightarrow> DateBlockInfo list \<Rightarrow> ('w st, (int \<times> string) + DateBlockInfo list) eff" where
  "query_days E input [] acc = ret (Inr acc)"
| "query_days E input (day # days) acc =
     thenE (ctx_Mysql E)
    (bindE (FindMinedBlockByAddrAndTime E (Addr_di input) (fst (day_window day (OffsetTime input)))
        (snd (day_window day (OffsetTime input)))) (\<lambda>(bs, err).
     if err \<noteq> None \<and> err \<noteq> Some DATA_NOT_EXIST
     then ret (Inl (ERR_DATABASE_ERROR, case err of Some e \<Rightarrow> e | None \<Rightarrow> []))
     else query_days E input days (acc @ map date_info bs)))"

lemma Unix_Add_day [simp]: "Unix (Add_day d) = Unix d + 86400"
  by (simp add: Unix_def Add_day_def)

lemma date_loop_walk:
  assumes "Unix end < Unix day + 86400 * int n" and "0 < n \<Longrightarrow> Unix day + 86400 * (int n - 1) \<le> Unix end"
  shows "date_loop E input end day acc = query_days E input (map (\<lambda>i. (Add_day ^^ i) day) [0..<n]) acc"
  using assms
proof (induction n arbitrary: day acc)
  case (Suc n)
  have "map (\<lambda>i. (Add_day ^^ i) day) [0..<Suc n] = day # map (\<lambda>i. (Add_day ^^ i) (Add_day day)) [0..<n]"
    by (simp only: upt_conv_Cons map_Suc_upt [symmetric] map_map comp_def) (simp add: funpow_swap1 map_Suc_upt [symmetric] del: upt_Suc)
  moreover have "Unix day \<le> Unix end" using Suc.prems by auto
  moreover have "date_loop E input end (Add_day day) acc' =
      query_days E input (map (\<lambda>i. (Add_day ^^ i) (Add_day day)) [0..<n]) acc'" for acc'
    using Suc.prems by (intro Suc.IH) (simp_all add: algebra_simps)
  ultimately show ?case by (subst date_loop.simps) (simp only: if_True query_days.simps)
qed (subst date_loop.simps, simp)

lemma date_loop_days:
  assumes "Unix end - Unix start \<le> 8640000"
  shows "\<exists>n \<le> 101. date_loop E input end start acc = query_days E input (map (\<lambda>i. (Add_day ^^ i) start) [0..<n]) acc"
proof (cases "Unix start \<le> Unix end")
  case True
  define n where "n = nat ((Unix end - Unix start) div 86400) + 1"
  have "int n = (Unix end - Unix start) div 86400 + 1" using True by (simp add: n_def pos_imp_zdiv_nonneg_iff)
  then have "Unix end < Unix start + 86400 * int n" "Unix start + 86400 * (int n - 1) \<le> Unix end" "n \<le> 101"
    using assms by simp_all
  with date_loop_walk [of "end" start n E input acc] show ?thesis by blast
next
  case False
  with date_loop_walk [of "end" start 0 E input acc] show ?thesis by (intro exI [of _ 0]) simp
qed

context gorm_db
begin

lemma mined_day_wp:
  "wp (thenE (ctx_Mysql E) (FindMinedBlockByAddrAndTime E addr lo hi)) (\<lambda>r s'. db (ext s') = db (ext s) \<and>
     (\<forall>bs err. r = Ret (bs, err) \<longrightarrow> err = None \<and> mset bs = mined_in E (blocks (db (ext s))) addr lo hi)) s"
  apply (rule wp_thenI [OF ctx_Mysql_wp [OF gorm_db_axioms]])
  subgoal for u s1
    using blk_find_frame blk.find_found blk.find_rows
    by (fastforce simp: FindMinedBlockByAddrAndTime_def wp_simps mined_in_def split: prod.splits qres.splits)
  by simp

lemma thenE_bindE: "thenE m (bindE f g) = bindE (thenE m f) g"
  by (simp add: thenE_def bindE_assoc)

lemma date_loop_wp:
  assumes "window_ok day end (OffsetTime input)"
  shows "wp (date_loop E input end day acc) (\<lambda>r s'. db (ext s') = db (ext s) \<and>
    (\<forall>l. r = Ret (Inr l) \<longrightarrow> mset l = mset acc +
       image_mset date_info (mined_in E (blocks (db (ext s))) (Addr_di input)
         (Unix day + OffsetTime input) (Unix end + 86399 + OffsetTime input)))) s"
  using assms
proof (induction "nat (Unix end - Unix day + 1)" arbitrary: day acc s rule: less_induct)
  case less
  show ?case
  proof (cases "Unix day \<le> Unix end")
    case True
    note w = window_ok_next [OF less.prems True]
    have "nat (Unix end - Unix (Add_day day) + 1) < nat (Unix end - Unix day + 1)"
      using True by (simp add: Unix_def Add_day_def)
    note IH = less.hyps [OF this w(1)]
    show ?thesis
      apply (subst date_loop.simps)
      apply (simp only: True if_True w(2) fst_conv snd_conv thenE_bindE)
      apply (rule wp_bindI [OF mined_day_wp])
      subgoal for x s1
        apply (cases x)
        apply simp
        apply (rule wp_mono [OF IH])
        apply (auto simp: mined_in_day [OF True])
        done
      by simp
  next
    case False
    with window_ok_past [OF less.prems] show ?thesis
      by (subst date_loop.simps) (simp add: mined_in_empty)
  qed
qed

lemma reward_loop_wp:
  assumes "window_ok day end (OffsetTime input)"
  shows "wp (reward_loop E input end day acc) (\<lambda>r s'. db (ext s') = db (ext s) \<and>
    (\<forall>l. r = Ret (Inr l) \<longrightarrow>
       sum_list (map (num \<circ> Reward) l) = sum_list (map (num \<circ> Reward) acc) +
         (\<Sum>b \<in># mined_in E (blocks (db (ext s))) (Addr_di input)
           (Unix day + OffsetTime input) (Unix end + 86399 + OffsetTime input). num (F_reward b)) \<and>
       sum_list (map (num \<circ> Fees) l) = sum_list (map (num \<circ> Fees) acc) +
         (\<Sum>b \<in># mined_in E (blocks (db (ext s))) (Addr_di input)
           (Unix day + OffsetTime input) (Unix end + 86399 + OffsetTime input). num (F_fees b)))) s"
  using assms
proof (induction "nat (Unix end - Unix day + 1)" arbitrary: day acc s rule: less_induct)
  case less
  show ?case
  proof (cases "Unix day \<le> Unix end")
    case True
    note w = window_ok_next [OF less.prems True]
    have "nat (Unix end - Unix (Add_day day) + 1) < nat (Unix end - Unix day + 1)"
      using True by (simp add: Unix_def Add_day_def)
    note IH = less.hyps [OF this w(1)]
    show ?thesis
      apply (subst reward_loop.simps)
      apply (simp only: True if_True w(2) fst_conv snd_conv thenE_bindE)
      apply (rule wp_bindI [OF mined_day_wp])
      subgoal for x s1
        apply (cases x; cases "sum_blocks (fst x) 0 0 0")
        subgoal by simp
        subgoal for bs err y
          apply (cases y)
          apply (simp split del: if_split)
          apply (rule wp_ifI; rule wp_mono [OF IH])
           apply (auto simp: mined_in_day [OF True] dest!: sum_blocks_Inr)
          done
        done
      by simp
  next
    case False
    with window_ok_past [OF less.prems] show ?thesis
      by (subst reward_loop.simps) (simp add: mined_in_empty)
  qed
qed

lemma ctx_Redis_db: "wp (ctx_Redis E) (\<lambda>r s'. db (ext s') = db (ext s)) s"
  using redis_db by (auto simp: ctx_Redis_def wp_simps split: prod.splits option.splits)

lemma ctx_Mysql_db: "wp (ctx_Mysql E) (\<lambda>r s'. db (ext s') = db (ext s)) s"
  by (rule wp_mono [OF ctx_Mysql_wp [OF gorm_db_axioms]]) simp

text \<open>The prologue of the two handlers: connections, input, dates.\<close>

lemma dated_wp:
  assumes "\<And>input start end s1. BindInput rq date_required = Inr input \<Longrightarrow> check_dates input = Inr (start, end) \<Longrightarrow>
    db (ext s1) = db (ext s) \<Longrightarrow> wp (body input start end) (\<lambda>r s'. \<forall>out. r = Ret (Reply out) \<longrightarrow> Q input start end out) s1"
  shows "wp (thenE (ctx_Redis E) (thenE (ctx_Mysql E)
     (case BindInput rq date_required of
        Inl e \<Rightarrow> RESULT_PARAMETER_ERROR e
      | Inr input \<Rightarrow>
          (case check_dates input of
             Inl e \<Rightarrow> RESULT_PARAMETER_ERROR e
           | Inr (start, end) \<Rightarrow> body input start end))))
    (\<lambda>r s'. \<forall>out. r = Ret (Reply out) \<longrightarrow> (\<exists>input start end. BindInput rq date_required = Inr input \<and>
       check_dates input = Inr (start, end) \<and> Q input start end out)) s"
  apply (rule wp_thenI [OF ctx_Redis_db], rule wp_thenI [OF ctx_Mysql_db])
  subgoal for u s1 v s2
    using assms [of _ _ _ s2] by (auto split: sum.splits elim!: wp_mono)
  by auto

lemma wp_triv: "(\<And>r s'. Q r s') \<Longrightarrow> wp m Q s"
  by (simp add: wp_def split: prod.splits)

lemma date_reply:
  assumes run: "get_mined_block_by_addr_and_date_Main E rq s = (Served (Reply out), s')"
  shows "\<exists>input start end. BindInput rq date_required = Inr input \<and> check_dates input = Inr (start, end) \<and>
    (window_ok start end (OffsetTime input) \<longrightarrow> mset (Blocks_do out) =
       image_mset date_info (mined_in E (blocks (db (ext s))) (Addr_di input)
         (Unix start + OffsetTime input) (Unix end + 86399 + OffsetTime input)))"
  apply (rule served_replyI [OF _ run [unfolded get_mined_block_by_addr_and_date_Main_def]])
  apply (rule dated_wp)
  subgoal for input start "end" s1
    apply (cases "window_ok start end (OffsetTime input)")
     apply (rule wp_bindI [OF date_loop_wp])
       apply (auto split: sum.splits intro: wp_triv)
    done
  done

text \<open>The reward handler: the days it lists add up to the rewards and fees of the blocks in the range.\<close>

lemma reward_reply:
  assumes run: "get_addr_mining_rewards_Main E rq s = (Served (Reply out), s')"
  shows "\<exists>input start end. BindInput rq date_required = Inr input \<and> check_dates input = Inr (start, end) \<and>
    (window_ok start end (OffsetTime input) \<longrightarrow>
       (let M = mined_in E (blocks (db (ext s))) (Addr_di input)
          (Unix start + OffsetTime input) (Unix end + 86399 + OffsetTime input) in
        sum_list (map (num \<circ> Reward) (DayInfo out)) = (\<Sum>b \<in># M. num (F_reward b)) \<and>
        sum_list (map (num \<circ> Fees) (DayInfo out)) = (\<Sum>b \<in># M. num (F_fees b))))"
  apply (rule served_replyI [OF _ run [unfolded get_addr_mining_rewards_Main_def]])
  apply (rule dated_wp)
  subgoal for input start "end" s1
    apply (cases "window_ok start end (OffsetTime input)")
     apply (rule wp_bindI [OF reward_loop_wp])
       apply assumption
    subgoal for r s2
      apply (cases r; hypsubst; simp only: sum.case)
       apply (rule wp_mono [OF replyingD [where P = "\<lambda>_. False"]])
        apply (intro replying_intros, simp)
      subgoal for days
        apply (rule wp_mono [OF replyingD [where P = "\<lambda>out. DayInfo out = days"]])
         apply (simp only: Let_def, intro replying_intros, simp)
        apply (simp add: Let_def comp_def)
        done
      done
    by (auto intro: wp_triv)
  done

end

section \<open>The pages of a miner\<close>

lemma Get_mined_reply:
  assumes db: "gorm_db E db snap" and run: "Get_mined_block_by_addr E rq s = (Served (Reply out), s')"
  shows "\<exists>a M. BindInput rq (\<lambda>_. []) = Inr a \<and> \<not> bad_page (PageIndex a) (PageSize a) \<and>
     M = {# b \<in># blocks (db (ext s)). col_eq E (F_miner b) (Addr a) \<and> F_status b = NORMAL #} \<and>
     ErrNo out = 0 \<and> Count_mo out = int (size M) \<and>
     map BlockNumber_mi (Blocks_mo out) = page (page_offset (PageIndex a) (PageSize a)) (PageSize a)
       (rev (sorted_list_of_multiset (image_mset F_block M))) \<and>
     set (Blocks_mo out) \<subseteq> mined_info ` set_mset M \<and> db (ext s') = db (ext s)"
proof -
  let ?M = "\<lambda>a D. {# b \<in># blocks D. col_eq E (F_miner b) (Addr a) \<and> F_status b = NORMAL #}"
  have k: "BlockNumber_mi \<circ> mined_info = F_block" by (simp add: fun_eq_iff mined_info_def)
  have cnt: "wp (GetActiveBlockNumByAddr E (Addr a)) (\<lambda>r s'. db (ext s') = db (ext s) \<and>
     (\<forall>c. r = Ret (c, None) \<longrightarrow> c = int (size (?M a (db (ext s)))))) s" for a s
    using gorm_db.blk_count_frame [OF db] sql_table.count_rows [OF gorm_db.axioms(1) [OF db]]
    by (fastforce simp: GetActiveBlockNumByAddr_def wp_simps split: prod.splits qres.splits)
  have fnd: "wp (GetBlocksByMinerAddr E (Addr a) off n) (\<lambda>r s'. db (ext s') = db (ext s) \<and>
     (\<forall>rs. r = Ret (rs, None) \<longrightarrow> page_of F_block (?M a (db (ext s))) off n rs)) s" for a off n s
    using gorm_db.blk_find_frame [OF db] sql_table.find_page [OF gorm_db.axioms(1) [OF db]]
    by (fastforce simp: GetBlocksByMinerAddr_def wp_simps page_of_def split: prod.splits qres.splits)
  note run' = run [unfolded Get_mined_block_by_addr_def, folded paged_def
      [of E _ PageIndex PageSize "\<lambda>a. GetActiveBlockNumByAddr E (Addr a)" BLOCK_COUNT_ERROR
        "\<lambda>a e. ''GetActiveBlockNum error:'' @ e @ '',addr:'' @ Addr a" "\<lambda>a. GetBlocksByMinerAddr E (Addr a)"
        GET_BLOCKS_ERROR "\<lambda>a e. ''GetBlocksByMinerAddr error:'' @ e @ '',addr:'' @ Addr a" "[''Count'', ''Blocks'']"
        "\<lambda>count bs. \<lparr>ErrNo = 0, ErrMsg = success, Count_mo = count, Blocks_mo = map mined_info bs\<rparr>"]]
  obtain a rs where "BindInput rq (\<lambda>_. []) = Inr a" "\<not> bad_page (PageIndex a) (PageSize a)"
    and out: "out = \<lparr>ErrNo = 0, ErrMsg = success, Count_mo = int (size (?M a (db (ext s)))), Blocks_mo = map mined_info rs\<rparr>"
    and rs: "page_of F_block (?M a (db (ext s))) (page_offset (PageIndex a) (PageSize a)) (PageSize a) rs"
    and "db (ext s') = db (ext s)"
    using served_reply [OF paged_wp [OF db cnt fnd] run'] by blast
  with page_of_keys [OF rs] show ?thesis
    by (intro exI [of _ a] exI [of _ "?M a (db (ext s))"]) (auto simp: k)
qed

end
