(* ===== verification/Api_Poc.thy ===== *)
theory Api_Poc
  imports Api_Transaction
begin

text \<open>
  The queries under \<^verbatim>\<open>src/src/api/poc\<close>: the summary of the chain with its cached reward of a day, the
  balance of an address, and the constant exchange rates. The cached reward is a pointer: the division
  that prepares the summary writes through it.
\<close>

section \<open>The reward of a day\<close>

text \<open>\<^verbatim>\<open>time.Time{}\<close>, the initial \<^verbatim>\<open>cache.updatetime\<close>, in nanoseconds since 1970: the first instant of year 1.\<close>

definition zero_time :: int where
  "zero_time = - 62135596800 * 1000000000"

definition cache_start :: "'w st \<Rightarrow> 'w st" where
  "cache_start s = s\<lparr>cache_reward := 0, cache_updatetime := zero_time\<rparr>"

text \<open>A reward that is not a number gives a nil \<^verbatim>\<open>big.Int\<close>, which \<^verbatim>\<open>Add\<close> dereferences.\<close>

fun sum_rewards :: "Block list \<Rightarrow> int \<Rightarrow> ('s, int) eff" where
  "sum_rewards [] reward = ret reward"
| "sum_rewards (b # bs) reward =
     (case SetString 10 (F_reward b) of
        None \<Rightarrow> panicE nil_deref
      | Some blockreward \<Rightarrow> sum_rewards bs (reward + blockreward))"

text \<open>The result of \<^verbatim>\<open>calcDayReward\<close> is a pointer: to the cached number or to a new one.\<close>

datatype reward_ptr = CacheReward | NewReward int

definition calcDayReward :: "'w env \<Rightarrow> ('w st, reward_ptr) eff" where
  "calcDayReward E =
     bindE (call (now E)) (\<lambda>now.
     bindE (getE cache_updatetime) (\<lambda>updatetime.
     if \<not> now > updatetime + 120 then ret CacheReward
     else
       bindE (GetRecentBlocks E 0 ONEDAYBLOCK) (\<lambda>(blocks, err).
       case err of
         Some e \<Rightarrow> ret (NewReward 0)
       | None \<Rightarrow>
           bindE (sum_rewards blocks 0) (\<lambda>reward.
           thenE (modifyE (\<lambda>s. s\<lparr>cache_reward := reward, cache_updatetime := now\<rparr>))
             (ret CacheReward)))))"

text \<open>\<^verbatim>\<open>reward.Div(reward, pb)\<close> stores into what the pointer refers to; the value it holds then.\<close>

fun div_reward :: "reward_ptr \<Rightarrow> int \<Rightarrow> ('w st, int) eff" where
  "div_reward CacheReward pb =
     thenE (modifyE (\<lambda>s. s\<lparr>cache_reward := cache_reward s div pb\<rparr>)) (getE cache_reward)"
| "div_reward (NewReward r) pb = ret (r div pb)"

definition calcCapability :: "int \<Rightarrow> int" where
  "calcCapability difficulty = difficulty * 1456"

section \<open>The summary\<close>

record SummaryOutput = BaseOutput +
  Difficulty :: "int option"
  Capability :: "int option"
  OnlineMiner :: int64
  PbDayReward :: "int option"
  BlockCount24H :: int64
  BlockNumber_so :: "int option"
  TotalRewarded :: "int option"
  TotalMortgage :: "int option"

definition summary_flds :: "string list" where
  "summary_flds = base_flds @ [''Difficulty'', ''Capability'', ''OnlineMiner'', ''PbDayReward'', ''BlockCount24H'',
     ''BlockNumber'', ''TotalRewarded'', ''TotalMortgage'']"

lemma summary_flds_in [simp]: "''ErrNo'' \<in> set summary_flds" "''ErrMsg'' \<in> set summary_flds"
  by (simp_all add: summary_flds_def)

definition num_or :: "'a \<Rightarrow> 'a \<times> go_error \<Rightarrow> 'a" where
  "num_or z r = (case r of (n, None) \<Rightarrow> n | (n, Some e) \<Rightarrow> z)"

definition rpc_value :: "string + 'a \<Rightarrow> 'a option" where
  "rpc_value r = (case r of Inl e \<Rightarrow> None | Inr n \<Rightarrow> Some n)"

definition get_summary_Main :: "'w env \<Rightarrow> 'w st \<Rightarrow> SummaryOutput served \<times> 'w st" where
  "get_summary_Main E = PANIC_RECOVER
     (thenE (ctx_Mysql E)
     (thenE ctx_Web3
     (bindE (getE GLastBlock) (\<lambda>lastbalck.
      case lastbalck of
        None \<Rightarrow> panicE nil_deref
      | Some b \<Rightarrow>
          thenE (ctx_Mysql E)
         (bindE (GetRecentOneDayBlockNumber E) (\<lambda>n.
          let pb = (if to_int64 1024 = 0 then 1 else 1024) in
          thenE (ctx_Mysql E)
         (bindE (calcDayReward E) (\<lambda>reward.
          bindE (div_reward reward pb) (\<lambda>pbDayReward.
          thenE ctx_Web3
         (bindE (callE (GetTotalRewarded (rpc E) ''latest'')) (\<lambda>totalRewarded.
          bindE (callE (GetTotalMortgage (rpc E) ''latest'')) (\<lambda>totalMortgage.
          RESULT summary_flds (Reply \<lparr>ErrNo = 0, ErrMsg = success, Difficulty = None, Capability = None,
            OnlineMiner = 1031, PbDayReward = Some pbDayReward, BlockCount24H = num_or 0 n,
            BlockNumber_so = Some (Number b), TotalRewarded = rpc_value totalRewarded,
            TotalMortgage = rpc_value totalMortgage\<rparr>)))))))))))))"

section \<open>The balance of an address\<close>

record BalanceOutput = BaseOutput +
  Balance :: string
  Transactions_ba :: int64
  MinedBlocks :: int64

definition get_balance_Main :: "'w env \<Rightarrow> AddrOnlyInput request \<Rightarrow> 'w st \<Rightarrow> BalanceOutput served \<times> 'w st" where
  "get_balance_Main E rq = PANIC_RECOVER
     (thenE (ctx_Redis E)
     (thenE (ctx_Mysql E)
     (case BindInput rq (\<lambda>i. [(''Addr'', Addr_in i)]) of
        Inl e \<Rightarrow> RESULT_PARAMETER_ERROR e
      | Inr input \<Rightarrow>
          bindE (callE (GetBalance (rpc E) (Addr_in input) ''latest'')) (\<lambda>r.
          case r of
            Inl e \<Rightarrow> RESULT_ERROR ERR_RPC_ERROR e
          | Inr bal \<Rightarrow>
              thenE (ctx_Mysql E)
             (bindE (GetActiveBlockNumByAddr E (Addr_in input)) (\<lambda>(mined, err).
              case err of
                Some e \<Rightarrow> RESULT_ERROR BLOCK_COUNT_ERROR
                  (''GetActiveBlockNumByAddr error:'' @ e @ '',addr:'' @ Addr_in input)
              | None \<Rightarrow>
                  thenE (ctx_Mysql E)
                 (bindE (GetTransactionsCountByAddr E (Addr_in input)) (\<lambda>(count, err).
                  case err of
                    Some e \<Rightarrow> RESULT_ERROR TRANSACTION_COUNT_ERROR
                      (''GetTransactionsCountByAddr error:'' @ e @ '',addr:'' @ Addr_in input)
                  | None \<Rightarrow> RESULT (base_flds @ [''Balance'', ''Transactions'', ''MinedBlocks''])
                      (Reply \<lparr>ErrNo = 0, ErrMsg = success, Balance = String bal,
                         Transactions_ba = count, MinedBlocks = mined\<rparr>)))))))))"

section \<open>The exchange rates\<close>

record 'f RateInfo =
  Currency :: string
  Rate_ri :: 'f
  Significand :: int64
  Symbol :: string

record 'f RatesOutput = BaseOutput +
  Rates :: "'f RateInfo list"

text \<open>\<open>fl\<close> is the floating-point number of a decimal constant of the source; the sign of the yuan is the
  two bytes of its UTF-8 encoding.\<close>

definition rate_list :: "(string \<Rightarrow> 'f) \<Rightarrow> 'f RateInfo list" where
  "rate_list fl =
     [\<lparr>Currency = ''USD'', Rate_ri = fl ''0.32'', Significand = 2, Symbol = ''$''\<rparr>,
      \<lparr>Currency = ''RMB'', Rate_ri = fl ''2.07'', Significand = 2, Symbol = [CHR 0xC2, CHR 0xA5]\<rparr>,
      \<lparr>Currency = ''ETH'', Rate_ri = fl ''0.00003'', Significand = 5, Symbol = ''ETH''\<rparr>,
      \<lparr>Currency = ''BTC'', Rate_ri = fl ''0.0000002'', Significand = 8, Symbol = ''BTC''\<rparr>]"

definition get_exchange_rate_Main :: "'w env \<Rightarrow> (string \<Rightarrow> 'f) \<Rightarrow> 'w st \<Rightarrow> 'f RatesOutput served \<times> 'w st" where
  "get_exchange_rate_Main E fl = PANIC_RECOVER
     (thenE (ctx_Mysql E)
        (RESULT (base_flds @ [''Rates'']) (Reply \<lparr>ErrNo = 0, ErrMsg = success, Rates = rate_list fl\<rparr>)))"

section \<open>Lemmas\<close>

definition number_rewards :: "Block list \<Rightarrow> bool" where
  "number_rewards bs \<longleftrightarrow> (\<forall>b \<in> set bs. SetString 10 (F_reward b) \<noteq> None)"

definition day_reward :: "Block list \<Rightarrow> int" where
  "day_reward bs = (\<Sum>b \<leftarrow> bs. the (SetString 10 (F_reward b)))"

lemma sum_rewards_run:
  "sum_rewards bs r s = (if number_rewards bs then (Ret (r + day_reward bs), s) else (Panic nil_deref, s))"
  by (induction bs arbitrary: r) (auto simp: eff_defs number_rewards_def day_reward_def split: option.splits)

lemma wp_sum_rewards [wp_simps]:
  "wp (sum_rewards bs r) Q s =
     (if number_rewards bs then Q (Ret (r + day_reward bs)) s else Q (Panic nil_deref) s)"
  by (simp add: wp_def sum_rewards_run)

lemma wp_ctx_Web3 [wp_simps]: "wp ctx_Web3 Q s = Q (Ret ()) (if \<not> x_web3 s then s\<lparr>x_web3 := True\<rparr> else s)"
  by (simp add: ctx_Web3_def)

text \<open>Before the first block is copied there is no last block to summarise.\<close>

lemma get_summary_no_block:
  assumes "GLastBlock s = None" and "x_mysql s \<or> fst (mysql_open E (ext s)) = None"
  shows "fst (get_summary_Main E s) = Lost bad_assertion"
proof -
  have "served_wp (get_summary_Main E) (\<lambda>r s'. r = Lost bad_assertion) s"
    unfolding get_summary_Main_def served_wp_PANIC_RECOVER
    using assms by (auto simp: ctx_Mysql_def wp_simps nil_deref_def split: prod.splits option.splits)
  then show ?thesis by (simp add: served_wp_def split: prod.splits)
qed

text \<open>The reward a summary shows, and the cache it leaves: the cached number, divided once more; the sum
  over the newest blocks, divided, which is cached divided; or zero, when the query failed.\<close>

definition summary_reward :: "(Block list \<Rightarrow> bool) \<Rightarrow> 'w st \<Rightarrow> int \<Rightarrow> 'w st \<Rightarrow> bool" where
  "summary_reward newest s v s' \<longleftrightarrow>
     cache_updatetime s' = cache_updatetime s \<and> cache_reward s' = cache_reward s div 1024 \<and> v = cache_reward s' \<or>
     (\<exists>bs. newest bs \<and> number_rewards bs \<and> cache_updatetime s' > cache_updatetime s + 120 \<and>
        cache_reward s' = day_reward bs div 1024 \<and> v = cache_reward s') \<or>
     cache_updatetime s' = cache_updatetime s \<and> cache_reward s' = cache_reward s \<and> v = 0"

context gorm_db
begin

text \<open>The frame of the calls before the reward: the tables, the cache and the last block stay.\<close>

definition calm :: "'w st \<Rightarrow> 'w st \<Rightarrow> bool" where
  "calm s s' \<longleftrightarrow> db (ext s') = db (ext s) \<and> cache_reward s' = cache_reward s \<and>
     cache_updatetime s' = cache_updatetime s \<and> GLastBlock s' = GLastBlock s"

lemma calm_ctx_Mysql: "wp (ctx_Mysql E) (\<lambda>r s'. calm s s') s"
  using open_db by (auto simp: ctx_Mysql_def calm_def wp_simps split: prod.splits option.splits)

lemma calm_OneDayBlockNumber: "wp (GetRecentOneDayBlockNumber E) (\<lambda>r s'. calm s s') s"
  by (auto simp: GetRecentOneDayBlockNumber_def calm_def wp_simps Let_def split: prod.splits qres.splits
      dest!: now_db blk_count_frame)

abbreviation newest_blocks :: "'w st \<Rightarrow> Block list \<Rightarrow> bool" where
  "newest_blocks s bs \<equiv> page_of F_block {# b \<in># blocks (db (ext s)). F_status b = NORMAL #} 0 ONEDAYBLOCK bs"

lemma newest_find:
  "tbl_find (t_block E) (\<lambda>b. F_status b = NORMAL) (Some F_block) (Some (off, n)) w = (QOk bs, w') \<Longrightarrow>
     page_of F_block {# b \<in># blocks (db w). F_status b = NORMAL #} off n bs \<and> db w' = db w"
  using blk.find_page blk_find_frame unfolding page_of_def by blast

lemma day_reward_wp:
  "wp (bindE (calcDayReward E) (\<lambda>reward. div_reward reward 1024))
     (\<lambda>r s'. \<forall>v. r = Ret v \<longrightarrow> GLastBlock s' = GLastBlock s \<and> summary_reward (newest_blocks s) s v s') s"
  unfolding calcDayReward_def GetRecentBlocks_def
  by (auto simp: wp_simps summary_reward_def split: prod.splits qres.splits option.splits
      dest!: now_db newest_find)

lemma calm_reward: "calm s s1 \<Longrightarrow> summary_reward (newest_blocks s1) s1 v s' = summary_reward (newest_blocks s) s v s'"
  by (simp add: calm_def summary_reward_def)

lemma calm_trans: "calm s s1 \<Longrightarrow> calm s1 s2 \<Longrightarrow> calm s s2"
  by (simp add: calm_def)

lemma summary_reward_frame:
  "summary_reward N s v s1 \<Longrightarrow> cache_reward s2 = cache_reward s1 \<Longrightarrow> cache_updatetime s2 = cache_updatetime s1 \<Longrightarrow>
     summary_reward N s v s2"
  by (simp add: summary_reward_def)

lemma summary_tail:
  assumes "calm s s1"
  shows "wp (thenE (ctx_Mysql E) (bindE (calcDayReward E) (\<lambda>reward. bindE (div_reward reward 1024) (\<lambda>v.
      thenE ctx_Web3 (bindE (callE f) (\<lambda>x. bindE (callE g) (\<lambda>y. RESULT summary_flds (Reply (mk v x y)))))))))
    (\<lambda>r s'. \<forall>out. r = Ret (Reply out) \<longrightarrow> (\<exists>v x y. out = mk v x y \<and> summary_reward (newest_blocks s) s v s')) s1"
  apply (rule wp_thenI [OF calm_ctx_Mysql])
   apply (simp only: bindE_assoc [symmetric])
   apply (rule wp_bindI [OF day_reward_wp])
  subgoal for u s2 v s3
    by (auto simp: wp_simps calm_reward [OF calm_trans [OF assms]] split: prod.splits out.splits
        intro!: exI elim: summary_reward_frame)
  by auto

lemma get_summary_reply:
  assumes "get_summary_Main E s = (Served (Reply out), s')"
  shows "\<exists>b v. GLastBlock s = Some b \<and> BlockNumber_so out = Some (Number b) \<and> PbDayReward out = Some v \<and>
     ErrNo out = 0 \<and> summary_reward (newest_blocks s) s v s'"
  apply (rule served_replyI [OF _ assms [unfolded get_summary_Main_def]])
  apply (rule wp_thenI [OF calm_ctx_Mysql])
   apply (simp only: wp_thenE [of ctx_Web3] wp_ctx_Web3 wp_bindE [of "getE GLastBlock"] wp_getE out.case)
  subgoal for u s1
  proof -
    assume c: "calm s s1"
    let ?s = "if \<not> x_web3 s1 then s1\<lparr>x_web3 := True\<rparr> else s1"
    have c': "calm s ?s" "GLastBlock ?s = GLastBlock s" using c by (simp_all add: calm_def)
    have pb: "(if to_int64 1024 = 0 then 1 else 1024) = (1024 :: int)" by (simp add: to_int64_def)
    show ?thesis
    proof (cases "GLastBlock s")
      case (Some b)
      show ?thesis
        unfolding c'(2) Some option.case Let_def pb
        apply (rule wp_thenI [OF calm_ctx_Mysql], rule wp_bindI [OF calm_OneDayBlockNumber])
        subgoal for u2 s2 n s3
          by (rule wp_mono [OF summary_tail [OF calm_trans [OF calm_trans [OF c'(1)]]]]) auto
        by auto
    qed (simp add: c'(2))
  qed
  by simp

text \<open>The balance comes from the node, the two counts from the tables.\<close>

lemma calm_ctx_Redis: "wp (ctx_Redis E) (\<lambda>r s'. calm s s') s"
  using redis_db by (auto simp: ctx_Redis_def calm_def wp_simps split: prod.splits option.splits)

lemma blk_counted:
  "tbl_count (t_block E) P w = (QOk c, w') \<Longrightarrow> c = int (size {# b \<in># blocks (db w). P b #}) \<and> db w' = db w"
  using blk.count_rows blk_count_frame by blast

lemma trx_counted:
  "tbl_count (t_transaction E) P w = (QOk c, w') \<Longrightarrow> c = int (size {# t \<in># txs (db w). P t #}) \<and> db w' = db w"
  using trx.count_rows trx_count_frame by blast

lemma balance_counts:
  assumes "calm s s1"
  shows "wp (thenE (ctx_Mysql E) (bindE (GetActiveBlockNumByAddr E a) (\<lambda>(mined, err).
      case err of Some e \<Rightarrow> RESULT_ERROR n1 (m1 e)
      | None \<Rightarrow> thenE (ctx_Mysql E) (bindE (GetTransactionsCountByAddr E a) (\<lambda>(cnt, err).
          case err of Some e \<Rightarrow> RESULT_ERROR n2 (m2 e) | None \<Rightarrow> RESULT (base_flds @ fs) (Reply (mk cnt mined)))))))
    (\<lambda>r s'. \<forall>out. r = Ret (Reply out) \<longrightarrow> out = mk
       (int (size {# t \<in># txs (db (ext s)). (col_eq E (F_from t) a \<or> col_eq E (F_to t) a) \<and> F_status_t t = NORMAL #}))
       (int (size {# b \<in># blocks (db (ext s)). col_eq E (F_miner b) a \<and> F_status b = NORMAL #}))) s1"
  unfolding GetActiveBlockNumByAddr_def GetTransactionsCountByAddr_def
  apply (rule wp_thenI [OF calm_ctx_Mysql])
   apply (simp only: bindE_assoc)
  subgoal for u s2
    apply (simp add: wp_simps split: prod.splits qres.splits)
    apply (intro allI impI)
    apply (rule wp_mono [OF calm_ctx_Mysql])
    using assms
    apply (auto simp: wp_simps calm_def split: prod.splits qres.splits out.splits
        dest!: blk_counted trx_counted)
    done
  by simp

lemma get_balance_reply:
  assumes run: "get_balance_Main E rq s = (Served (Reply out), s')"
    and node: "\<And>a d w r w'. GetBalance (rpc E) a d w = (r, w') \<Longrightarrow> db w' = db w"
  shows "\<exists>input bal. BindInput rq (\<lambda>i. [(''Addr'', Addr_in i)]) = Inr input \<and> ErrNo out = 0 \<and>
     (\<exists>w w'. GetBalance (rpc E) (Addr_in input) ''latest'' w = (Ret (Inr bal), w')) \<and> Balance out = String bal \<and>
     MinedBlocks out =
       int (size {# b \<in># blocks (db (ext s)). col_eq E (F_miner b) (Addr_in input) \<and> F_status b = NORMAL #}) \<and>
     Transactions_ba out = int (size {# t \<in># txs (db (ext s)).
       (col_eq E (F_from t) (Addr_in input) \<or> col_eq E (F_to t) (Addr_in input)) \<and> F_status_t t = NORMAL #})"
  apply (rule served_replyI [OF _ run [unfolded get_balance_Main_def]])
  apply (rule wp_thenI [OF calm_ctx_Redis], rule wp_thenI [OF calm_ctx_Mysql])
  subgoal for u s1 v s2
    apply (cases "BindInput rq (\<lambda>i. [(''Addr'', Addr_in i)])")
     apply simp
    subgoal for input
      apply (simp only: sum.case wp_bindE wp_callE split: prod.splits)
      apply (intro allI impI)
      subgoal for r w
        apply (cases r)
        subgoal for x
          apply (cases x)
           apply simp
          subgoal for bal
            apply (simp only: out.case sum.case)
            apply (rule wp_mono [OF balance_counts [of s]])
            using node
             apply (auto simp: calm_def)
            apply blast
            done
          done
        by simp
      done
    done
  by auto

end

end
