(* ===== verification/Api_Routes.thy ===== *)
theory Api_Routes
  imports Api_Mining Api_Poc
begin

text \<open>
  \<^verbatim>\<open>src/src/api/api.go\<close> and the routes and the middleware of \<^verbatim>\<open>src/src/main.go\<close>: the names the handlers are
  exported under, the paths they are registered for, and a request from the middleware to the handler.
  Binding the request to the input structure of a handler is echo's; \<open>bindings\<close> holds its results. A path
  that is not registered is left to echo (static files, not found).
\<close>

section \<open>The exported handlers\<close>

datatype api =
  GetBlockNumber_api | GetBlockByHeight_api | GetBlocks_api | GetBlockByHash_api |
  GetTransactionByHash_api | GetByAddr_api | GetByAddrAndType_api | GetByHeight_api | GetTransactions_api |
  GetAddrPending_api | GetHashPending_api |
  GetMinedBlocks_api | GetAddrMiningRewards_api | GetMinedblockByAddrAndDate_api |
  GetExchangeRate_api | GetBalance_api | GetSummary_api

record bindings =
  as_height :: "HeightInput request"
  as_page :: "PageInput request"
  as_hash :: "HashInput request"
  as_addr_page :: "AddrInput request"
  as_addr_type :: "AddrTypeInput request"
  as_height_page :: "HeightPageInput request"
  as_addr :: "AddrOnlyInput request"
  as_dates :: "DateInput request"

datatype 'f api_output =
  OutNumber BlockNumberOutput | OutDetail BlockDetailOutput | OutBlocks BlocksOutput | OutTrans TransOutput |
  OutTx DetailOutput | OutPending PendingOutput | OutMined MinedOutput | OutDate DateOutput |
  OutReward RewardOutput | OutSummary SummaryOutput | OutBalance BalanceOutput | OutRates "'f RatesOutput"

definition tag :: "('a \<Rightarrow> 'b) \<Rightarrow> 'a served \<times> 'w st \<Rightarrow> 'b served \<times> 'w st" where
  "tag f r = (map_served f (fst r), snd r)"

text \<open>\<open>cap\<close> is the growth of a slice under \<^verbatim>\<open>append\<close>, \<open>fl\<close> the rounding of a decimal constant.\<close>

fun run_api ::
  "'w env \<Rightarrow> (nat \<Rightarrow> nat) \<Rightarrow> (string \<Rightarrow> 'f) \<Rightarrow> bindings \<Rightarrow> api \<Rightarrow> 'w st \<Rightarrow> 'f api_output served \<times> 'w st" where
  "run_api E cap fl B GetBlockNumber_api s = tag OutNumber (block_number_Main E s)"
| "run_api E cap fl B GetBlockByHeight_api s = tag OutDetail (get_block_by_height_Main E (as_height B) s)"
| "run_api E cap fl B GetBlocks_api s = tag OutBlocks (Get_Blocks E (as_page B) s)"
| "run_api E cap fl B GetBlockByHash_api s = tag OutDetail (Get_by_hash E (as_hash B) s)"
| "run_api E cap fl B GetTransactionByHash_api s = tag OutTx (get_transaction_by_hash_Main E (as_hash B) s)"
| "run_api E cap fl B GetByAddr_api s = tag OutTrans (Get_by_addr E (as_addr_page B) s)"
| "run_api E cap fl B GetByAddrAndType_api s = tag OutTrans (Get_by_addr_and_type E cap (as_addr_type B) s)"
| "run_api E cap fl B GetByHeight_api s = tag OutTrans (Get_by_height E (as_height_page B) s)"
| "run_api E cap fl B GetTransactions_api s = tag OutTrans (Get_transactions E (as_page B) s)"
| "run_api E cap fl B GetAddrPending_api s = tag OutPending (get_addr_pending_Main E (as_addr B) s)"
| "run_api E cap fl B GetHashPending_api s = tag OutTx (get_hash_pending_Main E (as_hash B) s)"
| "run_api E cap fl B GetMinedBlocks_api s = tag OutMined (Get_mined_block_by_addr E (as_addr_page B) s)"
| "run_api E cap fl B GetAddrMiningRewards_api s = tag OutReward (get_addr_mining_rewards_Main E (as_dates B) s)"
| "run_api E cap fl B GetMinedblockByAddrAndDate_api s =
     tag OutDate (get_mined_block_by_addr_and_date_Main E (as_dates B) s)"
| "run_api E cap fl B GetExchangeRate_api s = tag OutRates (get_exchange_rate_Main E fl s)"
| "run_api E cap fl B GetBalance_api s = tag OutBalance (get_balance_Main E (as_addr B) s)"
| "run_api E cap fl B GetSummary_api s = tag OutSummary (get_summary_Main E s)"

section \<open>The routes\<close>

datatype verb = GET | POST

definition routes :: "(verb \<times> string \<times> api) list" where
  "routes =
     [(POST, ''/block/get_block_number'', GetBlockNumber_api),
      (POST, ''/block/get_by_height'', GetBlockByHeight_api),
      (POST, ''/block/get_blocks'', GetBlocks_api),
      (POST, ''/block/get_by_hash'', GetBlockByHash_api),
      (POST, ''/transaction/get_by_hash'', GetTransactionByHash_api),
      (POST, ''/transaction/get_transactions'', GetTransactions_api),
      (POST, ''/transaction/get_by_addr'', GetByAddr_api),
      (POST, ''/transaction/get_by_addr_and_type'', GetByAddrAndType_api),
      (POST, ''/transaction/get_by_height'', GetByHeight_api),
      (POST, ''/transaction/get_addr_pending'', GetAddrPending_api),
      (POST, ''/transaction/get_hash_pending'', GetHashPending_api),
      (POST, ''/mining/get_mined_block_by_addr'', GetMinedBlocks_api),
      (POST, ''/mining/get_addr_mining_rewards'', GetAddrMiningRewards_api),
      (POST, ''/mining/get_mined_block_by_addr_and_date'', GetMinedblockByAddrAndDate_api),
      (POST, ''/cph/get_exchange_rate'', GetExchangeRate_api),
      (GET, ''/cph/get_exchange_rate'', GetExchangeRate_api),
      (POST, ''/poc/get_summary'', GetSummary_api),
      (GET, ''/poc/get_summary'', GetSummary_api),
      (POST, ''/poc/get_balance'', GetBalance_api)]"

definition route :: "verb \<Rightarrow> string \<Rightarrow> api option" where
  "route m p = map_of (map (\<lambda>(m, p, a). ((m, p), a)) routes) (m, p)"

section \<open>A request\<close>

text \<open>The identifier of a request, its own or a random one of twelve digits; nothing uses it further.\<close>

definition request_id :: "(nat \<Rightarrow> nat) \<Rightarrow> string \<Rightarrow> string" where
  "request_id rnd hid = (if hid = [] then GetRandomString rnd 12 else hid)"

record http =
  verb_of :: verb
  path_of :: string
  XRequestID :: string
  bound_as :: bindings

text \<open>The middleware wraps the request into a new context and runs the handler; \<^const>\<open>None\<close> is a request
  no handler is registered for. The result carries the identifier.\<close>

definition serve_http ::
  "'w env \<Rightarrow> (nat \<Rightarrow> nat) \<Rightarrow> (string \<Rightarrow> 'f) \<Rightarrow> (nat \<Rightarrow> nat) \<Rightarrow> http \<Rightarrow> 'w st \<Rightarrow>
     (string \<times> 'f api_output served \<times> 'w st) option" where
  "serve_http E cap fl rnd rq s =
     (case route (verb_of rq) (path_of rq) of
        None \<Rightarrow> None
      | Some a \<Rightarrow> Some (request_id rnd (XRequestID rq), run_api E cap fl (bound_as rq) a (ctx_New s)))"

section \<open>Lemmas\<close>

lemma closes_case_list [intro!]:
  "closes m \<Longrightarrow> (\<And>a as. closes (f a as)) \<Longrightarrow> closes (case x of [] \<Rightarrow> m | a # as \<Rightarrow> f a as)"
  by (cases x) auto

text \<open>Every handler replies only with the connection of the request closed.\<close>

lemma has_reply_map [simp]: "has_reply (map_served f r) = has_reply r"
  by (cases r rule: has_reply.cases) simp_all

definition closing :: "('w st \<Rightarrow> 'o served \<times> 'w st) \<Rightarrow> bool" where
  "closing h \<longleftrightarrow> (\<forall>s. has_reply (fst (h s)) \<longrightarrow> \<not> x_mysql (snd (h s)))"

lemma closingI: "closes m \<Longrightarrow> closing (PANIC_RECOVER m)"
  unfolding closing_def using closes_served by (metis prod.collapse)

lemma closing_handlers:
  "closing (block_number_Main E)" "closing (get_block_by_height_Main E r1)" "closing (Get_Blocks E r2)"
  "closing (Get_by_hash E r3)" "closing (get_transaction_by_hash_Main E r3)" "closing (Get_by_addr E r4)"
  "closing (Get_by_addr_and_type E cap r5)" "closing (Get_by_height E r6)" "closing (Get_transactions E r2)"
  "closing (get_addr_pending_Main E r7)" "closing (get_hash_pending_Main E r3)"
  "closing (Get_mined_block_by_addr E r4)" "closing (get_addr_mining_rewards_Main E r8)"
  "closing (get_mined_block_by_addr_and_date_Main E r8)" "closing (get_exchange_rate_Main E fl)"
  "closing (get_balance_Main E r7)" "closing (get_summary_Main E)"
  unfolding block_number_Main_def get_block_by_height_Main_def Get_Blocks_def Get_by_hash_def
    get_transaction_by_hash_Main_def Get_by_addr_def Get_by_addr_and_type_def Get_by_height_def
    Get_transactions_def get_addr_pending_Main_def get_hash_pending_Main_def Get_mined_block_by_addr_def
    get_addr_mining_rewards_Main_def get_mined_block_by_addr_and_date_Main_def get_exchange_rate_Main_def
    get_balance_Main_def get_summary_Main_def Let_def
  by (rule closingI; auto)+

lemma closing_tag: "closing h \<Longrightarrow> closing (\<lambda>s. tag f (h s))"
  by (simp add: closing_def tag_def)

lemma run_api_closes: "closing (run_api E cap fl B a)"
proof -
  have "closing (\<lambda>s. run_api E cap fl B a s)"
    by (cases a) (simp_all only: run_api.simps closing_tag closing_handlers)
  then show ?thesis .
qed

end
