(* ===== verification/Example_Api.thy ===== *)
theory Example_Api
  imports Example_Chain Check_Reward Api_Routes
begin

text \<open>
  Concrete requests and tables for the witnesses of the HTTP interface: the tables after the three blocks of
  \<open>Example_Chain\<close> were copied, tables with the blocks of a miner, and a pool of pending transactions.
\<close>

definition ex_rq :: "'i \<Rightarrow> 'i request" where
  "ex_rq i = \<lparr>bound = Inr i, missing = (\<lambda>_. ''missing'')\<rparr>"

definition ex_synced :: "node mem_world st" where
  "ex_synced = snd (ex_run 5)"

definition ex_page :: "int64 \<Rightarrow> int64 \<Rightarrow> PageInput" where
  "ex_page i n = \<lparr>PageIndex = i, PageSize = n\<rparr>"

definition ex_addr_page :: "int64 \<Rightarrow> int64 \<Rightarrow> string \<Rightarrow> AddrInput" where
  "ex_addr_page i n a = \<lparr>PageIndex = i, PageSize = n, Addr = a\<rparr>"

definition ex_addr_type :: "int64 \<Rightarrow> int64 \<Rightarrow> string \<Rightarrow> int64 \<Rightarrow> AddrTypeInput" where
  "ex_addr_type i n a ty = \<lparr>PageIndex = i, PageSize = n, Addr = a, TxType_in = ty\<rparr>"

definition ex_mined :: "int \<Rightarrow> int \<Rightarrow> string \<Rightarrow> string \<Rightarrow> int \<Rightarrow> Block" where
  "ex_mined n t r f st = zero_Block\<lparr>F_id := n, F_block := n, F_timestamp := t, F_miner := ''0xM1'',
     F_hash := String n, F_parent_hash := ''p'', F_reward := r, F_fees := f, F_status := st\<rparr>"

text \<open>Midnight of 2019-11-11 is 1573430400: two blocks of that day, one of the next, one forked.\<close>

definition ex_miner_mem :: mem where
  "ex_miner_mem = \<lparr>mem_blocks = [ex_mined 1 1573430400 ''5'' ''1'' NORMAL, ex_mined 2 1573516799 ''7'' ''2'' NORMAL,
       ex_mined 3 1573516800 ''11'' ''0'' NORMAL, ex_mined 4 1573430500 ''100'' ''0'' FORK],
     mem_txs = [],
     mem_rewards = [zero_MinerReward\<lparr>F_id_m := 1, F_miner_m := ''0xm1'', F_total_reward := ''3'', F_total_fees := ''4''\<rparr>]\<rparr>"

definition ex_pending :: Content where
  "ex_pending = \<lparr>Pending = [(''0xaa'', [(''0'', ex_tx ''0x11'' ''0xbb'' []), (''1'', ex_tx ''0x12'' ''0xcc'' [])]),
     (''0xdd'', [(''0'', ex_tx ''0x13'' ''0xbb'' [])])], Queued = []\<rparr>"

definition ex_miner_st :: "node mem_world st" where
  "ex_miner_st = init_st \<lparr>m_now = ex_miner_mem, m_snap = ex_miner_mem, m_clock = 1573520000000000000,
     m_node = (ex_node ex_chain)\<lparr>nd_pending := ex_pending\<rparr>\<rparr>"

text \<open>A node that knows balances; three transactions, and one of them of a forked block.\<close>

definition ex_rich_rpc :: "node mem_world rpc_api" where
  "ex_rich_rpc = node_rpc\<lparr>GetBalance := \<lambda>a d w. (Ret (Inr 7), w)\<rparr>"

definition ex_tx_row :: "int \<Rightarrow> int \<Rightarrow> string \<Rightarrow> string \<Rightarrow> int \<Rightarrow> Transaction" where
  "ex_tx_row i t f g st = zero_Transaction\<lparr>F_id_t := i, F_tx_hash := String i, F_block_t := i, F_timestamp_t := t,
     F_from := f, F_to := g, F_value := ''5'', F_status_t := st\<rparr>"

definition ex_tx_st :: "node mem_world st" where
  "ex_tx_st = ex_miner_st\<lparr>ext := (ext ex_miner_st)\<lparr>m_now := ex_miner_mem\<lparr>mem_txs :=
     [ex_tx_row 1 100 ''0xaa'' ''0xbb'' NORMAL, ex_tx_row 2 200 ''0xBB'' ''0xcc'' NORMAL,
      ex_tx_row 3 300 ''0xaa'' ''0xcc'' NORMAL, ex_tx_row 4 400 ''0xbb'' ''0xaa'' FORK]\<rparr>\<rparr>\<rparr>"

definition ex_dates :: DateInput where
  "ex_dates = \<lparr>Addr_di = ''0xM1'', StartDate = ''2019-11-11 00:00:00'', EndDate = ''2019-11-11 00:00:00'', OffsetTime = 0\<rparr>"

text \<open>A request for the path \<open>p\<close>.\<close>

definition ex_http :: "string \<Rightarrow> http" where
  "ex_http p = \<lparr>verb_of = POST, path_of = p, XRequestID = ''r'', bound_as = \<lparr>
     as_height = ex_rq \<lparr>Height_in = 2\<rparr>, as_page = ex_rq (ex_page 1 2), as_hash = ex_rq \<lparr>Hash_in = ''0x01''\<rparr>,
     as_addr_page = ex_rq (ex_addr_page 1 2 ''0xbb''), as_addr_type = ex_rq (ex_addr_type 1 2 ''0xbb'' 0),
     as_height_page = ex_rq \<lparr>PageIndex = 1, PageSize = 2, Height_hp = 2\<rparr>, as_addr = ex_rq \<lparr>Addr_in = ''0xbb''\<rparr>,
     as_dates = ex_rq ex_dates\<rparr>\<rparr>"

text \<open>Requests that bind, and replies found by evaluation.\<close>

lemma ex_rq_bound [simp]: "BindInput (ex_rq i) (\<lambda>_. []) = Inr i"
  by (simp add: BindInput_def ex_rq_def Validate_def)

lemma ex_dates_bound: "BindInput (ex_rq ex_dates) date_required = Inr ex_dates"
  by code_simp

lemma ex_dates_checked: "check_dates ex_dates = Inr (\<lparr>sec = 1573430400, nsec = 0\<rparr>, \<lparr>sec = 1573430400, nsec = 0\<rparr>)"
  by code_simp

lemma replied:
  assumes "case fst h of Served (Reply out) \<Rightarrow> P out | _ \<Rightarrow> False"
  obtains out s' where "h = (Served (Reply out), s')" and "P out"
  using assms by (cases h) (auto split: served.splits reply.splits)

lemmas mem_gorm_db = gorm_db_reliable.axioms(1) [OF mem_gorm_db_reliable]

lemma ex_synced_chain: "chain_inv ex_env mem_hdr 2 (blocks (mem_db (ext ex_synced)))"
proof -
  have "map_prod id block_now (ex_run 5) = (Poll, 2)" by code_simp
  then have r: "fst (ex_run 5) = Poll" "block_now (snd (ex_run 5)) = 2" by (simp_all add: map_prod_def split: prod.splits)
  from chain_node.reachable_ok [OF mem_chain_node ex_run_reachable [of mem_db 5] ex_start_ok] show ?thesis
    unfolding chain_node.machine_ok_def [OF mem_chain_node] r(1)
    by (auto simp: sync_inv_def B_of_def ex_synced_def r(2))
qed

end
