(* ===== verification/Rate_Sync.thy ===== *)
theory Rate_Sync
  imports World Complex_Main
begin

text \<open>
  \<^verbatim>\<open>src/src/sync/ratesync.go\<close>, \<^verbatim>\<open>src/src/model/t_rate.go\<close> and \<^verbatim>\<open>src/src/model/redis.go\<close>: the exchange
  rates of several exchanges and their weighted mean. Floating-point numbers are a parameter: the type
  and its arithmetic, of which the code uses addition, multiplication and division. The bounds are
  proved for exact arithmetic.
\<close>

section \<open>Records\<close>

record 'f fops =
  f_zero :: 'f
  f_add :: "'f \<Rightarrow> 'f \<Rightarrow> 'f"
  f_mul :: "'f \<Rightarrow> 'f \<Rightarrow> 'f"
  f_div :: "'f \<Rightarrow> 'f \<Rightarrow> 'f"

record 'f RateRecord =
  Exchange :: string
  Rate_rr :: 'f
  Weight :: 'f

type_synonym 'f rate_map = "(string, 'f RateRecord) gomap"

text \<open>A map is nil until \<^verbatim>\<open>reset\<close> makes it.\<close>

record 'f RateManager =
  EthRateRecord :: "'f rate_map option"
  BtcRateRecord :: "'f rate_map option"
  USDRateRecord :: "'f rate_map option"
  KWRRateRecord :: "'f rate_map option"

record 'f UbbeyRate =
  Eth :: 'f
  Btc :: 'f
  USD :: 'f
  KWR :: 'f

definition zero_manager :: "'f RateManager" where
  "zero_manager = \<lparr>EthRateRecord = None, BtcRateRecord = None, USDRateRecord = None, KWRRateRecord = None\<rparr>"

section \<open>Operations\<close>

definition reset :: "'f RateManager \<Rightarrow> 'f RateManager" where
  "reset m = m\<lparr>EthRateRecord := Some [], BtcRateRecord := Some [], USDRateRecord := Some [], KWRRateRecord := Some []\<rparr>"

text \<open>Storing into a nil map panics with a \<^verbatim>\<open>runtime.plainError\<close>, whose kind is \<^verbatim>\<open>String\<close>.\<close>

definition nil_map :: panic where
  "nil_map = PErrorString ''assignment to entry in nil map''"

definition store_rate :: "'f RateRecord \<Rightarrow> 'f rate_map option \<Rightarrow> panic + 'f rate_map option" where
  "store_rate r m = (case m of None \<Rightarrow> Inl nil_map | Some m \<Rightarrow> Inr (Some (map_put (Exchange r) r m)))"

definition Add :: "string \<Rightarrow> 'f RateRecord \<Rightarrow> ('f RateManager, go_error) eff" where
  "Add currency r m =
     (if currency = ''eth'' then
        (case store_rate r (EthRateRecord m) of Inl p \<Rightarrow> (Panic p, m) | Inr x \<Rightarrow> (Ret None, m\<lparr>EthRateRecord := x\<rparr>))
      else if currency = ''btc'' then
        (case store_rate r (BtcRateRecord m) of Inl p \<Rightarrow> (Panic p, m) | Inr x \<Rightarrow> (Ret None, m\<lparr>BtcRateRecord := x\<rparr>))
      else if currency = ''usd'' then
        (case store_rate r (USDRateRecord m) of Inl p \<Rightarrow> (Panic p, m) | Inr x \<Rightarrow> (Ret None, m\<lparr>USDRateRecord := x\<rparr>))
      else if currency = ''kwr'' then
        (case store_rate r (KWRRateRecord m) of Inl p \<Rightarrow> (Panic p, m) | Inr x \<Rightarrow> (Ret None, m\<lparr>KWRRateRecord := x\<rparr>))
      else (Ret (Some ''currency is not exist''), m))"

text \<open>The two loops of \<^verbatim>\<open>countrate\<close>; each ranges over the map in an order of its own.\<close>

fun sum_weight :: "'f fops \<Rightarrow> 'f rate_map \<Rightarrow> 'f \<Rightarrow> 'f" where
  "sum_weight F [] w = w"
| "sum_weight F ((k, v) # m) w = sum_weight F m (f_add F w (Weight v))"

fun sum_rate :: "'f fops \<Rightarrow> 'f \<Rightarrow> 'f rate_map \<Rightarrow> 'f \<Rightarrow> 'f" where
  "sum_rate F wt [] x = x"
| "sum_rate F wt ((k, v) # m) x =
     sum_rate F wt m (f_add F x (f_mul F (Rate_rr v) (f_div F (Weight v) wt)))"

definition entries :: "'f rate_map option \<Rightarrow> 'f rate_map" where
  "entries m = (case m of None \<Rightarrow> [] | Some m \<Rightarrow> m)"

definition countrate ::
  "'f fops \<Rightarrow> ('f rate_map \<Rightarrow> 'f rate_map) \<Rightarrow> ('f rate_map \<Rightarrow> 'f rate_map) \<Rightarrow> 'f RateManager \<Rightarrow> 'f UbbeyRate" where
  "countrate F ord1 ord2 m =
     (let weight_eth = sum_weight F (ord1 (entries (EthRateRecord m))) (f_zero F) in
      \<lparr>Eth = sum_rate F weight_eth (ord2 (entries (EthRateRecord m))) (f_zero F),
       Btc = f_zero F, USD = f_zero F, KWR = f_zero F\<rparr>)"

section \<open>Storing a rate\<close>

record 'f Rate =
  F_id_r :: uint64
  F_eth :: 'f
  F_btc :: 'f
  F_usd :: 'f
  F_kwr :: 'f
  F_timestamp_r :: int64
  F_create_time_r :: string
  F_modify_time_r :: string

definition BeforeCreate_Rate :: "int64 \<Rightarrow> string \<Rightarrow> 'f Rate \<Rightarrow> 'f Rate" where
  "BeforeCreate_Rate now_unix newFormat r =
     r\<lparr>F_timestamp_r := now_unix, F_create_time_r := newFormat, F_modify_time_r := newFormat\<rparr>"

definition BeforeUpdate_Rate :: "string \<Rightarrow> 'f Rate \<Rightarrow> 'f Rate" where
  "BeforeUpdate_Rate newFormat r = r\<lparr>F_modify_time_r := newFormat\<rparr>"

definition CreateRate :: "'w env \<Rightarrow> ('f Rate \<Rightarrow> 'w \<Rightarrow> go_error \<times> 'w) \<Rightarrow> 'f Rate \<Rightarrow> ('w st, go_error) eff" where
  "CreateRate E create r =
     bindE (call (now_text E)) (\<lambda>newFormat.
     bindE (call (now E)) (\<lambda>t.
     call (create (BeforeCreate_Rate (to_int64 (t div 1000000000)) newFormat r))))"

text \<open>\<^verbatim>\<open>SetRate\<close>: the rate as JSON text under a key that expires.\<close>

definition SetRate ::
  "('f UbbeyRate \<Rightarrow> string + string) \<Rightarrow> (string \<Rightarrow> int \<Rightarrow> string \<Rightarrow> 'w \<Rightarrow> go_error \<times> 'w) \<Rightarrow> int \<Rightarrow>
     'f UbbeyRate \<Rightarrow> ('w st, go_error) eff" where
  "SetRate marshal setex RateInRedis rate =
     (case marshal rate of
        Inl e \<Rightarrow> ret (Some e)
      | Inr val \<Rightarrow> call (setex UBBEY_RATE RateInRedis val))"

section \<open>The weighted mean\<close>

definition real_ops :: "real fops" where
  "real_ops = \<lparr>f_zero = 0, f_add = (+), f_mul = (*), f_div = (/)\<rparr>"

lemma sum_weight_real: "sum_weight real_ops m w = w + (\<Sum>v \<leftarrow> map snd m. Weight v)"
  by (induction m arbitrary: w) (auto simp: real_ops_def)

lemma sum_rate_real:
  "sum_rate real_ops t m x = x + (\<Sum>v \<leftarrow> map snd m. Rate_rr v * (Weight v / t))"
  by (induction m arbitrary: x) (auto simp: real_ops_def)

lemma sum_list_order:
  fixes f :: "'k \<times> 'v \<Rightarrow> real"
  assumes "range_order ord"
  shows "sum_list (map f (ord m)) = sum_list (map f m)"
  using range_order_mset [OF assms] by (metis mset_map sum_mset_sum_list)

lemma sum_list_divide: "(\<Sum>e \<leftarrow> xs. f e / t) = (\<Sum>e \<leftarrow> xs. f e) / t" for t :: real
  by (induction xs) (simp_all add: add_divide_distrib)

lemma countrate_real:
  assumes "range_order ord1" and "range_order ord2"
  shows "Eth (countrate real_ops ord1 ord2 m) =
     (\<Sum>e \<leftarrow> entries (EthRateRecord m). Rate_rr (snd e) * Weight (snd e)) /
     (\<Sum>e \<leftarrow> entries (EthRateRecord m). Weight (snd e))"
proof -
  let ?e = "entries (EthRateRecord m)"
  let ?t = "\<Sum>e \<leftarrow> ?e. Weight (snd e)"
  have z: "f_zero real_ops = 0" by (simp add: real_ops_def)
  have t: "sum_weight real_ops (ord1 ?e) 0 = ?t"
    using sum_list_order [OF assms(1), of "\<lambda>e. Weight (snd e)" ?e] by (simp add: sum_weight_real comp_def)
  have "sum_rate real_ops ?t (ord2 ?e) 0 = (\<Sum>e \<leftarrow> ?e. Rate_rr (snd e) * Weight (snd e) / ?t)"
    using sum_list_order [OF assms(2), of "\<lambda>e. Rate_rr (snd e) * Weight (snd e) / ?t" ?e]
    by (simp add: sum_rate_real comp_def)
  also have "\<dots> = (\<Sum>e \<leftarrow> ?e. Rate_rr (snd e) * Weight (snd e)) / ?t"
    by (rule sum_list_divide)
  finally show ?thesis
    by (simp add: countrate_def Let_def z t)
qed

lemma weighted_bounds:
  fixes lo hi :: real
  assumes "\<forall>e \<in> set m. 0 < Weight (snd e) \<and> lo \<le> Rate_rr (snd e) \<and> Rate_rr (snd e) \<le> hi"
  shows "lo * (\<Sum>e \<leftarrow> m. Weight (snd e)) \<le> (\<Sum>e \<leftarrow> m. Rate_rr (snd e) * Weight (snd e))"
    and "(\<Sum>e \<leftarrow> m. Rate_rr (snd e) * Weight (snd e)) \<le> hi * (\<Sum>e \<leftarrow> m. Weight (snd e))"
    and "m \<noteq> [] \<Longrightarrow> 0 < (\<Sum>e \<leftarrow> m. Weight (snd e))"
proof -
  have nonneg: "0 \<le> (\<Sum>e \<leftarrow> m. Weight (snd e))"
    using assms by (intro sum_list_nonneg) auto
  show "lo * (\<Sum>e \<leftarrow> m. Weight (snd e)) \<le> (\<Sum>e \<leftarrow> m. Rate_rr (snd e) * Weight (snd e))"
    using assms by (induction m) (auto simp: distrib_left intro!: add_mono mult_right_mono)
  show "(\<Sum>e \<leftarrow> m. Rate_rr (snd e) * Weight (snd e)) \<le> hi * (\<Sum>e \<leftarrow> m. Weight (snd e))"
    using assms by (induction m) (auto simp: distrib_left intro!: add_mono mult_right_mono)
  show "0 < (\<Sum>e \<leftarrow> m. Weight (snd e))" if "m \<noteq> []"
  proof (cases m)
    case (Cons e es)
    have "0 \<le> (\<Sum>e \<leftarrow> es. Weight (snd e))"
      using assms Cons by (intro sum_list_nonneg) auto
    moreover have "0 < Weight (snd e)" using assms Cons by simp
    ultimately show ?thesis using Cons by simp
  qed (use that in simp)
qed

lemma countrate_bounds:
  fixes lo hi :: real
  assumes "range_order ord1" and "range_order ord2" and "EthRateRecord m = Some es" and "es \<noteq> []"
    and "\<forall>e \<in> set es. 0 < Weight (snd e) \<and> lo \<le> Rate_rr (snd e) \<and> Rate_rr (snd e) \<le> hi"
  shows "lo \<le> Eth (countrate real_ops ord1 ord2 m) \<and> Eth (countrate real_ops ord1 ord2 m) \<le> hi"
  using weighted_bounds [OF assms(5)] assms(4)
  by (simp add: countrate_real [OF assms(1,2)] assms(3) entries_def pos_le_divide_eq pos_divide_le_eq)

end
