(* ===== verification/Sync_Rows.thy ===== *)
theory Sync_Rows
  imports Table_Store
begin

text \<open>
  What all rows that the synchroniser writes have in common. A statement about the tables and \<^verbatim>\<open>block_now\<close>
  (\<open>table_view\<close>) is kept by everything that only reads; one that survives the ways in which rows are written
  (\<open>row_invariant\<close>) is kept by a copy, and one that survives the marking of forked rows too (\<open>drop_invariant\<close>)
  holds in every reachable state. Two instances: no block has a reward or a miner, since \<^verbatim>\<open>WriteBlock\<close> sets
  neither; every stored transaction has a decimal fee and amount and one of three types.
\<close>

section \<open>Computations that keep a statement\<close>

definition keeps :: "('w st \<Rightarrow> bool) \<Rightarrow> ('w st, 'a) eff \<Rightarrow> bool" where
  "keeps J m \<longleftrightarrow> (\<forall>s. J s \<longrightarrow> wp m (\<lambda>r s'. J s') s)"

lemma keepsI: "(\<And>s. J s \<Longrightarrow> wp m (\<lambda>r s'. J s') s) \<Longrightarrow> keeps J m"
  by (simp add: keeps_def)

lemma keeps_wp: "keeps J m \<Longrightarrow> J s \<Longrightarrow> wp m (\<lambda>r s'. J s') s"
  by (simp add: keeps_def)

lemma keepsD: "keeps J m \<Longrightarrow> J s \<Longrightarrow> m s = (r, s') \<Longrightarrow> J s'"
  by (auto dest: keeps_wp wpD)

lemma keeps_pure: "keeps J (ret a)" "keeps J (panicE p)" "keeps J (getE f)"
  by (simp_all add: keeps_def)

lemma keeps_bindE:
  assumes "keeps J m" and "\<And>a. keeps J (f a)"
  shows "keeps J (bindE m f)"
proof (rule keepsI)
  fix s assume "J s"
  with assms show "wp (bindE m f) (\<lambda>r s'. J s') s"
    by (intro wp_bindI [of m "\<lambda>r s'. J s'"]) (auto simp: keeps_def)
qed

lemma keeps_thenE: "keeps J m \<Longrightarrow> keeps J k \<Longrightarrow> keeps J (thenE m k)"
  unfolding thenE_def by (rule keeps_bindE)

lemma keeps_cases:
  "keeps J m \<Longrightarrow> keeps J n \<Longrightarrow> keeps J (if b then m else n)"
  "keeps J m \<Longrightarrow> (\<And>a. keeps J (f a)) \<Longrightarrow> keeps J (case x of None \<Rightarrow> m | Some a \<Rightarrow> f a)"
  "(\<And>a. keeps J (g a)) \<Longrightarrow> (\<And>a. keeps J (h a)) \<Longrightarrow> keeps J (case y of Inl a \<Rightarrow> g a | Inr a \<Rightarrow> h a)"
  "(\<And>a b. keeps J (p a b)) \<Longrightarrow> keeps J (case z of (a, b) \<Rightarrow> p a b)"
  by (auto split: option.splits sum.splits prod.splits)

lemmas keeps_intros = keeps_pure keeps_bindE keeps_thenE keeps_cases

section \<open>Reading\<close>

locale table_view = chain_node E db snap hdr canon
  for E :: "'w env" and db :: "'w \<Rightarrow> dbst" and snap :: "'w \<Rightarrow> dbst" and hdr :: "string \<Rightarrow> int \<times> string" and canon :: "'w \<Rightarrow> 'c" +
  fixes J :: "'w st \<Rightarrow> bool"
  assumes view: "J s \<Longrightarrow> blocks (db (ext s')) = blocks (db (ext s)) \<Longrightarrow> txs (db (ext s')) = txs (db (ext s)) \<Longrightarrow>
    block_now s' = block_now s \<Longrightarrow> J s'"
begin

lemma keeps_quiet:
  assumes "\<And>s. wp m (\<lambda>r s'. db (ext s') = db (ext s) \<and> block_now s' = block_now s) s"
  shows "keeps J m"
  by (rule keepsI, rule wp_mono [OF assms]) (auto intro: view)

lemma keeps_unchanged:
  assumes "\<And>s. wp m (\<lambda>r s'. unchanged db s s' \<and> Q s r s') s"
  shows "keeps J m"
  by (rule keeps_quiet, rule wp_mono [OF assms]) (simp add: unchanged_def only_ext_fields)

lemma keeps_Mysql: "keeps J (Mysql E)"
  by (rule keeps_quiet, rule wp_mono [OF Mysql_wp]) (auto simp: quiet_fields)

lemma keeps_globals: "keeps J Web3" "keeps J GetBlockNOw" "keeps J (modifyE (\<lambda>s. s\<lparr>GLastBlock := x\<rparr>))"
  by (rule keeps_quiet; simp)+

lemma keeps_rpc:
  "keeps J (callE (GetBlockNumber (rpc E)))" "keeps J (callE (GetBlockByNumber (rpc E) n d))"
  "keeps J (callE (GetTransactionReceipt (rpc E) x))"
  by (rule keeps_quiet; auto simp: wp_callE split: prod.split dest: rpc_number_db rpc_block_db rpc_receipt_db)+

lemmas keeps_reads =
  keeps_unchanged [OF FindBlockByHeight_wp] keeps_unchanged [OF FindBlockByHash_wp]
  keeps_unchanged [OF FindTrasactionByHash_wp] keeps_unchanged [OF FindTrasactionByHeight_wp]
  keeps_unchanged [OF GetMaxBlocNumber_wp]

lemmas keeps_base = keeps_intros keeps_Mysql keeps_globals keeps_rpc keeps_reads

lemma keeps_fetch: "keeps J (fetch_parent E h)" "keeps J (fetch_receipts E ts m rcs)"
proof -
  show "keeps J (fetch_parent E h)" unfolding fetch_parent_def by (intro keeps_base)
  show "keeps J (fetch_receipts E ts m rcs)"
    by (induction ts arbitrary: m rcs) (simp_all, (intro keeps_base)+, simp)
qed

lemma keeps_fees: "keeps J (count_fees rcs m f)"
  by (rule keeps_quiet, rule wp_mono [OF wp_count_fees]) simp

end

section \<open>Writing\<close>

text \<open>What the classification of a transaction can be.\<close>

definition tx_class :: "TransactionResponse \<Rightarrow> int64 \<times> string \<Rightarrow> bool" where
  "tx_class t ty \<longleftrightarrow> ty = (TX_TYPE_UNDEFINED, []) \<or>
     To t = MORTGAGECONTRACTADDR \<and> 64 \<le> length (Input t) \<and> fst ty \<in> {TX_TYPE_ME_MORTGAGE, TX_TYPE_ME_REDEEM} \<and>
     snd ty = ''0x'' @ drop (length (Input t) - 64) (Input t)"

lemma CalcTransactionType_wp:
  "wp (CalcTransactionType t) (\<lambda>r s'. s' = s \<and> (\<forall>ty. r = Ret ty \<longrightarrow> tx_class t ty)) s"
  by (auto simp: CalcTransactionType_def last64_def wp_simps tx_class_def TX_TYPE_UNDEFINED_def)

locale row_invariant = table_view E db snap hdr canon J
  for E :: "'w env" and db :: "'w \<Rightarrow> dbst" and snap :: "'w \<Rightarrow> dbst" and hdr :: "string \<Rightarrow> int \<times> string" and canon :: "'w \<Rightarrow> 'c"
    and J :: "'w st \<Rightarrow> bool" +
  assumes block_new: "J s \<Longrightarrow> block_now s' = block_now s \<Longrightarrow>
      block_created E (new_block_row zero_Block cb n fees) (db (ext s)) (db (ext s')) \<Longrightarrow> J s'"
    and block_normal: "J s \<Longrightarrow> block_now s' = block_now s \<Longrightarrow>
      block_updated b (\<lambda>r. r\<lparr>F_status := NORMAL\<rparr>) (db (ext s)) (db (ext s')) \<Longrightarrow> J s'"
    and tx_new: "J s \<Longrightarrow> block_now s' = block_now s \<Longrightarrow> tx_class tr ty \<Longrightarrow>
      tx_created E (new_tx_row t cb x tr fee ty) (db (ext s)) (db (ext s')) \<Longrightarrow> J s'"
    and tx_normal: "J s \<Longrightarrow> block_now s' = block_now s \<Longrightarrow>
      tx_updated t (\<lambda>r. r\<lparr>F_status_t := NORMAL\<rparr>) (db (ext s)) (db (ext s')) \<Longrightarrow> J s'"
begin

lemma keeps_WriteBlock: "keeps J (WriteBlock E cb ts rs)"
proof -
  have revive: "keeps J (UpdateBlockStatus E (b\<lparr>F_status := NORMAL\<rparr>))" for b
    unfolding UpdateBlockStatus_def
    by (rule keepsI, rule wp_mono [OF updateBlockColumn_wp])
      (auto simp: only_ext_fields intro: view block_normal)
  have create: "keeps J (CreateBlock E (new_block_row zero_Block cb n f))" for n f
    by (rule keepsI, rule wp_mono [OF CreateBlock_wp])
      (auto simp: only_ext_fields intro: view block_new split: out.splits option.splits)
  show ?thesis
    unfolding WriteBlock_def
  proof (intro keeps_thenE keeps_Mysql, rule keepsI, rule wp_bindI [OF FindBlockByHash_wp], goal_cases)
    case (1 s x s1)
    then have s1: "J s1" by (auto simp: unchanged_def only_ext_fields intro: view)
    obtain b err where x: "x = (b, err)" by (cases x)
    show ?case
    proof (cases err)
      case None
      have "keeps J (if F_status b \<noteq> NORMAL then thenE (Mysql E) (UpdateBlockStatus E (b\<lparr>F_status := NORMAL\<rparr>)) else ret None)"
        by (intro keeps_base revive)
      from keeps_wp [OF this s1] show ?thesis by (simp add: x None)
    next
      case (Some e)
      with 1 x have b: "b = zero_Block" by simp
      have "keeps J (if e \<noteq> DATA_NOT_EXIST then ret (Some e) else
          bindE (count_fees rs (order_txs E ts) 0) (\<lambda>fees. thenE (Mysql E)
            (CreateBlock E (new_block_row zero_Block cb (length ts) fees))))"
        by (intro keeps_base keeps_fees create)
      from keeps_wp [OF this s1] show ?thesis by (simp add: x Some b)
    qed
  qed (auto simp: unchanged_def only_ext_fields intro: view)
qed

lemma keeps_write_tx: "keeps J (write_tx E cb rcs x t)"
proof -
  have update: "keeps J (UpdateTransactionStatus E (r\<lparr>F_status_t := NORMAL\<rparr>))" for r
    unfolding UpdateTransactionStatus_def
    by (rule keepsI, rule wp_mono [OF updateTransactionColumn_wp])
      (auto simp: only_ext_fields intro: view tx_normal)
  have create: "keeps J (bindE (CalcTransactionType t) (\<lambda>ty. CreateTransaction E (new_tx_row r cb x t f ty)))" for r f
  proof (rule keepsI, rule wp_bindI [OF CalcTransactionType_wp], goal_cases)
    case (1 s ty s')
    show ?case
      by (rule wp_mono [OF CreateTransaction_wp])
        (use 1 in \<open>auto simp: only_ext_fields intro: view tx_new split: out.splits option.splits\<close>)
  qed simp
  show ?thesis unfolding write_tx_def by (intro keeps_base update create)
qed

lemma keeps_WriteTransactions: "keeps J (WriteTransactions E cb m rcs)"
proof -
  have "keeps J (write_txs E cb rcs xs)" for xs
    by (induction xs rule: list.induct) (auto intro!: keeps_base keeps_write_tx)
  then show ?thesis by (simp add: WriteTransactions_def)
qed

lemma keeps_SyncOneBlock:
  assumes "keeps J (DropBlok E h)" and "keeps J (AddBlockNow (-1))"
  shows "keeps J (SyncOneBlock E h)"
  unfolding SyncOneBlock_def check_parent_def
  by (intro keeps_base assms keeps_WriteBlock keeps_WriteTransactions keeps_fetch)

end

section \<open>Dropping\<close>

locale drop_invariant = row_invariant E db snap hdr canon J
  for E :: "'w env" and db :: "'w \<Rightarrow> dbst" and snap :: "'w \<Rightarrow> dbst" and hdr :: "string \<Rightarrow> int \<times> string" and canon :: "'w \<Rightarrow> 'c"
    and J :: "'w st \<Rightarrow> bool" +
  assumes block_fork: "J s \<Longrightarrow> block_now s' = block_now s \<Longrightarrow>
      block_updated b (\<lambda>r. r\<lparr>F_status := FORK\<rparr>) (db (ext s)) (db (ext s')) \<Longrightarrow> J s'"
    and tx_fork: "J s \<Longrightarrow> block_now s' = block_now s \<Longrightarrow>
      tx_updated t (\<lambda>r. r\<lparr>F_status_t := FORK\<rparr>) (db (ext s)) (db (ext s')) \<Longrightarrow> J s'"
    and any_height: "J s \<Longrightarrow> J (s\<lparr>block_now := n\<rparr>)"
begin

lemma keeps_DropBlok: "keeps J (DropBlok E h)"
proof -
  have block: "keeps J (UpdateBlockStatus E (b\<lparr>F_status := FORK\<rparr>))" for b
    unfolding UpdateBlockStatus_def
    by (rule keepsI, rule wp_mono [OF updateBlockColumn_wp])
      (auto simp: only_ext_fields intro: view block_fork)
  have tx: "keeps J (UpdateTransactionStatus E (t\<lparr>F_status_t := FORK\<rparr>))" for t
    unfolding UpdateTransactionStatus_def
    by (rule keepsI, rule wp_mono [OF updateTransactionColumn_wp])
      (auto simp: only_ext_fields intro: view tx_fork)
  have "keeps J (drop_txs E ts)" for ts
    by (induction ts) (simp_all, (intro keeps_base tx)+)
  then show ?thesis unfolding DropBlok_def by (intro keeps_base block)
qed

lemma keeps_heights: "keeps J (AddBlockNow n)" "keeps J (SetBlockNow n)"
  by (auto simp: keeps_def any_height)

lemma keeps_rounds: "keeps J (poll_round E)" "keeps J (catchup_round E n)" "keeps J (start_sync E)"
  unfolding poll_round_def catchup_round_def start_sync_def
  by (intro keeps_base keeps_heights keeps_DropBlok keeps_SyncOneBlock)+

lemma reachable_keeps:
  assumes "reachable E db s0 p s" and "J s0"
  shows "J s"
  using assms
proof (induction rule: reachable.induct)
  case (start p s)
  then show ?case
    by (auto simp: StartSyncLastBlock_def split: prod.splits out.splits dest: keepsD [OF keeps_rounds(3)])
next
  case (sync p s p' s')
  then show ?case
    by (cases p) (auto split: prod.splits dest: keepsD [OF keeps_rounds(1)] keepsD [OF keeps_rounds(2)])
next
  case (handler p s s')
  then show ?case by (auto simp: handler_frame_def B_of_def intro: view)
qed

end

section \<open>No rewards\<close>

definition no_rewards :: "('w \<Rightarrow> dbst) \<Rightarrow> 'w st \<Rightarrow> bool" where
  "no_rewards db s \<longleftrightarrow> (\<forall>b \<in># blocks (db (ext s)). F_reward b = [] \<and> F_miner b = [])"

lemma no_rewards_invariant:
  assumes "chain_node E db snap hdr canon"
  shows "drop_invariant E db snap hdr canon (no_rewards db)"
  by (intro drop_invariant.intro row_invariant.intro table_view.intro assms; unfold_locales)
    (auto simp: no_rewards_def block_created_def block_updated_def update_blocks_def tx_created_def tx_updated_def
      new_block_row_def BeforeCreate_Block_def BeforeUpdate_Block_def zero_Block_def)

section \<open>Typed transactions\<close>

definition typed_tx :: "Transaction \<Rightarrow> bool" where
  "typed_tx t \<longleftrightarrow> SetString 10 (F_tx_fee t) \<noteq> None \<and> SetString 10 (F_value t) \<noteq> None \<and> F_status_t t \<in> {NORMAL, FORK} \<and>
     (F_tx_type t = TX_TYPE_UNDEFINED \<and> F_tx_type_ext t = [] \<or>
      F_tx_type t \<in> {TX_TYPE_ME_MORTGAGE, TX_TYPE_ME_REDEEM} \<and> F_to t = MORTGAGECONTRACTADDR \<and>
      take 2 (F_tx_type_ext t) = ''0x'' \<and> length (F_tx_type_ext t) = 66)"

definition typed_txs :: "('w \<Rightarrow> dbst) \<Rightarrow> 'w st \<Rightarrow> bool" where
  "typed_txs db s \<longleftrightarrow> (\<forall>t \<in># txs (db (ext s)). typed_tx t)"

lemma typed_new_tx_row: "tx_class tr ty \<Longrightarrow> typed_tx ((BeforeCreate_Transaction m (new_tx_row t cb x tr fee ty))\<lparr>F_id_t := i\<rparr>)"
  by (auto simp: typed_tx_def tx_class_def new_tx_row_def BeforeCreate_Transaction_def)

lemma typed_txs_invariant:
  assumes "chain_node E db snap hdr canon"
  shows "drop_invariant E db snap hdr canon (typed_txs db)"
proof -
  have status: "typed_tx (BeforeUpdate_Transaction m (t\<lparr>F_status_t := NORMAL\<rparr>))"
    "typed_tx (BeforeUpdate_Transaction m (t\<lparr>F_status_t := FORK\<rparr>))" if "typed_tx t" for m t
    using that by (auto simp: typed_tx_def BeforeUpdate_Transaction_def)
  show ?thesis
    by (intro drop_invariant.intro row_invariant.intro table_view.intro assms; unfold_locales)
      (auto simp: typed_txs_def block_created_def block_updated_def update_blocks_def tx_created_def tx_updated_def
        intro: typed_new_tx_row intro!: status)
qed

text \<open>Over typed transactions the loop of a drop never stops at a fee.\<close>

lemma drop_txs_complete:
  assumes "list_all typed_tx ts"
  shows "wp (drop_txs E ts) (\<lambda>r s'. r \<noteq> Ret False) s"
  using assms
proof (induction ts arbitrary: s)
  case (Cons t ts)
  then have IH: "wp (drop_txs E ts) (\<lambda>r s'. r \<noteq> Ret False) s" for s by simp
  have any: "wp m (\<lambda>r s'. True) s" for m :: "('a st, 'b) eff" and s by (simp add: wp_def)
  from Cons.prems obtain n where "SetString 10 (F_tx_fee t) = Some n" by (auto simp: typed_tx_def)
  then show ?case
    by simp (intro wp_thenI [OF any] wp_bindI [OF any]; simp add: IH)
qed simp

interpretation mem_no_rewards: drop_invariant "mem_env node_rpc" mem_db mem_snap mem_hdr served_chain "no_rewards mem_db"
  by (rule no_rewards_invariant [OF mem_chain_node])

interpretation mem_typed_txs: drop_invariant "mem_env node_rpc" mem_db mem_snap mem_hdr served_chain "typed_txs mem_db"
  by (rule typed_txs_invariant [OF mem_chain_node])

end
