(* ===== verification/Catch_Up.thy ===== *)
theory Catch_Up
  imports Example_Chain
begin

text \<open>
  Liveness of the synchroniser: against a node that serves a valid chain and tables that refuse no valid
  row (\<open>Table_Store\<close>), the machine of \<open>Sync_Loop\<close> copies the whole chain and stays at its top. The proof runs
  the model symbolically on the tables, one call after the other.
\<close>

section \<open>What the tables hold\<close>

abbreviation keyrow :: "Block \<Rightarrow> int64 \<times> string \<times> int" where
  "keyrow b \<equiv> (F_block b, F_hash b, F_status b)"

text \<open>The block rows by height, hash and status; the transactions by hash, ignoring case.\<close>

definition holds :: "node \<Rightarrow> int \<Rightarrow> (int64 \<times> string \<times> int) list \<Rightarrow> string set \<Rightarrow> node mem_world st \<Rightarrow> bool" where
  "holds nd n bs ts s \<longleftrightarrow> m_node (ext s) = nd \<and> block_now s = n \<and>
     map keyrow (mem_blocks (m_now (ext s))) = bs \<and>
     (ToLower \<circ> F_tx_hash) ` set (mem_txs (m_now (ext s))) = ts"

lemma holds_upd [simp]:
  "holds nd n bs ts (s\<lparr>c_mysql := b\<rparr>) = holds nd n bs ts s" "holds nd n bs ts (s\<lparr>c_web3 := b\<rparr>) = holds nd n bs ts s"
  "holds nd n bs ts (s\<lparr>GLastBlock := x\<rparr>) = holds nd n bs ts s"
  by (simp_all add: holds_def)

lemma wp_mem_Mysql [wp_simps]: "wp (Mysql (mem_env R)) Q s = Q (Ret ()) (s\<lparr>c_mysql := True\<rparr>)"
  by (cases s) (simp add: Mysql_def wp_simps)

lemma wp_Web3_set [wp_simps]: "wp Web3 Q s = Q (Ret ()) (s\<lparr>c_web3 := True\<rparr>)"
  by (cases s) simp

lemma node_calls:
  "GetTransactionReceipt node_rpc x w = (Ret (case map_of (nd_receipts (m_node w)) x of None \<Rightarrow> Inl EMPTY_RSP | Some r \<Rightarrow> Inr r), w)"
  "GetBlockByNumber node_rpc n d w = (Ret (node_block (served_chain w) n), w)"
  "GetBlockNumber node_rpc w = (Ret (if served_chain w = [] \<or> int (length (served_chain w)) > 2 ^ 62 then Inl EMPTY_RSP
     else Inr (int (length (served_chain w)) - 1)), w)"
  by (simp_all add: node_rpc_def)

lemma find_height_none:
  assumes "holds nd n bs ts s" and "\<forall>x \<in> set bs. fst x \<noteq> h"
  shows "wp (FindBlockByHeight ex_env h) (\<lambda>r s'. r = Ret (zero_Block, Some DATA_NOT_EXIST) \<and> s' = s) s"
proof -
  have "filter (\<lambda>b. F_block b = h \<and> F_status b = NORMAL) (mem_blocks (m_now (ext s))) = []"
    using assms by (auto simp: holds_def filter_empty_conv)
  then show ?thesis by (simp add: FindBlockByHeight_def wp_simps mem_env_def mem_table_def)
qed

lemma find_height_some:
  assumes "holds nd n bs ts s" and "(h, x, NORMAL) \<in> set bs" and "\<And>y. (h, y, NORMAL) \<in> set bs \<Longrightarrow> y = x"
  shows "wp (FindBlockByHeight ex_env h) (\<lambda>r s'. \<exists>b. r = Ret (b, None) \<and> F_hash b = x \<and> s' = s) s"
proof -
  let ?P = "\<lambda>b. F_block b = h \<and> F_status b = NORMAL"
  obtain b0 where "b0 \<in> set (mem_blocks (m_now (ext s)))" "keyrow b0 = (h, x, NORMAL)"
    using assms(1,2) by (auto simp: holds_def)
  then have "b0 \<in> set (filter ?P (mem_blocks (m_now (ext s))))" by simp
  then obtain b rest where b: "filter ?P (mem_blocks (m_now (ext s))) = b # rest" by (cases "filter ?P (mem_blocks (m_now (ext s)))") auto
  then have "b \<in> set (filter ?P (mem_blocks (m_now (ext s))))" by simp
  then have "F_block b = h" "F_status b = NORMAL" "keyrow b \<in> set bs" using assms(1) by (force simp: holds_def)+
  with assms(3) have "F_hash b = x" by simp
  with b show ?thesis by (simp add: FindBlockByHeight_def wp_simps mem_env_def mem_table_def)
qed

lemma find_hash_none:
  assumes "holds nd n bs ts s" and "\<forall>x \<in> set bs. \<not> ci_eq (fst (snd x)) h"
  shows "wp (FindBlockByHash ex_env h) (\<lambda>r s'. r = Ret (zero_Block, Some DATA_NOT_EXIST) \<and> s' = s) s"
proof -
  have "filter (\<lambda>b. ci_eq (F_hash b) h) (mem_blocks (m_now (ext s))) = []"
    using assms by (auto simp: holds_def filter_empty_conv)
  then show ?thesis by (simp add: FindBlockByHash_def wp_simps mem_env_def mem_table_def)
qed

lemma create_block:
  assumes "holds nd n bs ts s" and "\<forall>x \<in> set bs. \<not> ci_eq (fst (snd x)) (F_hash row)"
    and "F_id row = 0" and "F_hash row \<noteq> []" and "F_parent_hash row \<noteq> []"
  shows "wp (CreateBlock ex_env row) (\<lambda>r s'. r = Ret None \<and> holds nd n (bs @ [(F_block row, F_hash row, NORMAL)]) ts s') s"
proof -
  have "\<not> (\<exists>r \<in> set (mem_blocks (m_now (ext s))). F_id r = fresh_id F_id (mem_blocks (m_now (ext s))) \<or> ci_eq (F_hash r) (F_hash row))"
    using assms(1,2) fresh_id_new(2) by (fastforce simp: holds_def)
  with assms show ?thesis
    by (simp add: CreateBlock_def wp_simps mem_env_def mem_table_def BeforeCreate_Block_def Let_def holds_def)
qed

lemma find_tx_none:
  assumes "holds nd n bs ts s" and "ToLower h \<notin> ts"
  shows "wp (FindTrasactionByHash ex_env h) (\<lambda>r s'. r = Ret (zero_Transaction, Some DATA_NOT_EXIST) \<and> s' = s) s"
proof -
  have "filter (\<lambda>b. ci_eq (F_tx_hash b) h) (mem_txs (m_now (ext s))) = []"
    using assms by (force simp: holds_def filter_empty_conv ci_eq_def)
  then show ?thesis by (simp add: FindTrasactionByHash_def wp_simps mem_env_def mem_table_def)
qed

lemma create_tx:
  assumes "holds nd n bs ts s" and "ToLower (F_tx_hash row) \<notin> ts" and "F_id_t row = 0" and "F_tx_hash row \<noteq> []"
  shows "wp (CreateTransaction ex_env row) (\<lambda>r s'. r = Ret None \<and> holds nd n bs (insert (ToLower (F_tx_hash row)) ts) s') s"
proof -
  let ?xs = "mem_txs (m_now (ext s))"
  have ts: "(ToLower \<circ> F_tx_hash) ` set ?xs = ts" using assms(1) unfolding holds_def by (elim conjE)
  have "ToLower (F_tx_hash r) \<in> ts" if "r \<in> set ?xs" for r
    using imageI [OF that, of "ToLower \<circ> F_tx_hash"] by (simp only: ts comp_apply)
  then have "\<not> (\<exists>r \<in> set ?xs. F_id_t r = fresh_id F_id_t ?xs \<or> ci_eq (F_tx_hash r) (F_tx_hash row))"
    using fresh_id_new(2) [of _ ?xs F_id_t] assms(2) unfolding ci_eq_def by metis
  with assms show ?thesis
    by (simp add: CreateTransaction_def wp_simps mem_env_def mem_table_def BeforeCreate_Transaction_def Let_def holds_def)
qed

section \<open>A chain that can be copied\<close>

definition all_txs :: "ChainBlock list \<Rightarrow> TransactionResponse list" where
  "all_txs bs = concat (map Transactions bs)"

definition tx_ok :: "node \<Rightarrow> TransactionResponse \<Rightarrow> bool" where
  "tx_ok nd t \<longleftrightarrow> Hash_tr t \<noteq> [] \<and> map_of (nd_receipts nd) (Hash_tr t) \<noteq> None \<and>
     (64 \<le> length (Input t) \<or> To t \<noteq> MORTGAGECONTRACTADDR)"

text \<open>Numbers, hashes and parents fit, every transaction has a receipt, a hash of its own and, for the mortgage
  contract, an input of at least 64 characters.\<close>

definition copyable :: "node \<Rightarrow> bool" where
  "copyable nd \<longleftrightarrow> nd_chain nd \<noteq> [] \<and> valid_chain 0 genesis_parent (nd_chain nd) \<and> int (length (nd_chain nd)) \<le> 2 ^ 62 \<and>
     list_all (tx_ok nd) (all_txs (nd_chain nd)) \<and> distinct (map (\<lambda>t. ToLower (Hash_tr t)) (all_txs (nd_chain nd)))"

definition copied :: "node \<Rightarrow> nat \<Rightarrow> (int64 \<times> string \<times> int) list" where
  "copied nd k = map (\<lambda>i. (int i, Hash (nd_chain nd ! i), NORMAL)) [0..<k]"

definition tx_keys :: "node \<Rightarrow> nat \<Rightarrow> string set" where
  "tx_keys nd k = (\<lambda>t. ToLower (Hash_tr t)) ` set (all_txs (take k (nd_chain nd)))"

lemma copied_Suc: "copied nd (Suc k) = copied nd k @ [(int k, Hash (nd_chain nd ! k), NORMAL)]"
  by (simp add: copied_def)

lemma tx_keys_Suc:
  "k < length (nd_chain nd) \<Longrightarrow>
     tx_keys nd (Suc k) = tx_keys nd k \<union> (\<lambda>t. ToLower (Hash_tr t)) ` set (Transactions (nd_chain nd ! k))"
  by (auto simp: tx_keys_def all_txs_def take_Suc_conv_app_nth)

lemma block_header:
  assumes "copyable nd" and "k < length (nd_chain nd)"
  shows "Number (nd_chain nd ! k) = int k" "mem_hdr (Hash (nd_chain nd ! k)) = (int k, ParentHash (nd_chain nd ! k))"
    "0 < k \<Longrightarrow> ParentHash (nd_chain nd ! k) = Hash (nd_chain nd ! (k - 1))"
    "k = 0 \<Longrightarrow> ParentHash (nd_chain nd ! k) = genesis_parent"
proof -
  have v: "valid_chain 0 genesis_parent (nd_chain nd)" using assms by (simp add: copyable_def)
  from valid_chain_nth [OF v assms(2)] show "Number (nd_chain nd ! k) = int k"
    "mem_hdr (Hash (nd_chain nd ! k)) = (int k, ParentHash (nd_chain nd ! k))"
    "0 < k \<Longrightarrow> ParentHash (nd_chain nd ! k) = Hash (nd_chain nd ! (k - 1))" by simp_all
  show "k = 0 \<Longrightarrow> ParentHash (nd_chain nd ! k) = genesis_parent"
    using v assms(2) by (cases "nd_chain nd") simp_all
qed

lemma mem_hdr_Nil: "fst (mem_hdr []) = -1"
  by (simp add: mem_hdr_def ToLower_def)

lemma hash_nonempty:
  assumes "copyable nd" and "k < length (nd_chain nd)"
  shows "Hash (nd_chain nd ! k) \<noteq> []" "ParentHash (nd_chain nd ! k) \<noteq> []"
proof -
  have ne: "Hash (nd_chain nd ! i) \<noteq> []" if "i < length (nd_chain nd)" for i
    using block_header(2) [OF assms(1) that] mem_hdr_Nil by auto
  then show "Hash (nd_chain nd ! k) \<noteq> []" using assms(2) .
  show "ParentHash (nd_chain nd ! k) \<noteq> []"
    using block_header(3,4) [OF assms] ne [of "k - 1"] assms(2) by (cases "k = 0") (auto simp: genesis_parent_def)
qed

lemma new_hash:
  assumes "copyable nd" and "k < length (nd_chain nd)"
  shows "\<forall>x \<in> set (copied nd k). \<not> ci_eq (fst (snd x)) (Hash (nd_chain nd ! k))"
proof (clarsimp simp: copied_def)
  fix i
  assume i: "i < k" "ci_eq (Hash (nd_chain nd ! i)) (Hash (nd_chain nd ! k))"
  then have "mem_hdr (Hash (nd_chain nd ! i)) = mem_hdr (Hash (nd_chain nd ! k))" by (simp add: mem_hdr_def ci_eq_def)
  with block_header(2) [OF assms] block_header(2) [OF assms(1), of i] i assms(2) show False by simp
qed

lemma new_txs:
  assumes "copyable nd" and "k < length (nd_chain nd)" and "ts = Transactions (nd_chain nd ! k)"
  shows "(\<lambda>t. ToLower (Hash_tr t)) ` set ts \<inter> tx_keys nd k = {}" "distinct (map (\<lambda>t. ToLower (Hash_tr t)) ts)"
    "\<forall>t \<in> set ts. tx_ok nd t"
proof -
  let ?f = "\<lambda>t. ToLower (Hash_tr t)"
  have "all_txs (nd_chain nd) = all_txs (take k (nd_chain nd)) @ ts @ all_txs (drop (Suc k) (nd_chain nd))"
    using id_take_nth_drop [OF assms(2)] assms(3) unfolding all_txs_def
    by (metis append_Cons append_Nil concat.simps(2) concat_append list.simps(9) map_append)
  note split = this
  have "distinct (map ?f (all_txs (nd_chain nd)))" "list_all (tx_ok nd) (all_txs (nd_chain nd))"
    using assms(1) by (simp_all add: copyable_def)
  then show "?f ` set ts \<inter> tx_keys nd k = {}" "distinct (map ?f ts)" "\<forall>t \<in> set ts. tx_ok nd t"
    unfolding split tx_keys_def by (auto simp: list_all_iff)
qed

section \<open>Copying one block\<close>

definition fetched :: "TransactionResponse set \<Rightarrow> tx_map \<Rightarrow> receipt_map \<Rightarrow> bool" where
  "fetched T m rs \<longleftrightarrow> fst ` set m = Hash_tr ` T \<and> distinct (map fst m) \<and> (\<forall>e \<in> set m. fst e = Hash_tr (snd e) \<and> snd e \<in> T) \<and>
     (\<forall>h \<in> fst ` set m. map_of rs h \<noteq> None)"

lemma set_map_put: "set (map_put k v m) \<subseteq> insert (k, v) (set m)"
  by (induction m) (auto split: if_splits)

lemma fetched_put:
  assumes "fetched T m rs"
  shows "fetched (insert t T) (map_put (Hash_tr t) t m) (map_put (Hash_tr t) r rs)"
proof -
  have "\<forall>e \<in> set (map_put (Hash_tr t) t m). fst e = Hash_tr (snd e) \<and> snd e \<in> insert t T"
    using set_map_put [of "Hash_tr t" t m] assms unfolding fetched_def by fastforce
  moreover have "fst ` set (map_put (Hash_tr t) t m) = Hash_tr ` insert t T"
    using assms unfolding fetched_def set_keys_map_put image_insert by (elim conjE) (rule arg_cong)
  moreover have "distinct (map fst (map_put (Hash_tr t) t m))" using assms unfolding fetched_def by (elim conjE) (rule distinct_map_put)
  moreover have "\<forall>h \<in> fst ` set m. map_of rs h \<noteq> None" using assms unfolding fetched_def by blast
  then have "\<forall>h \<in> fst ` set (map_put (Hash_tr t) t m). map_of (map_put (Hash_tr t) r rs) h \<noteq> None"
    unfolding set_keys_map_put map_of_map_put by auto
  ultimately show ?thesis unfolding fetched_def by (intro conjI)
qed

lemma fetch_receipts_run:
  assumes "holds nd n bs ts s" and "fetched T m rs" and "\<forall>t \<in> set l. tx_ok nd t"
  shows "wp (fetch_receipts ex_env l m rs) (\<lambda>r s'. \<exists>m' rs'. r = Ret (Inr (m', rs')) \<and> fetched (T \<union> set l) m' rs' \<and>
    holds nd n bs ts s') s"
  using assms
proof (induction l arbitrary: m rs T s)
  case (Cons t l)
  obtain r where r: "map_of (nd_receipts nd) (Hash_tr t) = Some r" using Cons.prems(3) by (auto simp: tx_ok_def)
  have nd: "m_node (ext s) = nd" using Cons.prems(1) by (simp add: holds_def)
  have "holds nd n bs ts (s\<lparr>c_web3 := True\<rparr>)" using Cons.prems(1) by simp
  with Cons.IH [OF this fetched_put [OF Cons.prems(2), of t r]] Cons.prems(3) r nd show ?case
    unfolding fetch_receipts.simps wp_thenE wp_Web3_set wp_bindE wp_callE by (simp add: node_calls)
qed simp

lemma write_tx_run:
  assumes "holds nd n bs ts s" and "h = Hash_tr t" and "tx_ok nd t" and "map_of rs h \<noteq> None" and "ToLower h \<notin> ts"
  shows "wp (write_tx ex_env cb rs h t) (\<lambda>r s'. r = Ret None \<and> holds nd n bs (insert (ToLower h) ts) s') s"
proof -
  obtain rc where rc: "map_of rs h = Some rc" using assms(4) by blast
  have "\<exists>ty. \<forall>s :: node mem_world st. CalcTransactionType t s = (Ret ty, s)"
    using assms(3) unfolding tx_ok_def CalcTransactionType_def by (auto simp: last64_def eff_defs)
  then obtain ty where ty: "\<And>s :: node mem_world st. CalcTransactionType t s = (Ret ty, s)" by blast
  have calc: "wp (CalcTransactionType t) Q s = Q (Ret ty) s" for Q and s :: "node mem_world st" by (simp add: wp_def ty)
  let ?row = "new_tx_row zero_Transaction cb h t (GasPrice t * GasUsed_rc rc) ty"
  have row: "F_tx_hash ?row = h" "F_id_t ?row = 0" by (simp_all add: new_tx_row_def zero_Transaction_def)
  have "holds nd n bs ts (s\<lparr>c_mysql := True\<rparr>)" using assms(1) by simp
  note find = find_tx_none [OF this assms(5)] and create = create_tx [OF this, of ?row, unfolded row]
  show ?thesis
    unfolding write_tx_def wp_thenE wp_mem_Mysql out.case
    apply (rule wp_bindI [OF find])
     apply (use create assms rc in \<open>auto simp: wp_bindE calc tx_ok_def\<close>)
    done
qed

lemma write_txs_run:
  assumes "holds nd n bs ts s" and "\<forall>e \<in> set m. fst e = Hash_tr (snd e) \<and> tx_ok nd (snd e) \<and> map_of rs (fst e) \<noteq> None"
    and "distinct (map (\<lambda>e. ToLower (fst e)) m)" and "(\<lambda>e. ToLower (fst e)) ` set m \<inter> ts = {}"
  shows "wp (write_txs ex_env cb rs m) (\<lambda>r s'. r = Ret None \<and> holds nd n bs (ts \<union> (\<lambda>e. ToLower (fst e)) ` set m) s') s"
  using assms
proof (induction m arbitrary: ts s)
  case (Cons e m)
  obtain h t where e: "e = (h, t)" by fastforce
  have one: "wp (write_tx ex_env cb rs h t) (\<lambda>r s'. r = Ret None \<and> holds nd n bs (insert (ToLower h) ts) s') s"
    using Cons.prems by (intro write_tx_run) (auto simp: e)
  have "wp (write_txs ex_env cb rs m) (\<lambda>r s'. r = Ret None \<and>
      holds nd n bs (insert (ToLower h) ts \<union> (\<lambda>e. ToLower (fst e)) ` set m) s') s1"
    if "holds nd n bs (insert (ToLower h) ts) s1" for s1
    using that Cons.prems(2-4) by (intro Cons.IH) (auto simp: e)
  note rest = this
  from one show ?case
    unfolding e write_txs.simps by (rule wp_bindI) (use rest in \<open>auto simp: insert_commute\<close>)
qed simp

lemma write_block_run:
  assumes "holds nd n bs ts s" and "\<forall>x \<in> set bs. \<not> ci_eq (fst (snd x)) (Hash cb)"
    and "Hash cb \<noteq> []" and "ParentHash cb \<noteq> []" and "\<forall>h \<in> fst ` set m. map_of rs h \<noteq> None"
  shows "wp (WriteBlock ex_env cb m rs) (\<lambda>r s'. r = Ret None \<and> holds nd n (bs @ [(to_int64 (Number cb), Hash cb, NORMAL)]) ts s') s"
proof -
  have "holds nd n bs ts (s\<lparr>c_mysql := True\<rparr>)" using assms(1) by simp
  note find = find_hash_none [OF this assms(2)]
  have fees: "\<exists>f. \<forall>Q. \<forall>s' :: node mem_world st. wp (count_fees rs l x) Q s' = Q (Ret f) s'" if "set l \<subseteq> set m" for l x
    using that
  proof (induction l arbitrary: x)
    case Nil
    show ?case by (rule exI [of _ x]) simp
  next
    case (Cons e l)
    then obtain r where "map_of rs (fst e) = Some r" using assms(5) by (auto simp del: not_None_eq)
    with Cons show ?case by (cases e) simp
  qed
  from fees [OF subset_refl, of 0]
  obtain f where f: "\<And>Q s'. wp (count_fees rs m 0) Q (s' :: node mem_world st) = Q (Ret f) s'" by (elim exE) simp
  let ?row = "new_block_row zero_Block cb (length m) f"
  have row: "F_hash ?row = Hash cb" "F_block ?row = to_int64 (Number cb)" "F_id ?row = 0" "F_parent_hash ?row = ParentHash cb"
    by (simp_all add: new_block_row_def zero_Block_def)
  note create = create_block [of nd n bs ts _ ?row, unfolded row, OF _ assms(2) refl assms(3,4)]
  show ?thesis
    unfolding WriteBlock_def wp_thenE wp_mem_Mysql out.case
    by (rule wp_bindI [OF find]) (use create assms(1) in \<open>auto simp: wp_bindE wp_thenE wp_mem_Mysql f\<close>)
qed

lemma drop_nothing:
  assumes "holds nd n bs ts s" and "\<forall>x \<in> set bs. fst x \<noteq> h"
  shows "wp (DropBlok ex_env h) (\<lambda>r s'. r = Ret None \<and> holds nd n bs ts s') s"
proof -
  have "holds nd n bs ts (s\<lparr>c_mysql := True\<rparr>)" using assms(1) by simp
  note find = find_height_none [OF this assms(2)]
  show ?thesis
    unfolding DropBlok_def
    by (rule wp_ifI, use assms(1) in simp, unfold wp_thenE wp_mem_Mysql out.case, rule wp_bindI [OF find])
      (use assms(1) in auto)
qed

lemma copied_heights: "x \<in> set (copied nd k) \<Longrightarrow> fst x < int k"
  by (auto simp: copied_def)

lemma check_parent_run:
  assumes "copyable nd" and "k < length (nd_chain nd)" and "holds nd n (copied nd k) ts s"
    and "p = (if k = 0 then None else Some (nd_chain nd ! (k - 1)))"
  shows "wp (check_parent ex_env (int k) p) (\<lambda>r s'. r = Ret None \<and> holds nd n (copied nd k) ts s') s"
proof -
  have h: "holds nd n (copied nd k) ts (s\<lparr>c_mysql := True\<rparr>)" using assms(3) by simp
  have "int k < 2 ^ 62" using assms(1,2) by (simp add: copyable_def)
  then have k: "to_int64 (int k - 1) = int k - 1" by (intro to_int64_id) (simp add: in_int64_def)
  show ?thesis
  proof (cases "k = 0")
    case True
    have "\<forall>x \<in> set (copied nd k). fst x \<noteq> int k - 1" by (simp add: True copied_def)
    note find = find_height_none [OF h this]
    show ?thesis
      unfolding check_parent_def wp_thenE wp_mem_Mysql out.case k
      by (rule wp_bindI [OF find]) (use True h in auto)
  next
    case False
    let ?x = "Hash (nd_chain nd ! (k - 1))"
    have "(int k - 1, ?x, NORMAL) \<in> set (copied nd k)" using False by (auto simp: copied_def intro!: image_eqI [of _ _ "k - 1"])
    moreover have "(int k - 1, y, NORMAL) \<in> set (copied nd k) \<Longrightarrow> y = ?x" for y
    proof -
      assume "(int k - 1, y, NORMAL) \<in> set (copied nd k)"
      then obtain i where i: "int k - 1 = int i" "y = Hash (nd_chain nd ! i)" by (auto simp: copied_def)
      then have "i = k - 1" by linarith
      with i(2) show "y = ?x" by simp
    qed
    ultimately have find: "wp (FindBlockByHeight ex_env (int k - 1)) (\<lambda>r s'. \<exists>b. r = Ret (b, None) \<and> F_hash b = ?x \<and> s' = s\<lparr>c_mysql := True\<rparr>) (s\<lparr>c_mysql := True\<rparr>)"
      by (rule find_height_some [OF h])
    show ?thesis
      unfolding check_parent_def wp_thenE wp_mem_Mysql out.case k
      by (rule wp_bindI [OF find]) (use False h assms(4) in auto)
  qed
qed

text \<open>One block: everything succeeds, and the tables hold the block and its transactions.\<close>

lemma served_whole: "copyable nd \<Longrightarrow> m_node w = nd \<Longrightarrow> served_chain w = nd_chain nd"
  by (simp add: copyable_def served_chain_def)

lemma fetch_parent_run:
  assumes "copyable nd" and "k < length (nd_chain nd)" and "holds nd n bs ts s"
  shows "wp (fetch_parent ex_env (int k)) (\<lambda>r s'. r = Ret (Inr (if k = 0 then None else Some (nd_chain nd ! (k - 1)))) \<and>
    holds nd n bs ts s') s"
proof (cases "k = 0")
  case False
  have "int k < 2 ^ 62" using assms(1,2) by (simp add: copyable_def)
  then have i: "to_int64 (int k - 1) = int (k - 1)" using False by (subst to_int64_id) (simp_all add: in_int64_def of_nat_diff)
  have "served_chain (ext s) = nd_chain nd" using assms by (intro served_whole) (simp_all add: holds_def)
  with False assms(2,3) show ?thesis
    unfolding fetch_parent_def wp_if wp_thenE wp_Web3_set wp_bindE wp_callE i
    by (simp add: node_calls node_block_def nat_diff_distrib)
qed (use assms(3) in \<open>simp add: fetch_parent_def\<close>)

lemma wp_seq:
  assumes "wp m (\<lambda>r s'. r = Ret a \<and> P s') s" and "\<And>s'. P s' \<Longrightarrow> wp (f a) Q s'"
  shows "wp (bindE m f) Q s"
  by (rule wp_bindI [OF assms(1)]) (use assms(2) in auto)

lemma thenE_assoc: "thenE m (bindE f g) = bindE (thenE m f) g"
  by (simp add: thenE_def bindE_assoc)

lemma write_new_txs:
  assumes "holds nd n bs ts s" and "fetched (set l) m rs" and "(\<lambda>t. ToLower (Hash_tr t)) ` set l \<inter> ts = {}"
    and "distinct (map (\<lambda>t. ToLower (Hash_tr t)) l)" and "\<forall>t \<in> set l. tx_ok nd t"
  shows "wp (WriteTransactions ex_env cb m rs) (\<lambda>r s'. r = Ret None \<and>
    holds nd n bs (ts \<union> (\<lambda>t. ToLower (Hash_tr t)) ` set l) s') s"
proof -
  have keys: "fst ` set m = Hash_tr ` set l" "distinct (map fst m)" using assms(2) unfolding fetched_def by blast+
  have img: "(\<lambda>e. ToLower (fst e)) ` set m = (\<lambda>t. ToLower (Hash_tr t)) ` set l"
    using arg_cong [OF keys(1), of "(`) ToLower"] by (simp add: image_image)
  have "inj_on (\<lambda>t. ToLower (Hash_tr t)) (set l)" using assms(4) by (simp add: distinct_map)
  then have "inj_on ToLower (Hash_tr ` set l)" by (auto simp: inj_on_def)
  then have "distinct (map ToLower (map fst m))" unfolding distinct_map [of ToLower] set_map keys(1) using keys(2) by simp
  then have dist: "distinct (map (\<lambda>e. ToLower (fst e)) m)" by (simp only: map_map comp_def)
  have "\<forall>e \<in> set m. fst e = Hash_tr (snd e) \<and> tx_ok nd (snd e) \<and> map_of rs (fst e) \<noteq> None"
    using assms(2,5) unfolding fetched_def by blast
  from write_txs_run [OF assms(1) this dist] assms(3) show ?thesis
    by (simp add: WriteTransactions_def mem_env_def img)
qed

lemma sync_one_run:
  assumes "copyable nd" and "k < length (nd_chain nd)" and "holds nd n (copied nd k) (tx_keys nd k) s"
  shows "wp (SyncOneBlock ex_env (int k)) (\<lambda>r s'. r = Ret None \<and> holds nd n (copied nd (Suc k)) (tx_keys nd (Suc k)) s') s"
proof -
  let ?cb = "nd_chain nd ! k" and ?bs = "copied nd k" and ?ts = "tx_keys nd k"
  let ?p = "if k = 0 then None else Some (nd_chain nd ! (k - 1))"
  note new = new_txs [OF assms(1,2) refl]
  have "int k < 2 ^ 62" using assms(1,2) by (simp add: copyable_def)
  then have num: "to_int64 (Number ?cb) = int k"
    using block_header(1) [OF assms(1,2)] by (simp add: to_int64_id in_int64_def)
  have drop: "wp (DropBlok ex_env (int k)) (\<lambda>r s'. r = Ret None \<and> holds nd n ?bs ?ts s') s"
    using copied_heights by (intro drop_nothing [OF assms(3)]) fastforce
  have block: "wp (thenE Web3 (callE (GetBlockByNumber (rpc ex_env) (int k) True)))
      (\<lambda>r s'. r = Ret (Inr ?cb) \<and> holds nd n ?bs ?ts s') s" if "holds nd n ?bs ?ts s" for s
  proof -
    have "served_chain (ext s) = nd_chain nd" using assms(1) that by (intro served_whole) (simp_all add: holds_def)
    with that assms(2) show ?thesis
      unfolding wp_thenE wp_Web3_set wp_callE by (simp add: node_calls node_block_def)
  qed
  have fetch: "wp (fetch_receipts ex_env (Transactions ?cb) [] []) (\<lambda>r s'. \<exists>m rs. r = Ret (Inr (m, rs)) \<and>
      fetched (set (Transactions ?cb)) m rs \<and> holds nd n ?bs ?ts s') s" if "holds nd n ?bs ?ts s" for s
    using fetch_receipts_run [OF that, of "{}" "[]" "[]"] new(3) by (simp add: fetched_def)
  have store: "wp (WriteTransactions ex_env ?cb m rs) (\<lambda>r s'. r = Ret None \<and>
      holds nd n (copied nd (Suc k)) (tx_keys nd (Suc k)) s') s"
    if "fetched (set (Transactions ?cb)) m rs" and "holds nd n (copied nd (Suc k)) ?ts s" for m rs s
    using write_new_txs [OF that(2,1) new] by (simp add: tx_keys_Suc [OF assms(2)])
  have parent: "wp (check_parent ex_env (int k) ?p) (\<lambda>r s'. r = Ret None \<and> holds nd n ?bs ?ts s') s"
    if "holds nd n ?bs ?ts s" for s
    by (rule check_parent_run [OF assms(1,2) that refl])
  have row: "wp (WriteBlock ex_env ?cb m rs) (\<lambda>r s'. r = Ret None \<and> holds nd n (copied nd (Suc k)) ?ts s') s"
    if "fetched (set (Transactions ?cb)) m rs" and "holds nd n ?bs ?ts s" for m rs s
    using write_block_run [OF that(2) new_hash [OF assms(1,2)] hash_nonempty [OF assms(1,2)], of m rs] that(1)
    unfolding num copied_Suc fetched_def by blast
  show ?thesis
    unfolding SyncOneBlock_def thenE_assoc [of Web3]
    apply (rule wp_seq [OF drop], simp only: option.case)
    apply (rule wp_seq [OF block], assumption, simp only: sum.case wp_thenE wp_modifyE out.case)
    apply (rule wp_seq [OF fetch_parent_run [OF assms(1,2)]], simp, simp only: sum.case)
    apply (rule wp_bindI [OF fetch], assumption)
     apply (elim exE conjE, drule out.inject(1) [THEN iffD1], hypsubst, simp only: sum.case prod.case)
     apply (rule wp_seq [OF parent], assumption, simp only: option.case)
     apply (rule wp_seq [OF row], assumption, assumption, simp only: option.case)
     apply (rule store, assumption, assumption)
    apply simp
    done
qed

section \<open>The loop\<close>

lemma at_top_or_below:
  assumes "copyable nd" and "k \<le> length (nd_chain nd)" and "holds nd (int k - 1) (copied nd k) (tx_keys nd k) s"
  shows "wp (poll_round ex_env) (\<lambda>r s'. r = Ret (Catchup (int (length (nd_chain nd)) - 1)) \<and>
    holds nd (int k - 1) (copied nd k) (tx_keys nd k) s') s"
proof -
  have "served_chain (ext s) = nd_chain nd" using assms(1,3) by (intro served_whole) (simp_all add: holds_def)
  moreover have "nd_chain nd \<noteq> []" "int (length (nd_chain nd)) \<le> 2 ^ 62" using assms(1) by (simp_all add: copyable_def)
  moreover from this have "to_int64 (int (length (nd_chain nd)) - 1) = int (length (nd_chain nd)) - 1"
    by (intro to_int64_id) (simp add: in_int64_def)
  moreover have "block_now s = int k - 1" using assms(3) by (simp add: holds_def)
  ultimately show ?thesis
    using assms(2,3) unfolding poll_round_def wp_thenE wp_Web3_set wp_bindE wp_callE
    by (simp add: node_calls wp_bindE)
qed

lemma copies_next:
  assumes "copyable nd" and "k < length (nd_chain nd)" and "holds nd (int k - 1) (copied nd k) (tx_keys nd k) s"
    and "tip = int (length (nd_chain nd)) - 1"
  shows "wp (catchup_round ex_env tip) (\<lambda>r s'. r = Ret (Catchup tip) \<and>
    holds nd (int k) (copied nd (Suc k)) (tx_keys nd (Suc k)) s') s"
proof -
  have "int k < 2 ^ 62" using assms(1,2) by (simp add: copyable_def)
  then have k: "to_int64 (int k - 1 + 1) = int k" by (subst to_int64_id) (simp_all add: in_int64_def)
  have "block_now s = int k - 1" using assms(3) by (simp add: holds_def)
  moreover have "wp (bindE (SyncOneBlock ex_env (int k)) (\<lambda>err. case err of Some e \<Rightarrow> ret (Catchup tip)
      | None \<Rightarrow> thenE (AddBlockNow 1) (ret (Catchup tip)))) (\<lambda>r s'. r = Ret (Catchup tip) \<and>
    holds nd (int k) (copied nd (Suc k)) (tx_keys nd (Suc k)) s') s"
    by (rule wp_seq [OF sync_one_run [OF assms(1-3)]]) (use k in \<open>simp add: wp_thenE holds_def\<close>)
  moreover have "int k - 1 < tip" using assms(2,4) by simp
  ultimately show ?thesis
    using k unfolding catchup_round_def wp_bindE [of GetBlockNOw] by simp
qed

abbreviation whole :: "node \<Rightarrow> node mem_world st \<Rightarrow> bool" where
  "whole nd s \<equiv> holds nd (int (length (nd_chain nd)) - 1) (copied nd (length (nd_chain nd))) (tx_keys nd (length (nd_chain nd))) s"

text \<open>At the top the loop alternates between polling and finding nothing to copy.\<close>

lemma stays_whole:
  assumes "copyable nd" and "whole nd s" and "p \<in> {Poll, Catchup (int (length (nd_chain nd)) - 1)}"
    and "sync_step ex_env (p, s) = (p', s')"
  shows "whole nd s' \<and> p' \<in> {Poll, Catchup (int (length (nd_chain nd)) - 1)}"
proof (cases "p = Poll")
  case True
  with assms(4) obtain r where r: "poll_round ex_env s = (r, s')" "p' = after_round r" by (auto split: prod.splits)
  from wpD [OF at_top_or_below [OF assms(1) order_refl assms(2)] r(1)] r(2) show ?thesis by simp
next
  case False
  have "block_now s = int (length (nd_chain nd)) - 1" using assms(2) by (simp add: holds_def)
  with False assms(2-4) show ?thesis
    by (auto simp: catchup_round_def GetBlockNOw_def eff_defs)
qed

lemma starts_below:
  assumes "m_node (ext s) = nd" and "mem_blocks (m_now (ext s)) = []" and "mem_txs (m_now (ext s)) = []"
  shows "\<exists>s1. StartSyncLastBlock ex_env s = (Poll, s1) \<and> holds nd (int 0 - 1) (copied nd 0) (tx_keys nd 0) s1"
proof -
  have "wp (start_sync ex_env) (\<lambda>r s1. r = Ret Poll \<and> holds nd (int 0 - 1) (copied nd 0) (tx_keys nd 0) s1) s"
    using assms unfolding start_sync_def wp_thenE wp_mem_Mysql
    by (simp add: GetMaxBlocNumber_def wp_simps mem_env_def mem_table_def holds_def copied_def tx_keys_def all_txs_def
        to_int64_def)
  from wpD [OF this prod.collapse [symmetric]] show ?thesis
    by (cases "start_sync ex_env s") (simp add: StartSyncLastBlock_def)
qed

lemma copies_all:
  assumes "copyable nd" and "holds nd (int 0 - 1) (copied nd 0) (tx_keys nd 0) s1" and "k \<le> length (nd_chain nd)"
    and "tip = int (length (nd_chain nd)) - 1"
  shows "\<exists>s2. (sync_step ex_env ^^ Suc k) (Poll, s1) = (Catchup tip, s2) \<and> holds nd (int k - 1) (copied nd k) (tx_keys nd k) s2"
  using assms(3)
proof (induction k)
  case 0
  obtain r s2 where r: "poll_round ex_env s1 = (r, s2)" by fastforce
  from wpD [OF at_top_or_below [OF assms(1) _ assms(2)] r] r assms(4) show ?case by simp
next
  case (Suc k)
  then obtain s2 where s2: "(sync_step ex_env ^^ Suc k) (Poll, s1) = (Catchup tip, s2)"
    "holds nd (int k - 1) (copied nd k) (tx_keys nd k) s2" by auto
  obtain r s3 where r: "catchup_round ex_env tip s2 = (r, s3)" by fastforce
  from wpD [OF copies_next [OF assms(1) _ s2(2) assms(4)] r] Suc.prems
  have "r = Ret (Catchup tip)" "holds nd (int k) (copied nd (Suc k)) (tx_keys nd (Suc k)) s3" by simp_all
  moreover have "(sync_step ex_env ^^ Suc (Suc k)) (Poll, s1) = sync_step ex_env ((sync_step ex_env ^^ Suc k) (Poll, s1))"
    by simp
  ultimately show ?case unfolding s2(1) by (simp add: r)
qed

lemma caught_up:
  assumes "copyable nd" and "m_node (ext s) = nd" and "mem_blocks (m_now (ext s)) = []" and "mem_txs (m_now (ext s)) = []"
  shows "\<exists>p s'. (sync_step ex_env ^^ (Suc (length (nd_chain nd)) + d)) (StartSyncLastBlock ex_env s) = (p, s') \<and> whole nd s' \<and>
    p \<in> {Poll, Catchup (int (length (nd_chain nd)) - 1)}"
proof (induction d)
  case 0
  from starts_below [OF assms(2-4)] obtain s1 where s1: "StartSyncLastBlock ex_env s = (Poll, s1)"
    "holds nd (int 0 - 1) (copied nd 0) (tx_keys nd 0) s1" by blast
  from copies_all [OF assms(1) s1(2) order_refl refl] s1(1) show ?case by auto
next
  case (Suc d)
  then obtain p s' where p: "(sync_step ex_env ^^ (Suc (length (nd_chain nd)) + d)) (StartSyncLastBlock ex_env s) = (p, s')"
    "whole nd s'" "p \<in> {Poll, Catchup (int (length (nd_chain nd)) - 1)}" by blast
  obtain p' s'' where "sync_step ex_env (p, s') = (p', s'')" by fastforce
  with stays_whole [OF assms(1) p(2,3) this] p(1) show ?case by auto
qed

end
