(* ===== verification/Prop_Sync.thy ===== *)
theory Prop_Sync
  imports Example_Api Rate_Sync Sync_Rows Catch_Up
begin

text \<open>
  The properties of the synchroniser, of the reward accounting and of the exchange rates, stated for any
  database and chain node that keep their contracts, each with a run of the model on \<open>Example_Chain\<close> or
  \<open>Example_Api\<close> that shows its hypotheses hold together.
\<close>

section \<open>The synchroniser\<close>







text \<open>C7: dropping a height above 1 that reports no error refines the removal of that height from the
  map that gives the \<^const>\<open>NORMAL\<close> blocks of every height.\<close>

theorem drop_clears_height:
  assumes "gorm_db_reliable E db snap" and "unique_ids (blocks (db (ext s)))" and "1 < h"
    and "size (normal_at (blocks (db (ext s))) h) \<le> 1" and "DropBlok E h s = (Ret None, s')"
  shows "normal_at (blocks (db (ext s'))) = (normal_at (blocks (db (ext s))))(h := {#}) \<and> block_now s' = block_now s"
proof -
  have "drop_post db h s (Ret None) s'"
    using wpD [OF gorm_db_reliable.DropBlok_wp [OF assms(1)] assms(5)] assms(2) by (simp add: B_of_def)
  then have d: "drops h (blocks (db (ext s))) (blocks (db (ext s')))" "io_frame s s'"
    "normal_at (blocks (db (ext s'))) h = {#}"
    using assms(3,4) by (auto simp: drop_post_def cleared_def dropped_def B_of_def)
  then show ?thesis
    using drops_normal_at(1) [OF d(1)] io_frame_block_now [OF d(2)] by (auto simp: fun_eq_iff)
qed

theorem drop_clears_height_witness:
  "size (normal_at (blocks (mem_db (ext ex_synced))) 2) = 1 \<and>
   normal_at (blocks (mem_db (ext (snd (DropBlok ex_env 2 ex_synced))))) 2 = {#}"
proof -
  have one: "size (normal_at (blocks (mem_db (ext ex_synced))) 2) = 1" by code_simp
  have "fst (DropBlok ex_env 2 ex_synced) = Ret None" by code_simp
  note run = run_eq [OF this]
  have "unique_ids (blocks (mem_db (ext ex_synced)))" using ex_synced_chain by (simp add: chain_inv_def)
  from drop_clears_height [OF mem_gorm_db_reliable this _ _ run] one show ?thesis by simp
qed

text \<open>C8: writing a block that reports no error leaves a \<^const>\<open>NORMAL\<close> row with its hash, whether the row is
  new or one that an earlier fork had left behind, and adds no other row.\<close>

theorem write_block_stores:
  assumes "gorm_db_reliable E db snap" and "unique_ids (blocks (db (ext s)))"
    and "WriteBlock E cb transactions receipts s = (Ret None, s')"
    and "hdr (Hash cb) = (to_int64 (Number cb), ParentHash cb)"
  shows "(\<exists>b \<in># blocks (db (ext s')). F_status b = NORMAL \<and> col_eq E (F_hash b) (Hash cb)) \<and>
    writes E hdr (Hash cb) (blocks (db (ext s))) (blocks (db (ext s')))"
  using wpD [OF gorm_db_reliable.WriteBlock_wp [OF assms(1), of s hdr cb] assms(3)] assms(2,4)
  by (simp add: write_post_def written_def B_of_def)

theorem write_block_stores_witness:
  "\<exists>b \<in># blocks (mem_db (ext (snd (WriteBlock ex_env (ex_chain ! 0) [] [] (init_st (ex_world ex_chain)))))).
     F_status b = NORMAL \<and> ci_eq (F_hash b) ''0:genesis''"
proof -
  let ?s = "init_st (ex_world ex_chain)"
  have "fst (WriteBlock ex_env (ex_chain ! 0) [] [] ?s) = Ret None" by code_simp
  note run = run_eq [OF this]
  have "unique_ids (blocks (mem_db (ext ?s)))"
    by (simp add: init_st_def ex_world_def ex_mem_def mem_db_sel unique_ids_def)
  moreover have "mem_hdr (Hash (ex_chain ! 0)) = (to_int64 (Number (ex_chain ! 0)), ParentHash (ex_chain ! 0))" by code_simp
  moreover have "Hash (ex_chain ! 0) = ''0:genesis''" by code_simp
  ultimately show ?thesis
    using write_block_stores [OF mem_gorm_db_reliable _ run, of mem_hdr] by simp
qed

text \<open>C9: whatever the synchroniser does, starting from a table without rewards, no stored block ever has a
  reward or a miner: nothing of the reward accounting can be computed from the copied blocks.\<close>

theorem copied_blocks_have_no_reward:
  assumes "chain_node E db snap hdr canon" and "\<forall>b \<in># blocks (db (ext s0)). F_reward b = [] \<and> F_miner b = []"
    and "reachable E db s0 p s"
  shows "\<forall>b \<in># blocks (db (ext s)). F_reward b = [] \<and> F_miner b = []"
  using drop_invariant.reachable_keeps [OF no_rewards_invariant [OF assms(1)] assms(3)] assms(2) by (simp add: no_rewards_def)

theorem copied_blocks_have_no_reward_witness:
  "(\<lambda>b. (F_reward b, F_miner b)) ` set_mset (blocks (mem_db (ext ex_synced))) = {([], [])}"
proof -
  have "size (blocks (mem_db (ext ex_synced))) = 3" by code_simp
  then have "blocks (mem_db (ext ex_synced)) \<noteq> {#}" by auto
  moreover have "\<forall>b \<in># blocks (mem_db (ext (init_st (ex_world ex_chain)))). F_reward b = [] \<and> F_miner b = []"
    by (simp add: init_st_def ex_world_def ex_mem_def mem_db_sel)
  from copied_blocks_have_no_reward [OF mem_chain_node this ex_run_reachable [of mem_db 5]]
  have "\<forall>b \<in># blocks (mem_db (ext ex_synced)). F_reward b = [] \<and> F_miner b = []" unfolding ex_synced_def .
  ultimately show ?thesis by (auto simp: image_iff)
qed





lemma count_fees_run:
  assumes "\<forall>e \<in> set m. map_of receipts (fst e) \<noteq> None"
  shows "count_fees receipts m fees s =
    (Ret (fees + (\<Sum>e \<in># mset m. GasPrice (snd e) * GasUsed_rc (the (map_of receipts (fst e))))), s)"
  using assms
  by (induction receipts m fees rule: count_fees.induct) (auto simp: eff_defs)

text \<open>C15: the total fee of a block is the sum over its transactions, in whatever order Go ranges over them.\<close>

theorem fees_order_independent:
  assumes "\<forall>e \<in> set m. map_of receipts (fst e) \<noteq> None" and "mset m' = mset m"
  shows "count_fees receipts m' 0 s =
    (Ret (\<Sum>e \<in># mset m. GasPrice (snd e) * GasUsed_rc (the (map_of receipts (fst e)))), s)"
proof -
  have "set m' = set m" using assms(2) by (metis set_mset_mset)
  with count_fees_run [of m' receipts 0 s] assms show ?thesis by simp
qed

theorem fees_order_independent_witness:
  "count_fees [(''a'', ex_receipt ''a''), (''b'', ex_receipt ''b'')]
     [(''b'', ex_tx ''b'' [] []), (''a'', ex_tx ''a'' [] [])] 0 () = (Ret 42, ())"
  using fees_order_independent [of "[(''a'', ex_tx ''a'' [] []), (''b'', ex_tx ''b'' [] [])]"
      "[(''a'', ex_receipt ''a''), (''b'', ex_receipt ''b'')]" "[(''b'', ex_tx ''b'' [] []), (''a'', ex_tx ''a'' [] [])]" "()"]
  by (simp add: ex_tx_def ex_receipt_def add_mset_commute)

section \<open>Rewards\<close>

text \<open>C16: a recount that returns leaves every miner's total equal to the sum of the rewards of its blocks, and
  touches neither the blocks nor the transactions. It never repairs the fee totals: they are computed and compared,
  but the update writes the reward column only.\<close>

theorem recount_totals:
  assumes "gorm_db_reliable E db snap" and "unique_miners E (rewards (db (ext s)))" and "checkReward E s = (Ret (), s')"
  shows "(\<forall>m \<in># rewards (db (ext s')). F_total_reward m =
      String (\<Sum>b \<in># mined_by E (blocks (db (ext s))) (F_miner_m m). read_total (F_reward b))) \<and>
    blocks (db (ext s')) = blocks (db (ext s)) \<and> txs (db (ext s')) = txs (db (ext s)) \<and>
    image_mset F_total_fees (rewards (db (ext s'))) = image_mset F_total_fees (rewards (db (ext s)))"
  using wpD [OF gorm_db_reliable.checkReward_wp [OF assms(1,2)] assms(3)]
    wpD [OF gorm_db_reliable.checkReward_fees [OF assms(1)] assms(3)]
  by (auto simp: recount_frame_def reward_right_def reward_sum_def gorm_db_reliable.same_fees_def [OF assms(1)])

theorem recount_totals_witness:
  "\<exists>s'. checkReward ex_env ex_miner_st = (Ret (), s') \<and> (\<exists>m \<in># rewards (mem_db (ext s')). F_total_reward m =
     String (\<Sum>b \<in># mined_by ex_env (blocks (mem_db (ext ex_miner_st))) (F_miner_m m). read_total (F_reward b)))"
proof -
  have "map_prod id (\<lambda>s. size (rewards (mem_db (ext s)))) (checkReward ex_env ex_miner_st) = (Ret (), 1)" by code_simp
  then obtain s' where s': "checkReward ex_env ex_miner_st = (Ret (), s')" "size (rewards (mem_db (ext s'))) = 1"
    by (cases "checkReward ex_env ex_miner_st") simp
  then obtain m where "m \<in># rewards (mem_db (ext s'))" by (metis multiset_nonemptyE size_empty zero_neq_one)
  moreover have "unique_miners ex_env (rewards (mem_db (ext ex_miner_st)))"
    by (simp add: unique_miners_def ex_miner_st_def init_st_def ex_miner_mem_def mem_db_sel)
  ultimately show ?thesis using recount_totals [OF mem_gorm_db_reliable _ s'(1)] s'(1) by blast
qed



end
