(* ===== verification/Sync_Restart.thy ===== *)
theory Sync_Restart
  imports Sync_Rows
begin

text \<open>
  Ending and starting the process again. A new process knows only the tables: it takes the highest \<^const>\<open>NORMAL\<close>
  block, which may be half written, and copies it again. That is sound when no \<^const>\<open>NORMAL\<close> row lies more than one
  above \<^verbatim>\<open>block_now\<close> (\<open>tidy\<close>), which every copy keeps; only the polling round that steps back leaves such rows.
\<close>

section \<open>The rows and the height copied to\<close>

text \<open>The \<^const>\<open>NORMAL\<close> rows have heights from 0 to \<open>u\<close>.\<close>

definition within :: "int \<Rightarrow> Block multiset \<Rightarrow> bool" where
  "within u B \<longleftrightarrow> (\<forall>h. (h < 0 \<or> u < h) \<longrightarrow> normal_at B h = {#})"

lemma within_mono: "within u B \<Longrightarrow> u \<le> v \<Longrightarrow> within v B"
  by (auto simp: within_def)

lemma within_row: "within u B \<Longrightarrow> b \<in># B \<Longrightarrow> F_status b = NORMAL \<Longrightarrow> 0 \<le> F_block b \<and> F_block b \<le> u"
  by (auto simp: within_def normal_at_def not_less dest!: spec [of _ "F_block b"])

lemma within_drops: "within u B \<Longrightarrow> drops h B B' \<Longrightarrow> within u B'"
  unfolding within_def using drops_normal_at(2) [of h B B'] by (metis le_zero_eq size_eq_0_iff_empty)

lemma within_cleared:
  assumes "within (max (n + 1) 1) B" and "1 < n + 1 \<longrightarrow> normal_at B (n + 1) = {#}"
  shows "within (max n 1) B"
  unfolding within_def
proof (intro allI impI)
  fix h assume h: "h < 0 \<or> max n 1 < h"
  show "normal_at B h = {#}"
  proof (cases "h = n + 1")
    case True
    with h assms show ?thesis by (auto simp: within_def)
  next
    case False
    with h have "h < 0 \<or> max (n + 1) 1 < h" by auto
    with assms(1) show ?thesis by (auto simp: within_def)
  qed
qed

lemma within_writes:
  assumes "within u B" and "writes E hdr x B B'" and "headers_ok hdr B" and "header_map E hdr"
    and "0 \<le> fst (hdr x)" and "fst (hdr x) \<le> u"
  shows "within u B'"
  unfolding within_def using assms writes_normal_at [OF assms(2-4)] by (auto simp: within_def)

text \<open>The rows that a process leaves behind: one more than it has copied, the genesis and the first block aside.\<close>

definition tidy :: "('w \<Rightarrow> dbst) \<Rightarrow> 'w st \<Rightarrow> bool" where
  "tidy db s \<longleftrightarrow> within (max (block_now s + 1) 1) (B_of db s) \<and> within (2 ^ 63 - 1) (B_of db s)"

lemma tidy_frame: "block_now s' = block_now s \<Longrightarrow> B_of db s' = B_of db s \<Longrightarrow> tidy db s \<Longrightarrow> tidy db s'"
  by (simp add: tidy_def)

lemma top_block_Max:
  "{# b \<in># B. F_status b = NORMAL #} \<noteq> {#} \<Longrightarrow> top_block B = Max (F_block ` {b. b \<in># B \<and> F_status b = NORMAL})"
  by (simp only: top_block_def Let_def if_False set_mset_filter)

lemma top_block_normal:
  assumes "{# b \<in># B. F_status b = NORMAL #} \<noteq> {#}"
  obtains b where "b \<in># B" "F_status b = NORMAL" "F_block b = top_block B"
proof -
  let ?M = "{b. b \<in># B \<and> F_status b = NORMAL}"
  have "finite ?M" by (rule finite_subset [of _ "set_mset B"]) auto
  moreover obtain b where "b \<in># {# b \<in># B. F_status b = NORMAL #}" using assms by (rule multiset_nonemptyE)
  then have "?M \<noteq> {}" by auto
  ultimately have "Max (F_block ` ?M) \<in> F_block ` ?M" by (intro Max_in) auto
  then show thesis using that top_block_Max [OF assms] by auto
qed

lemma top_block_ge:
  assumes "b \<in># B" and "F_status b = NORMAL"
  shows "F_block b \<le> top_block B"
proof -
  let ?M = "{b. b \<in># B \<and> F_status b = NORMAL}"
  have "finite ?M" by (rule finite_subset [of _ "set_mset B"]) auto
  then have "F_block b \<le> Max (F_block ` ?M)" using assms by (intro Max_ge) auto
  moreover have "b \<in># {# b \<in># B. F_status b = NORMAL #}" using assms by simp
  then have "{# b \<in># B. F_status b = NORMAL #} \<noteq> {#}" by (metis empty_iff set_mset_empty)
  ultimately show ?thesis using top_block_Max [of B] by metis
qed

lemma top_block_within: "within u B \<Longrightarrow> 0 \<le> u \<Longrightarrow> 0 \<le> top_block B \<and> top_block B \<le> u"
  by (cases "{# b \<in># B. F_status b = NORMAL #} = {#}")
    (simp add: top_block_def, metis top_block_normal within_row)

lemma within_top: "(\<forall>b \<in># B. F_status b = NORMAL \<longrightarrow> 0 \<le> F_block b) \<Longrightarrow> within (top_block B) B"
  unfolding within_def normal_at_def by (force dest: top_block_ge)

text \<open>The node reports no less than is copied: of a polling round only the branch that steps back is left out.\<close>

definition advancing :: "'w env \<Rightarrow> 'w st \<Rightarrow> bool" where
  "advancing E s \<longleftrightarrow> (\<forall>m w. GetBlockNumber (rpc E) (ext s) = (Ret (Inr m), w) \<longrightarrow> block_now s \<le> m)"

section \<open>One copy\<close>

context chain_node
begin

text \<open>The state between the steps of a copy, as far as the rows go.\<close>

definition rows_mid :: "int \<Rightarrow> 'w st \<Rightarrow> bool" where
  "rows_mid n s \<longleftrightarrow> block_now s = n \<and> within (max n 1) (B_of db s) \<and> within (2 ^ 63 - 1) (B_of db s) \<and> headers_ok hdr (B_of db s) \<and> unique_ids (B_of db s)"

lemma rows_mid_view: "table_view E db snap hdr canon (rows_mid n)"
  by (intro table_view.intro chain_node_axioms; unfold_locales) (simp add: rows_mid_def B_of_def)

lemmas rows_mid_keeps =
  keeps_wp [OF table_view.keeps_Mysql [OF rows_mid_view]] keeps_wp [OF table_view.keeps_globals(1) [OF rows_mid_view]]
  keeps_wp [OF table_view.keeps_globals(3) [OF rows_mid_view]] keeps_wp [OF table_view.keeps_fetch(1) [OF rows_mid_view]]
  keeps_wp [OF table_view.keeps_fetch(2) [OF rows_mid_view]] keeps_wp [OF table_view.keeps_reads(1) [OF rows_mid_view]]

lemma rows_mid_tidy: "rows_mid n s \<Longrightarrow> tidy db s"
  by (auto simp: rows_mid_def tidy_def intro: within_mono)

lemma check_parent_tidy:
  assumes "rows_mid n s" and "-1 \<le> n" and "n < 2 ^ 63"
  shows "wp (check_parent E (n + 1) p) (\<lambda>r s'. if r = Ret None then rows_mid n s' else tidy db s') s"
proof -
  have step_back: "tidy db (s'\<lparr>block_now := to_int64 (block_now s' - 1)\<rparr>)" if "rows_mid n s'" "n + 1 \<noteq> 0" for s'
    using that assms(2,3) by (simp add: rows_mid_def tidy_def B_of_def to_int64_id in_int64_def)
  show ?thesis
    unfolding check_parent_def
    by (rule wp_thenI [OF rows_mid_keeps(1) [OF assms(1)]] wp_bindI [OF rows_mid_keeps(6)])+
      (use assms(2) in \<open>auto simp: wp_simps rows_mid_tidy step_back split: option.splits prod.splits\<close>)
qed

lemma write_tidy:
  assumes "rows_mid n s" and "hdr (Hash cb) = (n + 1, ParentHash cb)" and "to_int64 (Number cb) = n + 1" and "-1 \<le> n"
    and "n + 1 < 2 ^ 63"
  shows "wp (bindE (WriteBlock E cb ts rcs) (\<lambda>err.
      case err of Some e \<Rightarrow> ret (Some e) | None \<Rightarrow> WriteTransactions E cb ts rcs)) (\<lambda>r s'. tidy db s') s"
proof -
  have ids: "unique_ids (B_of db s)" and hd: "hdr (Hash cb) = (to_int64 (Number cb), ParentHash cb)"
    using assms by (simp_all add: rows_mid_def)
  have fin: "tidy db s1" if "write_post E db hdr (Hash cb) s r s1" for r s1
  proof -
    have "within u (B_of db s1)" if "within u (B_of db s)" "n + 1 \<le> u" for u
      by (rule within_writes [OF that(1) _ _ header_map])
        (use \<open>write_post E db hdr (Hash cb) s r s1\<close> that assms in \<open>auto simp: rows_mid_def write_post_def written_def\<close>)
    moreover have "within (max (n + 1) 1) (B_of db s)" "within (2 ^ 63 - 1) (B_of db s)"
      using assms(1) by (auto simp: rows_mid_def intro: within_mono)
    ultimately have "within (max (n + 1) 1) (B_of db s1)" "within (2 ^ 63 - 1) (B_of db s1)"
      using assms(5) by simp_all
    with that assms(1) show ?thesis
      by (auto simp: tidy_def rows_mid_def write_post_def written_def dest: io_frame_block_now)
  qed
  show ?thesis
  proof (rule wp_bindI [OF WriteBlock_wp [of s hdr cb, OF ids hd]], goal_cases)
    case (1 err s1)
    have "wp (WriteTransactions E cb ts rcs) (\<lambda>r s'. tidy db s') s1"
      unfolding WriteTransactions_def
      by (rule wp_mono [OF write_txs_wp])
        (use fin [OF 1] in \<open>auto dest: io_frame_block_now [OF same_blocks_io] same_blocks_B intro: tidy_frame\<close>)
    with fin [OF 1] show ?case by (auto split: option.split)
  qed (rule fin)
qed

lemma copy_tidy:
  assumes "rows_mid n s" and "-1 \<le> n" and "n + 1 < 2 ^ 63" and "hdr (Hash cb) = (n + 1, ParentHash cb)" and "Number cb = n + 1"
  shows "wp (bindE (fetch_parent E (n + 1)) (\<lambda>r.
       case r of Inl e \<Rightarrow> ret (Some e) | Inr chain_parent_block \<Rightarrow>
       bindE (fetch_receipts E (Transactions cb) [] []) (\<lambda>r.
       case r of Inl e \<Rightarrow> ret (Some e) | Inr (transactions, receipts) \<Rightarrow>
       bindE (check_parent E (n + 1) chain_parent_block) (\<lambda>err.
       case err of Some e \<Rightarrow> ret (Some e) | None \<Rightarrow>
       bindE (WriteBlock E cb transactions receipts) (\<lambda>err.
       case err of Some e \<Rightarrow> ret (Some e) | None \<Rightarrow>
       WriteTransactions E cb transactions receipts))))) (\<lambda>r s'. tidy db s') s"
proof -
  have num: "to_int64 (Number cb) = n + 1" using assms(2,3,5) by (simp add: in_int64_def)
  have rest: "wp (bindE (check_parent E (n + 1) p) (\<lambda>err. case err of Some e \<Rightarrow> ret (Some e) | None \<Rightarrow>
      bindE (WriteBlock E cb ts rcs) (\<lambda>err. case err of Some e \<Rightarrow> ret (Some e) | None \<Rightarrow> WriteTransactions E cb ts rcs)))
      (\<lambda>r s'. tidy db s') s'" if "rows_mid n s'" for p ts rcs s'
    by (rule wp_bindI [OF check_parent_tidy [OF that]])
      (use assms(2,3) in \<open>auto split: option.split intro!: write_tidy assms(2-4) num\<close>)
  show ?thesis
    by (rule wp_bindI [OF rows_mid_keeps(4) [OF assms(1)]])
      (auto split: sum.split prod.split intro!: wp_bindI [OF rows_mid_keeps(5)] rest rows_mid_tidy)
qed

lemma SyncOneBlock_tidy:
  assumes inv: "chain_inv E hdr (block_now s) (B_of db s)" and t: "tidy db s"
    and h: "-1 \<le> block_now s" "block_now s + 1 < 2 ^ 63"
  shows "wp (SyncOneBlock E (block_now s + 1)) (\<lambda>r s'. tidy db s') s"
  unfolding SyncOneBlock_def
proof (rule wp_bindI [OF DropBlok_wp], goal_cases)
  case 1
  show ?case using inv by (simp add: chain_inv_def)
next
  case (2 err s1)
  let ?n = "block_now s"
  have now: "block_now s1 = ?n" and d: "drops (?n + 1) (B_of db s) (B_of db s1)"
    using 2 by (auto simp: drop_post_def dropped_def dest: io_frame_block_now)
  have w: "within (max (?n + 1) 1) (B_of db s1)" "within (2 ^ 63 - 1) (B_of db s1)"
    using t d by (auto simp: tidy_def intro: within_drops)
  show ?case
  proof (cases err)
    case None
    have "sync_mid E db hdr ?n s1" using drop_post_sync(2) [OF 2 inv refl] None by simp
    then have mid: "rows_mid ?n s1"
      using within_cleared [OF w(1)] w(2) by (auto simp: rows_mid_def sync_mid_def chain_inv_def)
    have node: "wp (callE (GetBlockByNumber (rpc E) (?n + 1) True)) (\<lambda>r s'. rows_mid ?n s' \<and>
        (\<forall>cb. r = Ret (Inr cb) \<longrightarrow> Number cb = ?n + 1 \<and> hdr (Hash cb) = (?n + 1, ParentHash cb))) s2"
      if "rows_mid ?n s2" for s2
    proof (cases "GetBlockByNumber (rpc E) (?n + 1) True (ext s2)")
      case (Pair r w)
      from rpc_block_db [OF Pair] that have "rows_mid ?n (s2\<lparr>ext := w\<rparr>)" by (simp add: rows_mid_def B_of_def)
      moreover have "Number cb = ?n + 1 \<and> hdr (Hash cb) = (?n + 1, ParentHash cb)" if "r = Ret (Inr cb)" for cb
        using block_number [OF Pair [unfolded that]] block_header [OF Pair [unfolded that]] by simp
      ultimately show ?thesis by (simp add: wp_callE Pair)
    qed
    show ?thesis
      unfolding None option.case
      by (rule wp_thenI [OF rows_mid_keeps(2) [OF mid]], rule wp_bindI [OF node])
        (auto split: sum.split intro!: wp_thenI [OF rows_mid_keeps(3)] copy_tidy h rows_mid_tidy)
  qed (use w now in \<open>simp add: tidy_def\<close>)
next
  case (3 p s1)
  then have "block_now s1 = block_now s" "drops (block_now s + 1) (B_of db s) (B_of db s1)"
    by (auto simp: drop_post_def dropped_def dest: io_frame_block_now)
  with t show ?case by (auto simp: tidy_def intro: within_drops)
qed

section \<open>The process and its restarts\<close>

lemma low_advancing: "block_now s \<le> 0 \<Longrightarrow> advancing E s"
  by (auto simp: advancing_def dest: number_range)

lemma poll_round_tidy:
  assumes "advancing E s" and "tidy db s"
  shows "wp (poll_round E) (\<lambda>r s'. tidy db s') s"
proof -
  have number: "wp (callE (GetBlockNumber (rpc E))) (\<lambda>r s'. tidy db s' \<and> block_now s' = block_now s \<and>
      (\<forall>m. r = Ret (Inr m) \<longrightarrow> to_int64 m = m \<and> block_now s \<le> m)) s1"
    if "ext s1 = ext s" "block_now s1 = block_now s" for s1
    using that assms by (auto simp: wp_callE tidy_def B_of_def advancing_def in_int64_def split: prod.split
        dest: rpc_number_db number_range)
  have web3: "wp Web3 (\<lambda>r s'. ext s' = ext s \<and> block_now s' = block_now s) s" by simp
  show ?thesis
    unfolding poll_round_def
  proof (rule wp_thenI [OF web3], rule wp_bindI [OF number], goal_cases)
    case (3 a s1 r s2)
    then show ?case by (cases r) (auto simp: wp_bindE [of GetBlockNOw])
  qed (use assms(2) in \<open>auto simp: tidy_def B_of_def\<close>)
qed

lemma catchup_round_tidy:
  assumes "sync_inv E db hdr s" and "tidy db s" and "n < 2 ^ 63"
  shows "wp (catchup_round E n) (\<lambda>r s'. tidy db s') s"
proof (cases "block_now s < n")
  case True
  then have h: "-1 \<le> block_now s" "block_now s + 1 < 2 ^ 63" "to_int64 (block_now s + 1) = block_now s + 1"
    and inv: "chain_inv E hdr (block_now s) (B_of db s)"
    using assms by (simp_all add: sync_inv_def in_int64_def)
  have raise: "tidy db (s'\<lparr>block_now := to_int64 (block_now s' + 1)\<rparr>)"
    if "sync_post E db hdr (block_now s) (Ret None) s' \<and> tidy db s'" for s'
    using that h by (auto simp: sync_post_def tidy_def B_of_def intro: within_mono)
  have "wp (SyncOneBlock E (block_now s + 1)) (\<lambda>r s'. sync_post E db hdr (block_now s) r s' \<and> tidy db s') s"
    using SyncOneBlock_wp [OF inv refl _ h(2)] SyncOneBlock_tidy [OF inv assms(2) h(1,2)] h(1) by (simp add: wp_conj)
  then have "wp (bindE (SyncOneBlock E (block_now s + 1)) (\<lambda>err. case err of
      Some e \<Rightarrow> ret (Catchup n) | None \<Rightarrow> thenE (AddBlockNow 1) (ret (Catchup n)))) (\<lambda>r s'. tidy db s') s"
    by (rule wp_bindI) (auto simp: wp_thenE raise split: option.split)
  with True h show ?thesis by (simp add: catchup_round_def wp_bindE [of GetBlockNOw])
qed (use assms in \<open>simp add: catchup_round_def wp_bindE\<close>)

text \<open>What a state is left for the next process.\<close>

lemma tidy_start_ok:
  assumes "sync_inv E db hdr s" and "tidy db s" and "B_of db s' = B_of db s"
  shows "start_ok E db hdr s'"
proof -
  let ?t = "top_block (B_of db s)"
  have t: "0 \<le> ?t" "?t \<le> max (block_now s + 1) 1" "?t \<le> 2 ^ 63 - 1"
    using assms(2) sync_inv_def [of E db hdr s] assms(1)
      top_block_within [of "max (block_now s + 1) 1" "B_of db s"] top_block_within [of "2 ^ 63 - 1" "B_of db s"]
    by (auto simp: tidy_def)
  have inv: "chain_inv E hdr (block_now s) (B_of db s)" using assms(1) by (simp add: sync_inv_def)
  have "linked_upto (?t - 1) (B_of db s)"
    using inv t(2) by (auto simp: chain_inv_def linked_upto_def)
  with inv t assms(3) show ?thesis by (simp add: start_ok_def chain_inv_def)
qed

end

text \<open>A new process: the globals of package \<^verbatim>\<open>sync\<close> have their initial values, the tables are as they were.\<close>

definition reborn :: "'w st \<Rightarrow> 'w st" where
  "reborn s = s\<lparr>block_now := -1, GLastBlock := None, c_mysql := False, c_redis := False, c_web3 := False\<rparr>"

text \<open>Any number of processes, one after the other. A process may end at any time: \<open>restart\<close> applies in every state, also
  after a crash, and a call of the outside may panic anywhere inside a round. \<open>A\<close> limits the states in which a polling
  round may begin; the node and the other globals may change between two rounds (\<open>requests\<close>).\<close>

inductive lives :: "('w st \<Rightarrow> bool) \<Rightarrow> 'w env \<Rightarrow> ('w \<Rightarrow> dbst) \<Rightarrow> 'w st \<Rightarrow> pc \<Rightarrow> 'w st \<Rightarrow> bool"
  for A E db s0 where
  boot: "StartSyncLastBlock E s0 = (p, s) \<Longrightarrow> lives A E db s0 p s"
| round: "lives A E db s0 p s \<Longrightarrow> (p = Poll \<Longrightarrow> A s) \<Longrightarrow> sync_step E (p, s) = (p', s') \<Longrightarrow> lives A E db s0 p' s'"
| requests: "lives A E db s0 p s \<Longrightarrow> handler_frame db s s' \<Longrightarrow> lives A E db s0 p s'"
| restart: "lives A E db s0 p s \<Longrightarrow> StartSyncLastBlock E (reborn s) = (p', s') \<Longrightarrow> lives A E db s0 p' s'"

lemma lives_iterate:
  assumes "lives A E db s0 p s" and "\<And>i. i < k \<Longrightarrow> fst ((sync_step E ^^ i) (p, s)) = Poll \<Longrightarrow> A (snd ((sync_step E ^^ i) (p, s)))"
  shows "lives A E db s0 (fst ((sync_step E ^^ k) (p, s))) (snd ((sync_step E ^^ k) (p, s)))"
  using assms(2)
proof (induction k)
  case (Suc k)
  then have "lives A E db s0 (fst ((sync_step E ^^ k) (p, s))) (snd ((sync_step E ^^ k) (p, s)))" by simp
  from lives.round [OF this] Suc.prems [of k] show ?case by (metis funpow.simps(2) lessI o_apply prod.collapse)
qed (simp add: assms(1))

context chain_node
begin

text \<open>The table is sound below its top, and no \<^const>\<open>NORMAL\<close> row has a negative height.\<close>

definition boot_ok :: "'w st \<Rightarrow> bool" where
  "boot_ok s \<longleftrightarrow> start_ok E db hdr s \<and> (\<forall>b \<in># B_of db s. F_status b = NORMAL \<longrightarrow> 0 \<le> F_block b)"

lemma boot_ok_frame: "B_of db s' = B_of db s \<Longrightarrow> boot_ok s' = boot_ok s"
  by (simp add: boot_ok_def start_ok_def)

lemma tidy_boot_ok:
  assumes "sync_inv E db hdr s" and "tidy db s"
  shows "boot_ok s"
  using tidy_start_ok [OF assms refl] assms(2) within_row by (fastforce simp: boot_ok_def tidy_def)

text \<open>What holds of a process at work: the invariant of the chain and the tidy table; a process that died before
  its loop has left the table to the next.\<close>

definition alive :: "pc \<Rightarrow> 'w st \<Rightarrow> bool" where
  "alive p s \<longleftrightarrow> p \<noteq> Exited \<and> (\<forall>n. p = Catchup n \<longrightarrow> n < 2 ^ 63) \<and>
     (sync_inv E db hdr s \<and> tidy db s \<or> p = Crashed \<and> boot_ok s)"

lemma alive_boot_ok: "alive p s \<Longrightarrow> boot_ok s"
  by (auto simp: alive_def intro: tidy_boot_ok)

lemma alive_boot:
  assumes "boot_ok s" and "StartSyncLastBlock E s = (p, s')"
  shows "alive p s'"
proof -
  obtain r where r: "start_sync E s = (r, s')" "p = (case r of Ret p \<Rightarrow> p | Panic x \<Rightarrow> Crashed)"
    using assms(2) by (auto simp: StartSyncLastBlock_def split: prod.splits out.splits)
  have start: "start_ok E db hdr s" using assms(1) by (simp add: boot_ok_def)
  have "wp (start_sync E) (\<lambda>r s'. B_of db s' = B_of db s \<and> (\<forall>q. r = Ret q \<longrightarrow> q = Poll \<longrightarrow> block_now s' = top_block (B_of db s) - 1)) s"
    unfolding start_sync_def
  proof (rule Mysql_thenI, rule wp_bindI [OF GetMaxBlocNumber_wp], goal_cases)
    case (1 s1 x s2)
    then show ?case
      using start by (cases x) (auto simp: wp_thenE unchanged_def quiet_def B_of_def start_ok_def in_int64_def split: option.splits)
  qed (auto simp: B_of_def quiet_def unchanged_def)
  from wpD [OF this r(1)] wpD [OF start_sync_wp [OF start] r(1)] show ?thesis
    using assms(1) within_top [of "B_of db s"] boot_ok_frame [of s' s]
    by (auto simp: r(2) alive_def tidy_def boot_ok_def start_ok_def intro: within_mono split: out.splits)
qed

lemma alive_step:
  assumes "alive p s" and "p = Poll \<Longrightarrow> advancing E s" and "sync_step E (p, s) = (p', s')"
  shows "alive p' s'"
proof (cases "sync_inv E db hdr s \<and> tidy db s")
  case True
  then have ok: "machine_ok s p s" using assms(1) by (simp add: alive_def machine_ok_def)
  have "tidy db s'"
    using assms True by (cases p) (auto simp: alive_def split: prod.splits dest: wpD [OF poll_round_tidy] wpD [OF catchup_round_tidy])
  with sync_step_ok [OF ok assms(3)] show ?thesis
    using tidy_boot_ok [of s] True boot_ok_frame [of s' s] by (auto simp: alive_def machine_ok_def)
next
  case False
  with assms show ?thesis by (auto simp: alive_def)
qed

lemma lives_alive:
  assumes "lives (advancing E) E db s0 p s" and "boot_ok s0"
  shows "alive p s"
  using assms
proof (induction rule: lives.induct)
  case (boot p s)
  then show ?case by (blast intro: alive_boot)
next
  case (round p s p' s')
  then show ?case by (blast intro: alive_step)
next
  case (requests p s s')
  then show ?case
    using boot_ok_frame [of s' s] by (auto simp: alive_def handler_frame_def intro: sync_inv_frame [unfolded handler_frame_def] tidy_frame)
next
  case (restart p s p' s')
  then have "boot_ok (reborn s)" using alive_boot_ok boot_ok_frame [of "reborn s" s] by (simp add: reborn_def B_of_def)
  with restart show ?case by (blast intro: alive_boot)
qed

end

end
