(* ===== verification/Sync_Stuck.thy ===== *)
theory Sync_Stuck
  imports Sync_Rows
begin

text \<open>
  A copy that broke off between two transactions is cleaned up by the drop before the next try, except at the first
  heights: \<^verbatim>\<open>DropBlok\<close> does nothing below height 2. There the transaction that is already stored is inserted a second
  time, which the table refuses, at every try and after every restart: \<^verbatim>\<open>block_now\<close> never passes 0. Where the drop does run, the rows it marked are
  revived and not written anew.
\<close>

text \<open>A transaction is stored, and every row with its hash is \<^const>\<open>NORMAL\<close>.\<close>

definition stored :: "'w env \<Rightarrow> ('w \<Rightarrow> dbst) \<Rightarrow> string \<Rightarrow> 'w st \<Rightarrow> bool" where
  "stored E db x s \<longleftrightarrow> (\<exists>t \<in># txs (db (ext s)). col_eq E (F_tx_hash t) x) \<and>
     (\<forall>t \<in># txs (db (ext s)). col_eq E (F_tx_hash t) x \<longrightarrow> F_status_t t = NORMAL)"

lemma stored_updated:
  assumes "stored E db x s" and "tx_updated t (\<lambda>r. r\<lparr>F_status_t := NORMAL\<rparr>) (db (ext s)) (db (ext s'))"
  shows "stored E db x s'"
proof -
  obtain g where g: "txs (db (ext s')) = image_mset g (txs (db (ext s)))"
    "\<And>r. F_tx_hash (g r) = F_tx_hash r \<and> (g r = r \<or> F_status_t (g r) = NORMAL)"
    using assms(2) by (auto simp: tx_updated_def BeforeUpdate_Transaction_def)
  from assms(1) obtain r where r: "r \<in># txs (db (ext s))" "col_eq E (F_tx_hash r) x" by (auto simp: stored_def)
  then have "g r \<in># txs (db (ext s'))" "col_eq E (F_tx_hash (g r)) x" by (simp_all add: g)
  moreover have "F_status_t r' = NORMAL" if "r' \<in># txs (db (ext s'))" "col_eq E (F_tx_hash r') x" for r'
    using that assms(1) g by (auto simp: stored_def) metis
  ultimately show ?thesis by (auto simp: stored_def)
qed

lemma stored_invariant:
  assumes "chain_node E db snap hdr canon"
  shows "row_invariant E db snap hdr canon (stored E db x)"
proof (intro row_invariant.intro table_view.intro assms; unfold_locales, goal_cases)
  case (1 s s')
  then show ?case by (simp add: stored_def)
next
  case (4 s s')
  then show ?case by (blast intro: stored_updated)
qed (auto simp: stored_def block_created_def block_updated_def update_blocks_def tx_created_def new_tx_row_def
    BeforeCreate_Transaction_def)

interpretation mem_stored: row_invariant "mem_env node_rpc" mem_db mem_snap mem_hdr served_chain "stored (mem_env node_rpc) mem_db x" for x
  by (rule stored_invariant [OF mem_chain_node])

context chain_node
begin

lemmas stored_keeps = row_invariant.keeps_write_tx [OF stored_invariant [OF chain_node_axioms]]
  row_invariant.keeps_WriteBlock [OF stored_invariant [OF chain_node_axioms]]

lemmas stored_reads = row_invariant.axioms(1) [OF stored_invariant [OF chain_node_axioms]]

text \<open>A map of transactions has a key.\<close>

definition has_key :: "string \<Rightarrow> (string, 'v) gomap \<Rightarrow> bool" where
  "has_key x m \<longleftrightarrow> x \<in> fst ` set m"

lemma has_key_map_put [simp]: "has_key x (map_put k v m) \<longleftrightarrow> x = k \<or> has_key x m"
  by (simp add: has_key_def)

text \<open>The second insertion is refused.\<close>

lemma write_tx_refused:
  assumes "stored E db x s"
  shows "wp (write_tx E cb rcs x t) (\<lambda>r s'. r \<noteq> Ret None) s"
  unfolding write_tx_def
proof (rule wp_thenI [OF keeps_wp [OF table_view.keeps_Mysql [OF stored_reads] assms]], rule wp_bindI [OF FindTrasactionByHash_wp], goal_cases)
  case (1 a s1 y s2)
  obtain r err where y: "y = (r, err)" by (cases y)
  have st: "stored E db x s2" and "txs (db (ext s2)) = txs (db (ext s1))"
    using 1 by (auto simp: stored_def unchanged_def)
  with 1 y have r: "err = None" "r \<in># txs (db (ext s2))" "col_eq E (F_tx_hash r) x" "F_status_t r = NORMAL"
    by (auto simp: stored_def split: option.splits)
  have "wp (bindE (CalcTransactionType t) (\<lambda>ty. CreateTransaction E (new_tx_row r cb x t f ty))) (\<lambda>r s'. r \<noteq> Ret None) s2" for f
  proof (rule wp_bindI [OF CalcTransactionType_wp], goal_cases)
    case (1 ty s3)
    show ?case
      by (rule wp_mono [OF CreateTransaction_wp]) (use 1 r in \<open>auto simp: tx_created_def new_tx_row_def\<close>)
  qed simp
  with r show ?case by (simp add: y split: option.split)
qed auto

lemma write_txs_refused:
  assumes "stored E db x s" and "x \<in> fst ` set m"
  shows "wp (write_txs E cb rcs m) (\<lambda>r s'. r \<noteq> Ret None) s"
  using assms
proof (induction m arbitrary: s)
  case (Cons e m)
  obtain y t where e: "e = (y, t)" by (cases e)
  show ?case
  proof (cases "y = x")
    case True
    show ?thesis
      unfolding e True write_txs.simps
      by (rule wp_bindI [OF write_tx_refused [OF Cons.prems(1)]]) (auto split: option.split)
  next
    case False
    with Cons.prems(2) e have "x \<in> fst ` set m" by auto
    then show ?thesis
      unfolding e write_txs.simps
      by (intro wp_bindI [OF keeps_wp [OF stored_keeps(1) Cons.prems(1)]]) (auto split: option.split intro: Cons.IH)
  qed
qed simp

lemma fetch_receipts_key:
  "wp (fetch_receipts E ts m rcs) (\<lambda>r s'. has_key x m \<or> (\<exists>t \<in> set ts. Hash_tr t = x) \<longrightarrow>
     (\<forall>m' rcs'. r = Ret (Inr (m', rcs')) \<longrightarrow> has_key x m')) s"
proof (induction ts arbitrary: m rcs s)
  case (Cons t ts)
  have any: "wp m (\<lambda>r s'. True) s" for m :: "('w st, 'b) eff" and s by (simp add: wp_def)
  show ?case
    unfolding fetch_receipts.simps
    by (intro wp_thenI [OF any] wp_bindI [OF any]) (auto split: sum.split intro!: wp_mono [OF Cons.IH])
qed simp

text \<open>No copy of the first block succeeds.\<close>

lemma first_block_refused:
  assumes "stored E db x s" and "range_order (order_txs E)"
    and "\<And>d w b w'. GetBlockByNumber (rpc E) 1 d w = (Ret (Inr b), w') \<Longrightarrow> \<exists>t \<in> set (Transactions b). Hash_tr t = x"
  shows "wp (SyncOneBlock E 1) (\<lambda>r s'. r \<noteq> Ret None) s"
proof -
  note view = stored_reads
  have node: "wp (callE (GetBlockByNumber (rpc E) 1 True)) (\<lambda>r s'. stored E db x s' \<and>
      (\<forall>b. r = Ret (Inr b) \<longrightarrow> (\<exists>t \<in> set (Transactions b). Hash_tr t = x))) s1" if "stored E db x s1" for s1
  proof (cases "GetBlockByNumber (rpc E) 1 True (ext s1)")
    case (Pair r w)
    from rpc_block_db [OF Pair] that have "stored E db x (s1\<lparr>ext := w\<rparr>)" by (simp add: stored_def)
    with Pair assms(3) show ?thesis by (auto simp: wp_callE)
  qed
  have receipts: "wp (fetch_receipts E ts [] []) (\<lambda>r s'. stored E db x s' \<and>
      (\<forall>m rcs. r = Ret (Inr (m, rcs)) \<longrightarrow> has_key x m)) s1" if "stored E db x s1" "\<exists>t \<in> set ts. Hash_tr t = x" for s1 ts
    by (rule wp_mono [OF wp_conj [OF keeps_wp [OF table_view.keeps_fetch(2) [OF view] that(1)] fetch_receipts_key [of _ _ _ x]]]) (use that(2) in blast)
  have "keeps (stored E db x) (AddBlockNow (-1))" by (simp add: keeps_def stored_def)
  then have parent: "keeps (stored E db x) (check_parent E 1 p)" for p
    unfolding check_parent_def by (intro table_view.keeps_base [OF view])
  have "wp (bindE (WriteBlock E cb m rcs) (\<lambda>err. case err of Some e \<Rightarrow> ret (Some e) | None \<Rightarrow> WriteTransactions E cb m rcs))
      (\<lambda>r s'. r \<noteq> Ret None) s1" if "stored E db x s1" "has_key x m" for cb m rcs s1
    by (rule wp_bindI [OF keeps_wp [OF stored_keeps(2) that(1)]])
      (use that(2) in \<open>auto simp: WriteTransactions_def has_key_def range_order_set [OF assms(2)] split: option.split intro!: write_txs_refused\<close>)
  then have checked: "wp (bindE (check_parent E 1 p) (\<lambda>err. case err of Some e \<Rightarrow> ret (Some e) | None \<Rightarrow>
      bindE (WriteBlock E cb m rcs) (\<lambda>err. case err of Some e \<Rightarrow> ret (Some e) | None \<Rightarrow> WriteTransactions E cb m rcs)))
      (\<lambda>r s'. r \<noteq> Ret None) s1" if "stored E db x s1" "has_key x m" for p cb m rcs s1
    by (intro wp_bindI [OF keeps_wp [OF parent that(1)]]) (use that(2) in \<open>auto split: option.split\<close>)
  show ?thesis
    unfolding SyncOneBlock_def DropBlok_def
    apply (simp add: wp_bindE [of "ret None"])
    apply (rule wp_thenI [OF keeps_wp [OF table_view.keeps_globals(1) [OF view] assms(1)]])
     apply (rule wp_bindI [OF node])
       apply (auto split: sum.split prod.split intro!: wp_thenI [OF keeps_wp [OF table_view.keeps_globals(3) [OF view]]]
        wp_bindI [OF keeps_wp [OF table_view.keeps_fetch(1) [OF view]]] wp_bindI [OF receipts] checked)
    apply blast
    done
qed

text \<open>The synchroniser over such a table and such a node.\<close>

definition stuck :: "string \<Rightarrow> 'w st \<Rightarrow> bool" where
  "stuck x s \<longleftrightarrow> stored E db x s \<and> block_now s \<le> 0"

lemma stuck_poll:
  assumes "stuck x s"
  shows "wp (poll_round E) (\<lambda>r s'. stuck x s') s"
proof -
  have number: "wp (callE (GetBlockNumber (rpc E))) (\<lambda>r s'. stuck x s' \<and> (\<forall>m. r = Ret (Inr m) \<longrightarrow> to_int64 m = m \<and> 0 \<le> m)) s1"
    if "stuck x s1" for s1
  proof (cases "GetBlockNumber (rpc E) (ext s1)")
    case (Pair r w)
    from rpc_number_db [OF Pair] that have "stuck x (s1\<lparr>ext := w\<rparr>)" by (simp add: stuck_def stored_def)
    moreover have "to_int64 m = m \<and> 0 \<le> m" if "r = Ret (Inr m)" for m
      using number_range [OF Pair [unfolded that]] by (simp add: in_int64_def)
    ultimately show ?thesis by (simp add: wp_callE Pair)
  qed
  have web3: "wp Web3 (\<lambda>r s'. stuck x s') s" using assms by (simp add: stuck_def stored_def)
  show ?thesis
    unfolding poll_round_def
  proof (rule wp_thenI [OF web3], rule wp_bindI [OF number], goal_cases)
    case (2 a s1 r s2)
    then show ?case by (cases r) (auto simp: wp_bindE [of GetBlockNOw] stuck_def)
  qed auto
qed

lemma stuck_catchup:
  assumes "stuck x s" and "sync_inv E db hdr s" and "range_order (order_txs E)"
    and node: "\<And>d w b w'. GetBlockByNumber (rpc E) 1 d w = (Ret (Inr b), w') \<Longrightarrow> \<exists>t \<in> set (Transactions b). Hash_tr t = x"
  shows "wp (catchup_round E n) (\<lambda>r s'. stuck x s') s"
proof (cases "block_now s < n")
  case True
  let ?b = "block_now s"
  have b: "?b \<le> 0" "-1 \<le> ?b" "stored E db x s" "chain_inv E hdr ?b (B_of db s)"
    using assms(1,2) by (simp_all add: stuck_def sync_inv_def)
  have "keeps (stored E db x) (SyncOneBlock E (?b + 1))"
    by (rule row_invariant.keeps_SyncOneBlock [OF stored_invariant [OF chain_node_axioms]])
      (use b(1) in \<open>simp_all add: keeps_def DropBlok_def stored_def\<close>)
  then have "wp (SyncOneBlock E (?b + 1)) (\<lambda>r s'. stored E db x s' \<and> sync_post E db hdr ?b r s') s"
    using b by (intro wp_conj keeps_wp SyncOneBlock_wp) auto
  moreover have "wp (SyncOneBlock E (?b + 1)) (\<lambda>r s'. ?b = 0 \<longrightarrow> r \<noteq> Ret None) s"
    using first_block_refused [OF b(3) assms(3) node] by (cases "?b = 0") (simp_all add: wp_def)
  ultimately have "wp (SyncOneBlock E (?b + 1)) (\<lambda>r s'. stuck x s' \<and> (r = Ret None \<longrightarrow> block_now s' = -1)) s"
    by (rule wp_mono [OF wp_conj]) (use b in \<open>auto simp: stuck_def sync_post_def split: if_splits\<close>)
  then have "wp (bindE (SyncOneBlock E (?b + 1)) (\<lambda>err. case err of
      Some e \<Rightarrow> ret (Catchup n) | None \<Rightarrow> thenE (AddBlockNow 1) (ret (Catchup n)))) (\<lambda>r s'. stuck x s') s"
    by (rule wp_bindI) (auto simp: wp_thenE stuck_def stored_def to_int64_id in_int64_def split: option.split)
  moreover have "to_int64 (?b + 1) = ?b + 1" using b by (simp add: in_int64_def)
  ultimately show ?thesis using True by (simp add: catchup_round_def wp_bindE [of GetBlockNOw])
qed (use assms in \<open>simp add: catchup_round_def wp_bindE\<close>)

lemma reachable_stuck:
  assumes "reachable E db s0 p s" and "start_ok E db hdr s0" and "stored E db x s0" and "top_block (B_of db s0) \<le> 1"
    and "range_order (order_txs E)"
    and node: "\<And>d w b w'. GetBlockByNumber (rpc E) 1 d w = (Ret (Inr b), w') \<Longrightarrow> \<exists>t \<in> set (Transactions b). Hash_tr t = x"
  shows "p \<noteq> Crashed \<longrightarrow> stuck x s"
  using assms(1)
proof (induction rule: reachable.induct)
  case (start p s)
  have "wp (start_sync E) (\<lambda>r s'. \<forall>q. r = Ret q \<longrightarrow> q \<noteq> Exited \<longrightarrow> stuck x s') s0"
    unfolding start_sync_def
  proof (rule Mysql_thenI, rule wp_bindI [OF GetMaxBlocNumber_wp], goal_cases)
    case (1 s1 y s2)
    then show ?case
      using assms(2-4) by (cases y) (auto simp: wp_thenE unchanged_def quiet_def B_of_def start_ok_def in_int64_def stuck_def
          stored_def split: option.splits)
  qed auto
  moreover have "p \<noteq> Exited" using reachable_ok [OF reachable.start [OF start] assms(2)] by (simp add: machine_ok_def)
  ultimately show ?case
    using start by (auto simp: StartSyncLastBlock_def split: prod.splits out.splits dest: wpD)
next
  case (sync p s p' s')
  have ok: "machine_ok s0 p s" by (rule reachable_ok [OF sync(1) assms(2)])
  show ?case
  proof (cases p)
    case Poll
    with sync show ?thesis by (auto split: prod.splits dest: wpD [OF stuck_poll])
  next
    case (Catchup n)
    with sync ok wpD [OF stuck_catchup [OF _ _ assms(5) node]] show ?thesis
      by (auto simp: machine_ok_def split: prod.splits)
  qed (use sync ok in \<open>auto simp: machine_ok_def\<close>)
next
  case (handler p s s')
  then show ?case by (auto simp: handler_frame_def stuck_def stored_def)
qed

end

context gorm_db_reliable
begin

text \<open>A row that a fork left behind is not written again: of all rows, only its status and its time of change are.\<close>

lemma write_tx_revives:
  assumes "t \<in># txs (db (ext s))" and "col_eq E (F_tx_hash t) x"
    and "\<forall>t \<in># txs (db (ext s)). col_eq E (F_tx_hash t) x \<longrightarrow> F_status_t t \<noteq> NORMAL"
  shows "wp (write_tx E cb rcs x tr) (\<lambda>r s'. r = Ret None \<longrightarrow> (\<exists>t \<in># txs (db (ext s)). col_eq E (F_tx_hash t) x \<and>
    tx_updated t (\<lambda>r. r\<lparr>F_status_t := NORMAL\<rparr>) (db (ext s)) (db (ext s')))) s"
  unfolding write_tx_def
proof (rule Mysql_thenI, rule wp_bindI [OF FindTrasactionByHash_wp], goal_cases)
  case (1 s1 y s2)
  obtain t err where y: "y = (t, err)" by (cases y)
  have s2: "db (ext s2) = db (ext s)" using 1 by (auto simp: quiet_def unchanged_def)
  have t: "err = None \<Longrightarrow> t \<in># txs (db (ext s)) \<and> col_eq E (F_tx_hash t) x" "err = Some e \<Longrightarrow> e \<noteq> DATA_NOT_EXIST" for e
    using 1 assms(1,2) y by (auto simp: quiet_def unchanged_def split: option.splits)
  have "wp (thenE (Mysql E) (UpdateTransactionStatus E (t\<lparr>F_status_t := NORMAL\<rparr>))) (\<lambda>r s'. r = Ret None \<longrightarrow>
      tx_updated t (\<lambda>r. r\<lparr>F_status_t := NORMAL\<rparr>) (db (ext s)) (db (ext s'))) s2"
  proof (rule Mysql_thenI, goal_cases)
    case (1 s3)
    then have "db (ext s3) = db (ext s)" using s2 by (simp add: quiet_def)
    then show ?case
      unfolding UpdateTransactionStatus_def
      by (intro wp_mono [OF updateTransactionColumn_reliable]) (auto simp: tx_updated_def split: out.splits option.splits)
  qed auto
  with t assms(3) y show ?case by (cases err) (auto elim!: wp_mono)
qed auto

end

end
