(* ===== verification/Prop_Restart.thy ===== *)
theory Prop_Restart
  imports Catch_Up Sync_Restart Sync_Stuck
begin

text \<open>
  The properties that span several processes over the same tables, and what keeps a synchroniser from ever passing
  the first block.
\<close>

section \<open>Restarts\<close>



lemma lives_low:
  assumes "list_all (\<lambda>i. fst ((sync_step ex_env ^^ i) (StartSyncLastBlock ex_env s)) \<noteq> Poll \<or>
      block_now (snd ((sync_step ex_env ^^ i) (StartSyncLastBlock ex_env s))) \<le> 0) [0..<k]"
  shows "lives (advancing ex_env) ex_env mem_db s (fst ((sync_step ex_env ^^ k) (StartSyncLastBlock ex_env s)))
    (snd ((sync_step ex_env ^^ k) (StartSyncLastBlock ex_env s)))"
proof -
  let ?a = "StartSyncLastBlock ex_env s"
  have low: "advancing ex_env (snd ((sync_step ex_env ^^ i) ?a))" if "i < k" "fst ((sync_step ex_env ^^ i) ?a) = Poll" for i
    using assms that chain_node.low_advancing [OF mem_chain_node] unfolding list_all_iff set_upt by force
  have boot: "lives (advancing ex_env) ex_env mem_db s (fst ?a) (snd ?a)" by (rule lives.boot [OF prod.collapse [symmetric]])
  from lives_iterate [OF boot, of k] low show ?thesis by (simp only: prod.collapse)
qed


lemma no_blocks: "\<forall>b \<in># blocks (mem_db (ext (init_st (ex_world bs)))). F_status b = NORMAL \<longrightarrow> 0 \<le> F_block b"
  by (simp add: init_st_def ex_world_def ex_mem_def mem_db_sel)


section \<open>A hole\<close>




definition rounds :: "nat \<Rightarrow> pc \<times> node mem_world st \<Rightarrow> pc \<times> node mem_world st" where
  "rounds k c = (sync_step ex_env ^^ k) c"





abbreviation heights :: "node mem_world st \<Rightarrow> (int \<times> int64) list" where
  "heights s \<equiv> map (\<lambda>b. (F_block b, F_status b)) (mem_blocks (m_now (ext s)))"








section \<open>The first block\<close>

text \<open>C11: a copy that broke off after a transaction of block 1 is never completed. When the tables hold a
  transaction of the node's block 1 as \<^const>\<open>NORMAL\<close>, and nothing above, then no process over them ever copies
  block 1: the drop does nothing below height 2, so the transaction is inserted again and refused at every try.\<close>

theorem height_one_stays_stuck:
  assumes "chain_node E db snap hdr canon" and "range_order (order_txs E)" and "start_ok E db hdr s0"
    and "top_block (blocks (db (ext s0))) \<le> 1" and "t \<in># txs (db (ext s0))" and "col_eq E (F_tx_hash t) x"
    and "\<forall>t \<in># txs (db (ext s0)). col_eq E (F_tx_hash t) x \<longrightarrow> F_status_t t = NORMAL"
    and "\<forall>d w b w'. GetBlockByNumber (rpc E) 1 d w = (Ret (Inr b), w') \<longrightarrow> x \<in> Hash_tr ` set (Transactions b)"
    and "reachable E db s0 p s" and "p \<noteq> Crashed"
  shows "block_now s \<le> 0 \<and> fst (SyncOneBlock E 1 s) \<noteq> Ret None"
proof -
  have node: "\<exists>t \<in> set (Transactions b). Hash_tr t = x" if "GetBlockByNumber (rpc E) 1 d w = (Ret (Inr b), w')" for d w b w'
    using assms(8) that by blast
  have "stored E db x s0" using assms(5-7) by (auto simp: stored_def)
  moreover have "top_block (B_of db s0) \<le> 1" using assms(4) by (simp add: B_of_def)
  ultimately have "p \<noteq> Crashed \<longrightarrow> chain_node.stuck E db x s"
    by (rule chain_node.reachable_stuck [OF assms(1,9,3) _ _ assms(2)]) (rule node)
  then have stuck: "stored E db x s" "block_now s \<le> 0" using assms(10) by (simp_all add: chain_node.stuck_def [OF assms(1)])
  have "wp (SyncOneBlock E 1) (\<lambda>r s'. r \<noteq> Ret None) s"
    by (rule chain_node.first_block_refused [OF assms(1) stuck(1) assms(2)]) (rule node)
  from wpD [OF this prod.collapse [symmetric]] stuck(2) show ?thesis by simp
qed

text \<open>The witness: block 1 has a transaction that is stored and a call of the mortgage contract on which the process
  dies; the next process finds the first one stored.\<close>

definition torn_chain :: "ChainBlock list" where
  "torn_chain = [ex_block 0 ''0:genesis'' ''genesis'' [], ex_block 1 ''1:0:genesis'' ''0:genesis''
     [ex_tx ''0x01'' ''0xbb'' [], ex_tx ''0x02'' MORTGAGECONTRACTADDR MORTGAGECONTRACT_FUNC_MORTGAGE]]"

definition torn :: "node mem_world st" where
  "torn = reborn (snd (rounds 3 (StartSyncLastBlock ex_env (init_st (ex_world torn_chain)))))"

lemma torn_rows:
  "heights torn = [(0, NORMAL), (1, NORMAL)]"
  "map (\<lambda>t. (F_tx_hash t, F_status_t t)) (mem_txs (m_now (ext torn))) = [(''0x01'', NORMAL)]"
  by code_simp+

lemma torn_start_ok: "start_ok ex_env mem_db mem_hdr torn"
proof -
  note boot = chain_node.boot_ok_def [OF mem_chain_node]
  have "chain_node.boot_ok ex_env mem_db mem_hdr (init_st (ex_world torn_chain))"
    using ex_start_ok no_blocks by (simp add: boot B_of_def)
  moreover have "lives (advancing ex_env) ex_env mem_db (init_st (ex_world torn_chain))
      (fst (rounds 3 (StartSyncLastBlock ex_env (init_st (ex_world torn_chain)))))
      (snd (rounds 3 (StartSyncLastBlock ex_env (init_st (ex_world torn_chain)))))"
    unfolding rounds_def by (rule lives_low) code_simp
  ultimately have "start_ok ex_env mem_db mem_hdr (snd (rounds 3 (StartSyncLastBlock ex_env (init_st (ex_world torn_chain)))))"
    using chain_node.alive_boot_ok [OF mem_chain_node chain_node.lives_alive [OF mem_chain_node]] by (simp add: boot)
  then show ?thesis by (simp add: torn_def start_ok_def B_of_def reborn_def)
qed

text \<open>A node that serves this chain for ever.\<close>

definition torn_env :: "node mem_world env" where
  "torn_env = mem_env (node_rpc\<lparr>GetBlockByNumber := \<lambda>n d w. (Ret (node_block (served_chain (ex_world torn_chain)) n), w)\<rparr>)"

lemma torn_chain_node: "chain_node torn_env mem_db mem_snap mem_hdr (\<lambda>_. ())"
  unfolding torn_env_def
proof (intro chain_node.intro mem_gorm_db_reliable chain_node_axioms.intro, goal_cases)
  case (1 x y)
  then show ?case by (simp add: mem_hdr_def ci_eq_def)
next
  case (7 n d w b w1 d' w2 p w3)
  then show ?case by (auto intro: served_parent)
qed (auto simp: node_rpc_def dest!: served_nth split: if_splits)

definition after_torn :: "pc \<times> node mem_world st" where
  "after_torn = (sync_step torn_env ^^ 3) (StartSyncLastBlock torn_env torn)"

lemma after_torn_reachable: "reachable torn_env mem_db torn (fst after_torn) (snd after_torn)"
proof -
  let ?a = "StartSyncLastBlock torn_env torn"
  have "reachable torn_env mem_db torn (fst ?a) (snd ?a)" by (rule reachable.start [OF prod.collapse [symmetric]])
  from reachable_iterate [OF this, of 3] show ?thesis unfolding after_torn_def by (simp only: prod.collapse)
qed

theorem height_one_stays_stuck_witness:
  "fst after_torn = Catchup 1 \<and> block_now (snd after_torn) \<le> 0 \<and> fst (SyncOneBlock torn_env 1 (snd after_torn)) \<noteq> Ret None"
proof -
  have run: "fst after_torn = Catchup 1" by code_simp
  have start: "start_ok torn_env mem_db mem_hdr torn"
    using torn_start_ok by (simp add: torn_env_def start_ok_def chain_inv_defs)
  have low: "F_block b \<le> 1" if "b \<in># blocks (mem_db (ext torn))" for b
    using that torn_rows(1) by (auto simp: mem_db_sel map_eq_Cons_conv)
  have one: "top_block (blocks (mem_db (ext torn))) \<le> 1"
  proof (cases "{# b \<in># blocks (mem_db (ext torn)). F_status b = NORMAL #} = {#}")
    case False
    then show ?thesis using low by (metis top_block_normal)
  qed (simp add: top_block_def)
  obtain t where l: "mem_txs (m_now (ext torn)) = [t]" "F_tx_hash t = ''0x01''" "F_status_t t = NORMAL"
    using torn_rows(2) by (auto simp: map_eq_Cons_conv)
  then have t: "t \<in># txs (mem_db (ext torn))" "F_tx_hash t = ''0x01''" by (simp_all add: mem_db_sel)
  have normal: "\<forall>t \<in># txs (mem_db (ext torn)). col_eq torn_env (F_tx_hash t) ''0x01'' \<longrightarrow> F_status_t t = NORMAL"
    using l by (simp add: mem_db_sel)
  have node: "\<forall>d w b w'. GetBlockByNumber (rpc torn_env) 1 d w = (Ret (Inr b), w') \<longrightarrow> ''0x01'' \<in> Hash_tr ` set (Transactions b)"
  proof -
    have "case node_block (served_chain (ex_world torn_chain)) 1 of Inr b \<Rightarrow> ''0x01'' \<in> Hash_tr ` set (Transactions b) | Inl e \<Rightarrow> True"
      by code_simp
    then show ?thesis by (auto simp: torn_env_def split: sum.splits)
  qed
  have eq: "col_eq torn_env (F_tx_hash t) ''0x01''" using t(2) by (simp add: torn_env_def ci_eq_def)
  have "range_order (order_txs torn_env)" by (simp add: torn_env_def range_order_id)
  from height_one_stays_stuck [OF torn_chain_node this start one t(1) eq normal node after_torn_reachable] run show ?thesis by simp
qed

section \<open>The stored transactions\<close>

text \<open>C13: every stored transaction has a decimal fee and amount, a status of the two the code knows, and either no type
  or one of the two mortgage types with the amount as 32 bytes of hexadecimal text and the contract as its target. So
  the loop of a drop never breaks off at a fee.\<close>

theorem stored_transactions_typed:
  assumes "chain_node E db snap hdr canon" and "\<forall>t \<in># txs (db (ext s0)). typed_tx t" and "reachable E db s0 p s"
    and "set ts \<subseteq> set_mset (txs (db (ext s)))"
  shows "(\<forall>t \<in># txs (db (ext s)). typed_tx t) \<and> fst (drop_txs E ts s') \<noteq> Ret False"
proof -
  have all: "\<forall>t \<in># txs (db (ext s)). typed_tx t"
    using drop_invariant.reachable_keeps [OF typed_txs_invariant [OF assms(1)] assms(3)] assms(2) by (simp add: typed_txs_def)
  moreover have "list_all typed_tx ts" using all assms(4) by (auto simp: list_all_iff)
  ultimately show ?thesis using wpD [OF drop_txs_complete prod.collapse [symmetric]] by blast
qed

theorem stored_transactions_typed_witness:
  "list_all typed_tx (mem_txs (m_now (ext (snd (ex_run 5))))) \<and> length (mem_txs (m_now (ext (snd (ex_run 5))))) = 2"
proof -
  have two: "length (mem_txs (m_now (ext (snd (ex_run 5))))) = 2" by code_simp
  have "\<forall>t \<in># txs (mem_db (ext (init_st (ex_world ex_chain)))). typed_tx t"
    by (simp add: init_st_def ex_world_def ex_mem_def mem_db_sel)
  from stored_transactions_typed [OF mem_chain_node this ex_run_reachable, of "[]" 5] two show ?thesis
    by (simp add: mem_db_sel list_all_iff)
qed

text \<open>C12: a transaction that an earlier fork left behind is revived at its old height. When block \<open>cb\<close> brings it again, its
  row becomes \<^const>\<open>NORMAL\<close>, but of no row does the height, the time or the fee change, whatever those of \<open>cb\<close> are.\<close>

theorem revived_keeps_height:
  assumes "gorm_db_reliable E db snap" and "t \<in># txs (db (ext s))" and "col_eq E (F_tx_hash t) x"
    and "\<forall>t \<in># txs (db (ext s)). col_eq E (F_tx_hash t) x \<longrightarrow> F_status_t t \<noteq> NORMAL"
    and "write_tx E cb receipts x transaction s = (Ret None, s')"
  shows "image_mset (\<lambda>r. (F_tx_hash r, F_block_t r, F_timestamp_t r, F_tx_fee r)) (txs (db (ext s'))) =
      image_mset (\<lambda>r. (F_tx_hash r, F_block_t r, F_timestamp_t r, F_tx_fee r)) (txs (db (ext s))) \<and>
    (\<exists>t \<in># txs (db (ext s')). col_eq E (F_tx_hash t) x \<and> F_status_t t = NORMAL)"
proof -
  from wpD [OF gorm_db_reliable.write_tx_revives [OF assms(1-4)] assms(5)]
  obtain r where r: "r \<in># txs (db (ext s))" "col_eq E (F_tx_hash r) x"
    "tx_updated r (\<lambda>r. r\<lparr>F_status_t := NORMAL\<rparr>) (db (ext s)) (db (ext s'))" by blast
  then obtain m where m: "txs (db (ext s')) = image_mset (\<lambda>r'. if F_id_t r' = F_id_t r
      then BeforeUpdate_Transaction m (r'\<lparr>F_status_t := NORMAL\<rparr>) else r') (txs (db (ext s)))"
    by (auto simp: tx_updated_def)
  let ?r = "BeforeUpdate_Transaction m (r\<lparr>F_status_t := NORMAL\<rparr>)"
  have "?r \<in># txs (db (ext s'))" using r(1) by (force simp: m image_iff)
  moreover have "col_eq E (F_tx_hash ?r) x" "F_status_t ?r = NORMAL" using r(2) by (simp_all add: BeforeUpdate_Transaction_def)
  ultimately have "\<exists>t \<in># txs (db (ext s')). col_eq E (F_tx_hash t) x \<and> F_status_t t = NORMAL" by blast
  then show ?thesis
    by (auto simp: m image_mset.compositionality comp_def BeforeUpdate_Transaction_def intro!: image_mset_cong)
qed

definition ex_forked :: "node mem_world st" where
  "ex_forked = init_st \<lparr>m_now = ex_mem\<lparr>mem_txs := [zero_Transaction\<lparr>F_id_t := 1, F_tx_hash := ''0x01'', F_block_t := 2, F_status_t := FORK\<rparr>]\<rparr>,
     m_snap = ex_mem, m_clock = 0, m_node = ex_node ex_chain\<rparr>"

theorem revived_keeps_height_witness:
  "image_mset (\<lambda>r. F_block_t r) (txs (mem_db (ext (snd (write_tx ex_env (ex_block 7 ''7'' ''6'' []) [] ''0x01'' (ex_tx ''0x01'' [] []) ex_forked))))) = {#2#}"
proof -
  let ?w = "write_tx ex_env (ex_block 7 ''7'' ''6'' []) [] ''0x01'' (ex_tx ''0x01'' [] []) ex_forked"
  let ?t = "zero_Transaction\<lparr>F_id_t := 1, F_tx_hash := ''0x01'', F_block_t := 2, F_status_t := FORK\<rparr>"
  have txs: "txs (mem_db (ext ex_forked)) = {#?t#}" by (simp add: ex_forked_def init_st_def ex_mem_def mem_db_sel)
  have "fst ?w = Ret None" by code_simp
  note run = run_eq [OF this]
  have "image_mset (\<lambda>r. (F_tx_hash r, F_block_t r, F_timestamp_t r, F_tx_fee r)) (txs (mem_db (ext (snd ?w)))) =
      image_mset (\<lambda>r. (F_tx_hash r, F_block_t r, F_timestamp_t r, F_tx_fee r)) {#?t#}"
    using revived_keeps_height [OF mem_gorm_db_reliable _ _ _ run, of ?t] unfolding txs by (simp add: ci_eq_def NORMAL_def FORK_def)
  from arg_cong [OF this, of "image_mset (\<lambda>p. fst (snd p))"] show ?thesis by (simp add: image_mset.compositionality comp_def)
qed

end
