(* ===== verification/Prop_Api.thy ===== *)
theory Prop_Api
  imports Example_Api
begin

text \<open>
  The properties of the HTTP interface: pages of stored rows, the page of an address over the pending and the
  stored transactions, the queries by date, the replies and panics of a request, the summary and the balance.
\<close>

section \<open>Pages\<close>

text \<open>C18: an answered page of blocks counts the \<^const>\<open>NORMAL\<close> blocks of the table and shows the part of them,
  highest first, that the page index and size ask for.\<close>

theorem blocks_page:
  assumes "gorm_db E db snap" and "Get_Blocks E rq s = (Served (Reply out), s')"
  shows "\<exists>argc M. BindInput rq (\<lambda>_. []) = Inr argc \<and> 1 \<le> PageIndex argc \<and> 0 < PageSize argc \<and>
     M = {# b \<in># blocks (db (ext s)). F_status b = NORMAL #} \<and> ErrNo out = 0 \<and> Count out = int (size M) \<and>
     map BlockNumber_bi (Blocks out) = page (page_offset (PageIndex argc) (PageSize argc)) (PageSize argc)
       (rev (sorted_list_of_multiset (image_mset F_block M))) \<and>
     set (Blocks out) \<subseteq> block_info ` set_mset M \<and> db (ext s') = db (ext s)"
proof -
  obtain argc where "BindInput rq (\<lambda>_. []) = Inr argc" "\<not> bad_page (PageIndex argc) (PageSize argc)"
    "ErrNo out = 0 \<and> Count out = int (size {# b \<in># blocks (db (ext s)). F_status b = NORMAL #}) \<and>
     map BlockNumber_bi (Blocks out) = page (page_offset (PageIndex argc) (PageSize argc)) (PageSize argc)
       (rev (sorted_list_of_multiset {# F_block b. b \<in># {# b \<in># blocks (db (ext s)). F_status b = NORMAL #} #})) \<and>
     set (Blocks out) \<subseteq> block_info ` set_mset {# b \<in># blocks (db (ext s)). F_status b = NORMAL #} \<and>
     db (ext s') = db (ext s)"
    using Get_Blocks_reply [OF assms] by blast
  then show ?thesis by (intro exI [of _ argc] exI) (auto simp: bad_page_def)
qed

theorem blocks_page_witness:
  "\<exists>out s'. Get_Blocks ex_env (ex_rq (ex_page 1 2)) ex_miner_st = (Served (Reply out), s') \<and>
     Count out = int (size {# b \<in># blocks (mem_db (ext ex_miner_st)). F_status b = NORMAL #}) \<and>
     map BlockNumber_bi (Blocks out) = [3, 2]"
proof -
  let ?h = "Get_Blocks ex_env (ex_rq (ex_page 1 2)) ex_miner_st"
  have "case fst ?h of Served (Reply out) \<Rightarrow> map BlockNumber_bi (Blocks out) = [3, 2] | _ \<Rightarrow> False" by code_simp
  then obtain out s' where out: "?h = (Served (Reply out), s')" "map BlockNumber_bi (Blocks out) = [3, 2]" by (rule replied)
  from blocks_page [OF mem_gorm_db out(1)] out show ?thesis by metis
qed



text \<open>C20: an answered page of an address selects the \<^const>\<open>NORMAL\<close> transactions from it or to it, compared
  under the collation of the table, counts them and shows them newest first.\<close>

theorem addr_page:
  assumes "gorm_db E db snap" and "Get_by_addr E rq s = (Served (Reply out), s')"
  shows "\<exists>argc. BindInput rq (\<lambda>_. []) = Inr argc \<and> 1 \<le> PageIndex argc \<and> 0 < PageSize argc \<and>
     tx_page_reply db (\<lambda>t. F_status_t t = NORMAL \<and> (col_eq E (F_from t) (Addr argc) \<or> col_eq E (F_to t) (Addr argc)))
       (PageIndex argc) (PageSize argc) s out s'"
  using Get_by_addr_reply [OF assms] by (auto simp: bad_page_def not_less not_le)

theorem addr_page_witness:
  "\<exists>out s'. Get_by_addr ex_env (ex_rq (ex_addr_page 1 2 ''0xbb'')) ex_tx_st = (Served (Reply out), s') \<and> Count_to out = 2 \<and>
     tx_page_reply mem_db (\<lambda>t. F_status_t t = NORMAL \<and> (ci_eq (F_from t) ''0xbb'' \<or> ci_eq (F_to t) ''0xbb'')) 1 2 ex_tx_st out s'"
proof -
  let ?h = "Get_by_addr ex_env (ex_rq (ex_addr_page 1 2 ''0xbb'')) ex_tx_st"
  have "case fst ?h of Served (Reply out) \<Rightarrow> Count_to out = 2 | _ \<Rightarrow> False" by code_simp
  then obtain out s' where out: "?h = (Served (Reply out), s')" "Count_to out = 2" by (rule replied)
  from addr_page [OF mem_gorm_db out(1)] out show ?thesis by (auto simp: ex_addr_page_def mem_env_def)
qed

section \<open>The page of an address over the pool and the table\<close>

text \<open>C21: a page that lies behind the pending transactions, and a first page that holds them all, are split
  into pending and stored ones so that together they are the page of the two lists, one after the other.\<close>

theorem split_page_exact:
  assumes "int (length pend) \<le> off \<or> off = 0 \<and> int (length pend) \<le> n" and "0 \<le> off" and "0 < n" and "off + n < 2 ^ 63"
  shows "\<exists>off' n' l. split_page cap off n pend s = (Ret (off', n', l), s) \<and>
    (\<forall>xs. l @ page off' n' xs = page off n (pend @ xs))"
  using split_page_right [OF assms, of cap s] by (auto simp: wp_def split: prod.splits)

theorem split_page_exact_witness:
  "\<exists>off' n' l. split_page id 3 2 [zero_Transaction] () = (Ret (off', n', l), ()) \<and>
    (\<forall>xs. l @ page off' n' xs = page 3 2 (zero_Transaction # xs))"
  using split_page_exact [of "[zero_Transaction]" 3 2 id "()"] by simp





text \<open>C24: the pending transactions of an address that are listed do not depend on the order in which Go ranges
  over the maps of the pool, only their order does.\<close>

theorem pending_any_order:
  assumes "range_order (order_pending E)" and "range_order (order_txs E)"
    and "get_addr_pending_Main E rq s = (Served (Reply out), s')"
  shows "\<exists>input content w w'. BindInput rq (\<lambda>i. [(''Addr'', Addr_in i)]) = Inr input \<and>
    TxpoolContent (rpc E) w = (Ret (Inr content), w') \<and>
    mset (PenddingList out) = image_mset pending_info
      {# tx \<in># mset (concat (map (\<lambda>e. map snd (snd e)) (Pending content))).
         From tx = ToLower (Addr_in input) \<or> To tx = ToLower (Addr_in input) #}"
proof -
  have any: "wp m (\<lambda>_ _. True) s" for m :: "('a st, unit) eff" and s by (simp add: wp_def split: prod.splits)
  have mset: "mset (map pending_info (filter P (pool_txs E c))) = image_mset pending_info
      {# tx \<in># mset (concat (map (\<lambda>e. map snd (snd e)) (Pending c))). P tx #}" for P c
    by (simp only: mset_map mset_filter pool_txs_mset [OF assms(1,2)])
  show ?thesis
    apply (rule served_replyI [OF _ assms(3) [unfolded get_addr_pending_Main_def]])
    apply (rule wp_thenI [OF any], rule wp_thenI [OF any])
    subgoal for u s1 v s2
      by (cases "TxpoolContent (rpc E) (ext s2)")
        (auto simp: wp_simps mset [simplified] split: sum.splits out.splits)
    by auto
qed

theorem pending_any_order_witness:
  "\<exists>out s' (input :: AddrOnlyInput) content w w'.
     get_addr_pending_Main ex_env (ex_rq \<lparr>Addr_in = ''0xBB''\<rparr>) ex_miner_st = (Served (Reply out), s') \<and>
     map TXHash (PenddingList out) = [''0x11'', ''0x13''] \<and> TxpoolContent (rpc ex_env) w = (Ret (Inr content), w') \<and>
     mset (PenddingList out) = image_mset pending_info
       {# tx \<in># mset (concat (map (\<lambda>e. map snd (snd e)) (Pending content))).
          From tx = ToLower (Addr_in input) \<or> To tx = ToLower (Addr_in input) #}"
proof -
  let ?h = "get_addr_pending_Main ex_env (ex_rq \<lparr>Addr_in = ''0xBB''\<rparr>) ex_miner_st"
  have "case fst ?h of Served (Reply out) \<Rightarrow> map TXHash (PenddingList out) = [''0x11'', ''0x13''] | _ \<Rightarrow> False" by code_simp
  then obtain out s' where out: "?h = (Served (Reply out), s')" "map TXHash (PenddingList out) = [''0x11'', ''0x13'']"
    by (rule replied)
  have "range_order (order_pending ex_env)" "range_order (order_txs ex_env)" by (simp_all add: mem_env_def range_order_id)
  from pending_any_order [OF this out(1)] obtain input :: AddrOnlyInput and content w w' where
    p: "TxpoolContent (rpc ex_env) w = (Ret (Inr content), w')" "mset (PenddingList out) = image_mset pending_info
       {# tx \<in># mset (concat (map (\<lambda>e. map snd (snd e)) (Pending content))).
          From tx = ToLower (Addr_in input) \<or> To tx = ToLower (Addr_in input) #}"
    by (elim exE conjE) blast
  show ?thesis by (intro exI conjI) (rule out p)+
qed

section \<open>Queries by date\<close>

text \<open>C25: the blocks listed between two dates are the \<^const>\<open>NORMAL\<close> blocks of the miner from the first
  second of the first day to the last second of the last day, shifted by the offset of the request, each once:
  the windows of the days neither overlap nor leave a gap.\<close>

theorem dates_cover_range:
  assumes "gorm_db E db snap" and "get_mined_block_by_addr_and_date_Main E rq s = (Served (Reply out), s')"
    and "BindInput rq date_required = Inr input" and "check_dates input = Inr (start, end)"
    and "in_int64 (Unix start + OffsetTime input)" and "in_int64 (Unix end + 86400 + OffsetTime input)"
  shows "mset (Blocks_do out) = image_mset date_info (mined_in E (blocks (db (ext s))) (Addr_di input)
    (Unix start + OffsetTime input) (Unix end + 86399 + OffsetTime input))"
  using gorm_db.date_reply [OF assms(1,2)] assms(3-6) check_dates_Inr(4) [OF assms(4)] by (auto simp: window_ok_def)

theorem dates_cover_range_witness:
  "\<exists>out s'. get_mined_block_by_addr_and_date_Main ex_env (ex_rq ex_dates) ex_miner_st = (Served (Reply out), s') \<and>
     map BlockNumber_db (Blocks_do out) = [1, 2] \<and> mset (Blocks_do out) =
       image_mset date_info (mined_in ex_env (blocks (mem_db (ext ex_miner_st))) ''0xM1'' 1573430400 1573516799)"
proof -
  let ?h = "get_mined_block_by_addr_and_date_Main ex_env (ex_rq ex_dates) ex_miner_st"
  have "case fst ?h of Served (Reply out) \<Rightarrow> map BlockNumber_db (Blocks_do out) = [1, 2] | _ \<Rightarrow> False" by code_simp
  then obtain out s' where out: "?h = (Served (Reply out), s')" "map BlockNumber_db (Blocks_do out) = [1, 2]" by (rule replied)
  let ?d = "\<lparr>sec = 1573430400, nsec = 0\<rparr>"
  from dates_cover_range [OF mem_gorm_db out(1) ex_dates_bound ex_dates_checked] out show ?thesis
    by (simp add: Unix_def ex_dates_def in_int64_def)
qed

text \<open>C26: the rewards and the fees listed day by day add up to those of the blocks of the miner in the range.\<close>

theorem daily_rewards_add_up:
  assumes "gorm_db E db snap" and "get_addr_mining_rewards_Main E rq s = (Served (Reply out), s')"
    and "BindInput rq date_required = Inr input" and "check_dates input = Inr (start, end)"
    and "in_int64 (Unix start + OffsetTime input)" and "in_int64 (Unix end + 86400 + OffsetTime input)"
    and "M = mined_in E (blocks (db (ext s))) (Addr_di input) (Unix start + OffsetTime input) (Unix end + 86399 + OffsetTime input)"
  shows "(\<Sum>d \<leftarrow> DayInfo out. num (Reward d)) = (\<Sum>b \<in># M. num (F_reward b)) \<and>
    (\<Sum>d \<leftarrow> DayInfo out. num (Fees d)) = (\<Sum>b \<in># M. num (F_fees b))"
  using gorm_db.reward_reply [OF assms(1,2)] assms(3-7) check_dates_Inr(4) [OF assms(4)]
  by (auto simp: window_ok_def Let_def comp_def)

theorem daily_rewards_add_up_witness:
  "\<exists>out s'. get_addr_mining_rewards_Main ex_env (ex_rq ex_dates) ex_miner_st = (Served (Reply out), s') \<and>
     map Reward (DayInfo out) = [''12''] \<and> (\<Sum>d \<leftarrow> DayInfo out. num (Reward d)) = (\<Sum>b \<in># mined_in ex_env
       (blocks (mem_db (ext ex_miner_st))) ''0xM1'' 1573430400 1573516799. num (F_reward b))"
proof -
  let ?h = "get_addr_mining_rewards_Main ex_env (ex_rq ex_dates) ex_miner_st"
  have "case fst ?h of Served (Reply out) \<Rightarrow> map Reward (DayInfo out) = [''12''] | _ \<Rightarrow> False" by code_simp
  then obtain out s' where out: "?h = (Served (Reply out), s')" "map Reward (DayInfo out) = [''12'']" by (rule replied)
  from daily_rewards_add_up [OF mem_gorm_db out(1) ex_dates_bound ex_dates_checked _ _ refl] out show ?thesis
    by (simp add: Unix_def ex_dates_def in_int64_def)
qed

text \<open>C27: the loop over the days ends after at most 101 queries, one for each day of the range.\<close>

theorem date_loop_bounded:
  assumes "check_dates input = Inr (start, end)"
  shows "\<exists>n \<le> 101. date_loop E input end start acc = query_days E input (map (\<lambda>i. (Add_day ^^ i) start) [0..<n]) acc"
  using date_loop_days [OF check_dates_Inr(3) [OF assms]] .

theorem date_loop_bounded_witness:
  "\<exists>n \<le> 101. date_loop ex_env ex_dates \<lparr>sec = 1573430400, nsec = 0\<rparr> \<lparr>sec = 1573430400, nsec = 0\<rparr> [] =
     query_days ex_env ex_dates (map (\<lambda>i. (Add_day ^^ i) \<lparr>sec = 1573430400, nsec = 0\<rparr>) [0..<n]) []"
  using date_loop_bounded [OF ex_dates_checked] .

section \<open>Replies\<close>



text \<open>C32: the balance reported for an address is the node's, with the numbers of its \<^const>\<open>NORMAL\<close> blocks and
  transactions in the tables.\<close>

theorem balance_reply:
  assumes "gorm_db E db snap" and "get_balance_Main E rq s = (Served (Reply out), s')"
    and "\<And>a d w r w'. GetBalance (rpc E) a d w = (r, w') \<Longrightarrow> db w' = db w"
  shows "\<exists>input bal. BindInput rq (\<lambda>i. [(''Addr'', Addr_in i)]) = Inr input \<and> ErrNo out = 0 \<and>
     (\<exists>w w'. GetBalance (rpc E) (Addr_in input) ''latest'' w = (Ret (Inr bal), w')) \<and> Balance out = String bal \<and>
     MinedBlocks out =
       int (size {# b \<in># blocks (db (ext s)). col_eq E (F_miner b) (Addr_in input) \<and> F_status b = NORMAL #}) \<and>
     Transactions_ba out = int (size {# t \<in># txs (db (ext s)).
       (col_eq E (F_from t) (Addr_in input) \<or> col_eq E (F_to t) (Addr_in input)) \<and> F_status_t t = NORMAL #})"
  by (rule gorm_db.get_balance_reply [OF assms])

theorem balance_reply_witness:
  "\<exists>out s'. get_balance_Main (mem_env ex_rich_rpc) (ex_rq \<lparr>Addr_in = ''0xm1''\<rparr>) ex_tx_st = (Served (Reply out), s') \<and>
     Balance out = ''7'' \<and>
     MinedBlocks out = int (size {# b \<in># blocks (mem_db (ext ex_tx_st)). ci_eq (F_miner b) ''0xm1'' \<and> F_status b = NORMAL #})"
proof -
  let ?h = "get_balance_Main (mem_env ex_rich_rpc) (ex_rq \<lparr>Addr_in = ''0xm1''\<rparr>) ex_tx_st"
  have "case fst ?h of Served (Reply out) \<Rightarrow> Balance out = ''7'' | _ \<Rightarrow> False" by code_simp
  then obtain out s' where out: "?h = (Served (Reply out), s')" "Balance out = ''7''" by (rule replied)
  have "BindInput (ex_rq \<lparr>Addr_in = ''0xm1''\<rparr>) (\<lambda>i. [(''Addr'', Addr_in i)]) = Inr \<lparr>Addr_in = ''0xm1''\<rparr>" by code_simp
  moreover have "GetBalance (rpc (mem_env ex_rich_rpc)) a d w = (r, w') \<Longrightarrow> mem_db w' = mem_db w" for a d w r w'
    by (simp add: mem_env_def ex_rich_rpc_def)
  ultimately show ?thesis using balance_reply [OF mem_gorm_db out(1)] out by (auto simp: mem_env_def)
qed

end
