(* ===== verification/Stats_Report.thy ===== *)
theory Stats_Report
  imports Go_Prelude
begin

text \<open>
  \<^verbatim>\<open>src/src/statistics/model\<close>: the reports the nodes send, and how package \<^verbatim>\<open>encoding/json\<close> fills them from a
  JSON value. JSON is taken as values, not as text. Decoding follows the rules the reports rely on: a
  member is matched by its exact name, else ignoring case; a member the structure does not have is
  skipped; null leaves the target as it is; a value of the wrong kind is an error (\<^const>\<open>None\<close>).
\<close>

section \<open>JSON values\<close>

text \<open>A number is an integer, or one written with a fraction or an exponent.\<close>

datatype json = JNull | JBool bool | JNum int | JFrac string | JStr string | JArr "json list" | JObj "(string \<times> json) list"

type_synonym 'r decoder = "json \<Rightarrow> 'r \<Rightarrow> 'r option"

definition dec_string :: "string decoder" where
  "dec_string j old = (case j of JStr x \<Rightarrow> Some x | JNull \<Rightarrow> Some old | _ \<Rightarrow> None)"

definition dec_bool :: "bool decoder" where
  "dec_bool j old = (case j of JBool b \<Rightarrow> Some b | JNull \<Rightarrow> Some old | _ \<Rightarrow> None)"

definition dec_int :: "int64 decoder" where
  "dec_int j old = (case j of JNum n \<Rightarrow> if in_int64 n then Some n else None | JNull \<Rightarrow> Some old | _ \<Rightarrow> None)"

definition dec_uint :: "uint64 decoder" where
  "dec_uint j old = (case j of JNum n \<Rightarrow> if 0 \<le> n \<and> n < 2 ^ 64 then Some n else None | JNull \<Rightarrow> Some old | _ \<Rightarrow> None)"

text \<open>A \<^verbatim>\<open>*big.Int\<close>: null sets the pointer to nil.\<close>

definition dec_big :: "int option decoder" where
  "dec_big j old = (case j of JNum n \<Rightarrow> Some (Some n) | JNull \<Rightarrow> Some None | _ \<Rightarrow> None)"

text \<open>A fixed number of bytes in hexadecimal with the prefix \<^verbatim>\<open>0x\<close>, as go-cypherium's \<^verbatim>\<open>hexutil\<close> reads
  it; kept as its text in lower case. Null is refused.\<close>

definition is_hex :: "char \<Rightarrow> bool" where
  "is_hex c \<longleftrightarrow> (case digit_val c of None \<Rightarrow> False | Some d \<Rightarrow> d < 16)"

definition dec_fixed :: "nat \<Rightarrow> string decoder" where
  "dec_fixed n j old =
     (case j of
        JStr (a # b # r) \<Rightarrow>
          if a = CHR ''0'' \<and> (b = CHR ''x'' \<or> b = CHR ''X'') \<and> length r = 2 * n \<and> list_all is_hex r
          then Some (''0x'' @ ToLower r) else None
      | _ \<Rightarrow> None)"

fun dec_list :: "'r decoder \<Rightarrow> 'r \<Rightarrow> json list \<Rightarrow> 'r list option" where
  "dec_list d z [] = Some []"
| "dec_list d z (j # js) =
     (case d j z of None \<Rightarrow> None | Some x \<Rightarrow> map_option (\<lambda>xs. x # xs) (dec_list d z js))"

definition dec_array :: "'r decoder \<Rightarrow> 'r \<Rightarrow> 'r list decoder" where
  "dec_array d z j old = (case j of JArr js \<Rightarrow> dec_list d z js | JNull \<Rightarrow> Some [] | _ \<Rightarrow> None)"

text \<open>A structure: its fields with the decoders of their values.\<close>

type_synonym 'r fields_of = "(string \<times> 'r decoder) list"

definition field_of :: "'r fields_of \<Rightarrow> string \<Rightarrow> 'r decoder option" where
  "field_of fs k =
     (case map_of fs k of
        Some d \<Rightarrow> Some d
      | None \<Rightarrow> map_option snd (find (\<lambda>f. ToLower (fst f) = ToLower k) fs))"

fun dec_members :: "'r fields_of \<Rightarrow> (string \<times> json) list \<Rightarrow> 'r \<Rightarrow> 'r option" where
  "dec_members fs [] r = Some r"
| "dec_members fs ((k, j) # ms) r =
     (case field_of fs k of
        None \<Rightarrow> dec_members fs ms r
      | Some d \<Rightarrow> (case d j r of None \<Rightarrow> None | Some r' \<Rightarrow> dec_members fs ms r'))"

definition dec_struct :: "'r fields_of \<Rightarrow> 'r decoder" where
  "dec_struct fs j old = (case j of JObj ms \<Rightarrow> dec_members fs ms old | JNull \<Rightarrow> Some old | _ \<Rightarrow> None)"

definition fld :: "('r \<Rightarrow> 'a) \<Rightarrow> ('a \<Rightarrow> 'r \<Rightarrow> 'r) \<Rightarrow> 'a decoder \<Rightarrow> 'r decoder" where
  "fld get put d j r = map_option (\<lambda>a. put a r) (d j (get r))"

section \<open>The data of a node\<close>

type_synonym ID = string
type_synonym Latency = string

record Info =
  Name_i :: string
  Node_i :: string
  Port_i :: int64
  Network :: string
  Protocol :: string
  API :: string
  Os :: string
  OsVer :: string
  Client :: string
  History :: bool

record TxStats =
  Hash_ts :: string

record StatBlock =
  Number_sb :: "int option"
  Hash_sb :: string
  ParentHash_sb :: string
  Timestamp_sb :: "int option"
  Miner_sb :: string
  GasUsed_sb :: uint64
  GasLimit_sb :: uint64
  Diff :: string
  TotalDiff :: string
  Txs :: "TxStats list"
  TxHash_sb :: string
  Root_sb :: string

record Pending_s =
  Pending_n :: int64

record Status =
  Active :: bool
  Syncing :: bool
  Mining :: bool
  Hashrate :: int64
  Peers :: int64
  GasPrice_s :: int64
  Uptime :: int64

definition zero_hex :: "nat \<Rightarrow> string" where
  "zero_hex n = ''0x'' @ replicate (2 * n) (CHR ''0'')"

definition zero_Info :: Info where
  "zero_Info = \<lparr>Name_i = [], Node_i = [], Port_i = 0, Network = [], Protocol = [], API = [], Os = [], OsVer = [],
     Client = [], History = False\<rparr>"

definition zero_StatBlock :: StatBlock where
  "zero_StatBlock = \<lparr>Number_sb = None, Hash_sb = zero_hex 32, ParentHash_sb = zero_hex 32, Timestamp_sb = None,
     Miner_sb = zero_hex 20, GasUsed_sb = 0, GasLimit_sb = 0, Diff = [], TotalDiff = [], Txs = [],
     TxHash_sb = zero_hex 32, Root_sb = zero_hex 32\<rparr>"

definition zero_Status :: Status where
  "zero_Status = \<lparr>Active = False, Syncing = False, Mining = False, Hashrate = 0, Peers = 0, GasPrice_s = 0, Uptime = 0\<rparr>"

definition Info_fields :: "Info fields_of" where
  "Info_fields =
     [(''name'', fld Name_i (\<lambda>x r. r\<lparr>Name_i := x\<rparr>) dec_string),
      (''node'', fld Node_i (\<lambda>x r. r\<lparr>Node_i := x\<rparr>) dec_string),
      (''port'', fld Port_i (\<lambda>x r. r\<lparr>Port_i := x\<rparr>) dec_int),
      (''net'', fld Network (\<lambda>x r. r\<lparr>Network := x\<rparr>) dec_string),
      (''protocol'', fld Protocol (\<lambda>x r. r\<lparr>Protocol := x\<rparr>) dec_string),
      (''api'', fld API (\<lambda>x r. r\<lparr>API := x\<rparr>) dec_string),
      (''os'', fld Os (\<lambda>x r. r\<lparr>Os := x\<rparr>) dec_string),
      (''os_v'', fld OsVer (\<lambda>x r. r\<lparr>OsVer := x\<rparr>) dec_string),
      (''client'', fld Client (\<lambda>x r. r\<lparr>Client := x\<rparr>) dec_string),
      (''canUpdateHistory'', fld History (\<lambda>x r. r\<lparr>History := x\<rparr>) dec_bool)]"

definition StatBlock_fields :: "StatBlock fields_of" where
  "StatBlock_fields =
     [(''number'', fld Number_sb (\<lambda>x r. r\<lparr>Number_sb := x\<rparr>) dec_big),
      (''hash'', fld Hash_sb (\<lambda>x r. r\<lparr>Hash_sb := x\<rparr>) (dec_fixed 32)),
      (''parentHash'', fld ParentHash_sb (\<lambda>x r. r\<lparr>ParentHash_sb := x\<rparr>) (dec_fixed 32)),
      (''timestamp'', fld Timestamp_sb (\<lambda>x r. r\<lparr>Timestamp_sb := x\<rparr>) dec_big),
      (''miner'', fld Miner_sb (\<lambda>x r. r\<lparr>Miner_sb := x\<rparr>) (dec_fixed 20)),
      (''gasUsed'', fld GasUsed_sb (\<lambda>x r. r\<lparr>GasUsed_sb := x\<rparr>) dec_uint),
      (''gasLimit'', fld GasLimit_sb (\<lambda>x r. r\<lparr>GasLimit_sb := x\<rparr>) dec_uint),
      (''difficulty'', fld Diff (\<lambda>x r. r\<lparr>Diff := x\<rparr>) dec_string),
      (''totalDifficulty'', fld TotalDiff (\<lambda>x r. r\<lparr>TotalDiff := x\<rparr>) dec_string),
      (''transactions'', fld Txs (\<lambda>x r. r\<lparr>Txs := x\<rparr>)
         (dec_array (dec_struct [(''hash'', fld Hash_ts (\<lambda>x r. r\<lparr>Hash_ts := x\<rparr>) (dec_fixed 32))])
           \<lparr>Hash_ts = zero_hex 32\<rparr>)),
      (''transactionsRoot'', fld TxHash_sb (\<lambda>x r. r\<lparr>TxHash_sb := x\<rparr>) (dec_fixed 32)),
      (''stateRoot'', fld Root_sb (\<lambda>x r. r\<lparr>Root_sb := x\<rparr>) (dec_fixed 32))]"

definition Status_fields :: "Status fields_of" where
  "Status_fields =
     [(''active'', fld Active (\<lambda>x r. r\<lparr>Active := x\<rparr>) dec_bool),
      (''syncing'', fld Syncing (\<lambda>x r. r\<lparr>Syncing := x\<rparr>) dec_bool),
      (''mining'', fld Mining (\<lambda>x r. r\<lparr>Mining := x\<rparr>) dec_bool),
      (''hashrate'', fld Hashrate (\<lambda>x r. r\<lparr>Hashrate := x\<rparr>) dec_int),
      (''peers'', fld Peers (\<lambda>x r. r\<lparr>Peers := x\<rparr>) dec_int),
      (''gasPrice'', fld GasPrice_s (\<lambda>x r. r\<lparr>GasPrice_s := x\<rparr>) dec_int),
      (''uptime'', fld Uptime (\<lambda>x r. r\<lparr>Uptime := x\<rparr>) dec_int)]"

section \<open>Reports\<close>

record AuthReport =
  ID_a :: ID
  Info_a :: Info
  Secret :: string

record StatusReport =
  ID_s :: ID
  Status_s :: Status

record PendingReport =
  ID_p :: ID
  Pending_p :: Pending_s

record BlockReport =
  ID_b :: ID
  Block_b :: StatBlock

record PingReport =
  ID_g :: ID
  ClientTime :: int

record LatencyReport =
  ID_l :: ID
  Latency_l :: Latency

record DisconnectReport =
  ID_d :: ID

datatype Report =
  RAuth AuthReport | RStatus StatusReport | RPending PendingReport | RBlock BlockReport |
  RPing PingReport | RLatency LatencyReport | RDisconnect DisconnectReport

fun NodeID :: "Report \<Rightarrow> ID" where
  "NodeID (RAuth r) = ID_a r"
| "NodeID (RStatus r) = ID_s r"
| "NodeID (RPending r) = ID_p r"
| "NodeID (RBlock r) = ID_b r"
| "NodeID (RPing r) = ID_g r"
| "NodeID (RLatency r) = ID_l r"
| "NodeID (RDisconnect r) = ID_d r"

text \<open>\<^verbatim>\<open>json.Unmarshal(emit.Payload, &report)\<close> for a new report of each type.\<close>

definition AuthReport_of :: "json \<Rightarrow> AuthReport option" where
  "AuthReport_of j = dec_struct
     [(''id'', fld ID_a (\<lambda>x r. r\<lparr>ID_a := x\<rparr>) dec_string),
      (''info'', fld Info_a (\<lambda>x r. r\<lparr>Info_a := x\<rparr>) (dec_struct Info_fields)),
      (''secret'', fld Secret (\<lambda>x r. r\<lparr>Secret := x\<rparr>) dec_string)]
     j \<lparr>ID_a = [], Info_a = zero_Info, Secret = []\<rparr>"

definition StatusReport_of :: "json \<Rightarrow> StatusReport option" where
  "StatusReport_of j = dec_struct
     [(''id'', fld ID_s (\<lambda>x r. r\<lparr>ID_s := x\<rparr>) dec_string),
      (''stats'', fld Status_s (\<lambda>x r. r\<lparr>Status_s := x\<rparr>) (dec_struct Status_fields))]
     j \<lparr>ID_s = [], Status_s = zero_Status\<rparr>"

definition PendingReport_of :: "json \<Rightarrow> PendingReport option" where
  "PendingReport_of j = dec_struct
     [(''id'', fld ID_p (\<lambda>x r. r\<lparr>ID_p := x\<rparr>) dec_string),
      (''stats'', fld Pending_p (\<lambda>x r. r\<lparr>Pending_p := x\<rparr>)
         (dec_struct [(''pending'', fld Pending_n (\<lambda>x r. r\<lparr>Pending_n := x\<rparr>) dec_int)]))]
     j \<lparr>ID_p = [], Pending_p = \<lparr>Pending_n = 0\<rparr>\<rparr>"

definition BlockReport_of :: "json \<Rightarrow> BlockReport option" where
  "BlockReport_of j = dec_struct
     [(''id'', fld ID_b (\<lambda>x r. r\<lparr>ID_b := x\<rparr>) dec_string),
      (''block'', fld Block_b (\<lambda>x r. r\<lparr>Block_b := x\<rparr>) (dec_struct StatBlock_fields))]
     j \<lparr>ID_b = [], Block_b = zero_StatBlock\<rparr>"

definition LatencyReport_of :: "json \<Rightarrow> LatencyReport option" where
  "LatencyReport_of j = dec_struct
     [(''id'', fld ID_l (\<lambda>x r. r\<lparr>ID_l := x\<rparr>) dec_string),
      (''latency'', fld Latency_l (\<lambda>x r. r\<lparr>Latency_l := x\<rparr>) dec_string)]
     j \<lparr>ID_l = [], Latency_l = []\<rparr>"

section \<open>Lemmas\<close>

text \<open>Numbers that are accepted fit the width of their field.\<close>

lemma dec_int_range: "dec_int j old = Some n \<Longrightarrow> in_int64 old \<Longrightarrow> in_int64 n"
  by (auto simp: dec_int_def split: json.splits if_splits)

lemma dec_uint_range: "dec_uint j old = Some n \<Longrightarrow> 0 \<le> old \<Longrightarrow> old < 2 ^ 64 \<Longrightarrow> 0 \<le> n \<and> n < 2 ^ 64"
  by (auto simp: dec_uint_def split: json.splits if_splits)

lemma dec_fixed_length: "dec_fixed n j old = Some h \<Longrightarrow> length h = 2 * n + 2"
  by (auto simp: dec_fixed_def ToLower_def split: json.splits list.splits if_splits)

lemma dec_members_inv:
  assumes "\<And>k d j r r'. field_of fs k = Some d \<Longrightarrow> d j r = Some r' \<Longrightarrow> P r \<Longrightarrow> P r'"
  shows "dec_members fs ms r = Some r' \<Longrightarrow> P r \<Longrightarrow> P r'"
proof (induction ms arbitrary: r)
  case (Cons m ms)
  then show ?case by (cases m) (auto split: option.splits dest: assms)
qed simp

text \<open>The type of a decoded block.\<close>

definition typed_block :: "StatBlock \<Rightarrow> bool" where
  "typed_block b \<longleftrightarrow> 0 \<le> GasUsed_sb b \<and> GasUsed_sb b < 2 ^ 64 \<and> 0 \<le> GasLimit_sb b \<and> GasLimit_sb b < 2 ^ 64 \<and>
     length (Hash_sb b) = 66 \<and> length (ParentHash_sb b) = 66 \<and> length (Miner_sb b) = 42 \<and>
     length (TxHash_sb b) = 66 \<and> length (Root_sb b) = 66 \<and> (\<forall>t \<in> set (Txs b). length (Hash_ts t) = 66)"

lemma fldE: "fld get put d j r = Some r' \<Longrightarrow> (\<And>a. d j (get r) = Some a \<Longrightarrow> r' = put a r \<Longrightarrow> thesis) \<Longrightarrow> thesis"
  by (auto simp: fld_def)

lemma field_of_set:
  assumes "field_of fs k = Some d"
  shows "d \<in> snd ` set fs"
proof (cases "map_of fs k")
  case None
  with assms obtain f where "find (\<lambda>f. ToLower (fst f) = ToLower k) fs = Some f" "d = snd f"
    by (auto simp: field_of_def)
  then show ?thesis by (metis find_Some_iff nth_mem image_eqI)
next
  case (Some e)
  with assms have "(k, d) \<in> set fs" by (simp add: field_of_def map_of_SomeD)
  then show ?thesis by force
qed

lemma dec_struct_inv:
  assumes "\<And>d j r r'. d \<in> snd ` set fs \<Longrightarrow> d j r = Some r' \<Longrightarrow> P r \<Longrightarrow> P r'"
    and "dec_struct fs j r = Some r'" and "P r"
  shows "P r'"
proof (cases j)
  case (JObj ms)
  with assms(2) have "dec_members fs ms r = Some r'" by (simp add: dec_struct_def)
  then show ?thesis
    by (rule dec_members_inv [where P = P, rotated]) (rule assms(3), rule assms(1) [OF field_of_set])
qed (use assms(2,3) in \<open>simp_all add: dec_struct_def\<close>)

lemma dec_list_inv:
  assumes "\<And>j x. d j z = Some x \<Longrightarrow> P x"
  shows "dec_list d z js = Some xs \<Longrightarrow> \<forall>x \<in> set xs. P x"
  by (induction js arbitrary: xs) (auto split: option.splits dest: assms)

lemma dec_array_inv:
  assumes "dec_array d z j old = Some xs" and "\<And>j x. d j z = Some x \<Longrightarrow> P x"
  shows "\<forall>x \<in> set xs. P x"
  using assms dec_list_inv [of d z P] by (auto simp: dec_array_def split: json.splits)

lemma tx_hash_typed:
  assumes "dec_struct [(''hash'', fld Hash_ts (\<lambda>x r. r\<lparr>Hash_ts := x\<rparr>) (dec_fixed 32))] j \<lparr>Hash_ts = zero_hex 32\<rparr> = Some t"
  shows "length (Hash_ts t) = 66"
proof (rule dec_struct_inv [OF _ assms, where P = "\<lambda>t. length (Hash_ts t) = 66"])
qed (auto elim!: fldE dest!: dec_fixed_length simp: zero_hex_def)

lemma StatBlock_typed:
  assumes "dec_struct StatBlock_fields j b = Some b'" and "typed_block b"
  shows "typed_block b'"
proof (rule dec_struct_inv [where P = typed_block, OF _ assms])
  fix d j r r'
  assume "d \<in> snd ` set StatBlock_fields" "d j r = Some r'" "typed_block r"
  then show "typed_block r'"
    unfolding StatBlock_fields_def
    by (auto simp: typed_block_def elim!: fldE dest: dec_fixed_length dec_uint_range
        dest!: dec_array_inv [where P = "\<lambda>t. length (Hash_ts t) = 66", OF _ tx_hash_typed])
qed

lemma BlockReport_typed: "BlockReport_of j = Some r \<Longrightarrow> typed_block (Block_b r)"
  unfolding BlockReport_of_def
  by (rule dec_struct_inv [where P = "\<lambda>r. typed_block (Block_b r)"])
    (auto elim!: fldE dest: StatBlock_typed, simp add: typed_block_def zero_StatBlock_def zero_hex_def)

end
