(* ===== verification/Stats_Server.thy ===== *)
theory Stats_Server
  imports Stats_Report
begin

text \<open>
  \<^verbatim>\<open>src/src/statistics/stats\<close>: the collector of reports, the emit messages, and the server that runs one loop
  per connected node over the shared collector. A round of the loop is a function of the next event of the
  connection; the connections of a server interleave round by round, because \<^verbatim>\<open>Collect\<close> holds the lock of the
  collector. The websocket library and the sockets are not modelled: an event says what they deliver and
  whether writing fails.
\<close>

section \<open>The collector\<close>

record Node =
  ID_n :: ID
  Info_n :: Info
  Latency_n :: Latency
  Block_n :: StatBlock
  Pending_nn :: Pending_s
  Status_n :: Status
  LastSeen :: int

definition new_node :: "AuthReport \<Rightarrow> int \<Rightarrow> Node" where
  "new_node r t = \<lparr>ID_n = ID_a r, Info_n = Info_a r, Latency_n = [], Block_n = zero_StatBlock,
     Pending_nn = \<lparr>Pending_n = 0\<rparr>, Status_n = zero_Status, LastSeen = t\<rparr>"

text \<open>The map is nil until the first report; \<open>auth\<close> is the optional check of an \<^typ>\<open>AuthReport\<close>.\<close>

record collector =
  nodes :: "(ID, Node) gomap option"
  auth :: "(AuthReport \<Rightarrow> bool) option"

definition ErrNodeNotAuthorized :: string where
  "ErrNodeNotAuthorized = ''node has not been authorized''"

definition ErrAuthFailed :: string where
  "ErrAuthFailed = ''authorization failed''"

definition the_nodes :: "collector \<Rightarrow> (ID, Node) gomap" where
  "the_nodes c = (case nodes c of None \<Rightarrow> [] | Some m \<Rightarrow> m)"

text \<open>The copy of the node that a report other than an \<^typ>\<open>AuthReport\<close> is entered into.\<close>

fun seen_node :: "Report \<Rightarrow> int \<Rightarrow> Node \<Rightarrow> Node" where
  "seen_node (RLatency r) t node = node\<lparr>LastSeen := t, Latency_n := Latency_l r\<rparr>"
| "seen_node (RBlock r) t node = node\<lparr>LastSeen := t, Block_n := Block_b r\<rparr>"
| "seen_node (RPending r) t node = node\<lparr>LastSeen := t, Pending_nn := Pending_p r\<rparr>"
| "seen_node (RStatus r) t node = node\<lparr>LastSeen := t, Status_n := Status_s r\<rparr>"
| "seen_node r t node = node\<lparr>LastSeen := t\<rparr>"

text \<open>\<^verbatim>\<open>Collect\<close> at time \<open>t\<close>. The node read from the map is a copy; the reports are entered into the copy, which
  is not stored back.\<close>

definition Collect :: "int \<Rightarrow> Report \<Rightarrow> collector \<Rightarrow> go_error \<times> collector" where
  "Collect t report col0 =
     (let col = col0\<lparr>nodes := Some (the_nodes col0)\<rparr> in
      case report of
        RAuth authReport \<Rightarrow>
          (case auth col of
             Some f \<Rightarrow>
               if \<not> f authReport then (Some ErrAuthFailed, col)
               else (None, col\<lparr>nodes := Some (map_put (ID_a authReport) (new_node authReport t) (the_nodes col))\<rparr>)
           | None \<Rightarrow> (None, col\<lparr>nodes := Some (map_put (ID_a authReport) (new_node authReport t) (the_nodes col))\<rparr>))
      | _ \<Rightarrow>
          (case map_of (the_nodes col) (NodeID report) of
             None \<Rightarrow> (Some ErrNodeNotAuthorized, col)
           | Some node \<Rightarrow>
               (let node = seen_node report t node in
                case report of
                  RDisconnect r \<Rightarrow> (None, col\<lparr>nodes := Some (map_del (NodeID report) (the_nodes col))\<rparr>)
                | _ \<Rightarrow> (None, col))))"

definition Get :: "collector \<Rightarrow> ID \<Rightarrow> Node option" where
  "Get c i = map_of (the_nodes c) i"

definition List :: "((ID, Node) gomap \<Rightarrow> (ID, Node) gomap) \<Rightarrow> collector \<Rightarrow> ID list" where
  "List ord c = map fst (ord (the_nodes c))"

section \<open>Emit messages\<close>

record EmitMessage =
  Topic :: string
  Payload :: "json option"

definition zero_emit :: EmitMessage where
  "zero_emit = \<lparr>Topic = [], Payload = None\<rparr>"

text \<open>The member \<^verbatim>\<open>emit\<close> of the message: the list of its raw elements.\<close>

definition emit_list :: "json \<Rightarrow> json list option" where
  "emit_list j = dec_struct [(''emit'', dec_array (\<lambda>x _. Some x) JNull)] j []"

definition type_error :: string where
  "type_error = ''json: cannot unmarshal''"

definition UnmarshalJSON :: "json \<Rightarrow> EmitMessage \<Rightarrow> go_error \<times> EmitMessage" where
  "UnmarshalJSON dat emit =
     (case emit_list dat of
        None \<Rightarrow> (Some type_error, emit)
      | Some [] \<Rightarrow> (Some ''missing emit fields'', emit)
      | Some (e0 # es) \<Rightarrow>
          (case dec_string e0 (Topic emit) of
             None \<Rightarrow> (Some type_error, emit)
           | Some topic \<Rightarrow>
               (case es of
                  [] \<Rightarrow> (None, emit\<lparr>Topic := topic\<rparr>)
                | e1 # _ \<Rightarrow> (None, emit\<lparr>Topic := topic, Payload := Some e1\<rparr>))))"

definition MarshalJSON :: "EmitMessage \<Rightarrow> string + json" where
  "MarshalJSON emit =
     (if Topic emit = [] then Inl ''missing topic''
      else Inr (JObj [(''emit'', JArr (JStr (Topic emit) # (case Payload emit of None \<Rightarrow> [] | Some p \<Rightarrow> [p])))]))"

definition MarshalEmit :: "('p \<Rightarrow> string + json) \<Rightarrow> string \<Rightarrow> 'p option \<Rightarrow> string + json" where
  "MarshalEmit marshal topic payload =
     (case payload of
        None \<Rightarrow> MarshalJSON \<lparr>Topic = topic, Payload = None\<rparr>
      | Some p \<Rightarrow>
          (case marshal p of
             Inl e \<Rightarrow> Inl e
           | Inr raw \<Rightarrow> MarshalJSON \<lparr>Topic = topic, Payload = Some raw\<rparr>))"

section \<open>The HTTP side of the server\<close>

record Server = collector +
  Name :: ID

datatype api_reply = Nodes "ID list" | TheNode Node | NotFound

definition APIHandler :: "((ID, Node) gomap \<Rightarrow> (ID, Node) gomap) \<Rightarrow> Server \<Rightarrow> string \<Rightarrow> api_reply" where
  "APIHandler ord srv nodeID =
     (if nodeID = [] then Nodes (List ord (collector.truncate srv))
      else
        (case Get (collector.truncate srv) nodeID of
           None \<Rightarrow> NotFound
         | Some node \<Rightarrow> TheNode node))"

section \<open>The loop of a connection\<close>

text \<open>What the next round of the loop meets: no frame, a frame that is no JSON, or a message; whether
  encoding the answer and flushing it fails; the time.\<close>

datatype incoming = NoFrame string | BadJson string | Msg json

record event =
  incoming :: incoming
  encode_err :: go_error
  flush_err :: go_error
  time_of :: int

text \<open>A connection: the message variable, reused from round to round, the deferred disconnects, latest
  first, what was encoded and not flushed yet, and what was sent.\<close>

record conn =
  emit :: EmitMessage
  deferred :: "ID list"
  buffer :: "json list"
  sent :: "json list"

definition new_conn :: conn where
  "new_conn = \<lparr>emit = zero_emit, deferred = [], buffer = [], sent = []\<rparr>"

definition on_collector :: "(collector \<Rightarrow> go_error \<times> collector) \<Rightarrow> Server \<Rightarrow> go_error \<times> Server" where
  "on_collector f srv =
     (case f (collector.truncate srv) of (e, c) \<Rightarrow> (e, srv\<lparr>nodes := nodes c, auth := auth c\<rparr>))"

definition put_out :: "EmitMessage \<Rightarrow> event \<Rightarrow> conn \<Rightarrow> go_error \<times> conn" where
  "put_out m ev c =
     (case MarshalJSON m of
        Inl e \<Rightarrow> (Some e, c)
      | Inr j \<Rightarrow> (case encode_err ev of Some e \<Rightarrow> (Some e, c) | None \<Rightarrow> (None, c\<lparr>buffer := buffer c @ [j]\<rparr>)))"

definition ping_json :: "(int \<Rightarrow> json) \<Rightarrow> PingReport \<Rightarrow> json" where
  "ping_json time_json r = JObj [(''id'', JStr (ID_g r)), (''clientTime'', time_json (ClientTime r))]"

text \<open>The reports that are only collected: the payload is decoded and handed to \<^verbatim>\<open>Collect\<close>.\<close>

definition collect_payload ::
  "event \<Rightarrow> (json \<Rightarrow> Report option) \<Rightarrow> Server \<times> conn \<Rightarrow> go_error \<times> Server" where
  "collect_payload ev dec sc =
     (case Payload (emit (snd sc)) of
        None \<Rightarrow> (Some ''unexpected end of JSON input'', fst sc)
      | Some p \<Rightarrow>
          (case dec p of
             None \<Rightarrow> (Some type_error, fst sc)
           | Some r \<Rightarrow> on_collector (Collect (time_of ev) r) (fst sc)))"

definition hello :: "event \<Rightarrow> Server \<times> conn \<Rightarrow> go_error \<times> Server \<times> conn" where
  "hello ev sc =
     (case collect_payload ev (\<lambda>p. map_option RAuth (AuthReport_of p)) sc of
        (Some e, srv) \<Rightarrow> (Some e, srv, snd sc)
      | (None, srv) \<Rightarrow>
          (let i = (case Payload (emit (snd sc)) of
                      None \<Rightarrow> [] | Some p \<Rightarrow> (case AuthReport_of p of None \<Rightarrow> [] | Some r \<Rightarrow> ID_a r));
               (err, c) = put_out \<lparr>Topic = ''ready'', Payload = None\<rparr> ev ((snd sc)\<lparr>deferred := i # deferred (snd sc)\<rparr>)
           in (err, srv, c)))"

text \<open>One topic: \<^const>\<open>None\<close> is the default case, which continues with the next round; otherwise the error
  with which the switch is left. The answer to a ping assigns to an \<^verbatim>\<open>err\<close> of its own.\<close>

definition handle_topic ::
  "(int \<Rightarrow> json) \<Rightarrow> event \<Rightarrow> Server \<times> conn \<Rightarrow> (go_error \<times> Server \<times> conn) option" where
  "handle_topic time_json ev sc =
     (let topic = Topic (emit (snd sc));
          collected = (\<lambda>dec. case collect_payload ev dec sc of (e, srv) \<Rightarrow> Some (e, srv, snd sc)) in
      if topic = ''hello'' then Some (hello ev sc)
      else if topic = ''node-ping'' then
        (let pong = \<lparr>Topic = ''node-pong'', Payload = Some (ping_json time_json
               \<lparr>ID_g = Name (fst sc), ClientTime = time_of ev\<rparr>)\<rparr>;
             (inner_err, c) = put_out pong ev (snd sc)
         in Some (None, fst sc, c))
      else if topic = ''latency'' then collected (\<lambda>p. map_option RLatency (LatencyReport_of p))
      else if topic = ''block'' then collected (\<lambda>p. map_option RBlock (BlockReport_of p))
      else if topic = ''pending'' then collected (\<lambda>p. map_option RPending (PendingReport_of p))
      else if topic = ''stats'' then collected (\<lambda>p. map_option RStatus (StatusReport_of p))
      else None)"

text \<open>One round: \<^const>\<open>Some\<close> is the error the loop returns with.\<close>

definition join_round :: "(int \<Rightarrow> json) \<Rightarrow> event \<Rightarrow> Server \<times> conn \<Rightarrow> go_error \<times> Server \<times> conn" where
  "join_round time_json ev sc =
     (case incoming ev of
        NoFrame e \<Rightarrow> (Some e, sc)
      | BadJson e \<Rightarrow> (Some e, sc)
      | Msg j \<Rightarrow>
          (case UnmarshalJSON j (emit (snd sc)) of
             (Some e, m) \<Rightarrow> (Some e, fst sc, (snd sc)\<lparr>emit := m\<rparr>)
           | (None, m) \<Rightarrow>
               (case handle_topic time_json ev (fst sc, (snd sc)\<lparr>emit := m\<rparr>) of
                  None \<Rightarrow> (None, fst sc, (snd sc)\<lparr>emit := m\<rparr>)
                | Some (Some e, sc') \<Rightarrow> (Some e, sc')
                | Some (None, srv, c) \<Rightarrow>
                    (case flush_err ev of
                       Some e \<Rightarrow> (Some e, srv, c)
                     | None \<Rightarrow> (None, srv, c\<lparr>buffer := [], sent := sent c @ buffer c\<rparr>)))))"

text \<open>Leaving the loop runs the deferred disconnects, the latest first; their errors are dropped.\<close>

fun run_deferred :: "int \<Rightarrow> ID list \<Rightarrow> Server \<Rightarrow> Server" where
  "run_deferred t [] srv = srv"
| "run_deferred t (i # ids) srv =
     run_deferred t ids (snd (on_collector (Collect t (RDisconnect \<lparr>ID_d = i\<rparr>)) srv))"

datatype joined = Running Server conn | Closed string Server conn

fun Join :: "(int \<Rightarrow> json) \<Rightarrow> event list \<Rightarrow> Server \<times> conn \<Rightarrow> joined" where
  "Join time_json [] sc = Running (fst sc) (snd sc)"
| "Join time_json (ev # evs) sc =
     (case join_round time_json ev sc of
        (Some e, srv, c) \<Rightarrow> Closed e (run_deferred (time_of ev) (deferred c) srv) c
      | (None, sc') \<Rightarrow> Join time_json evs sc')"

section \<open>Properties of the messages\<close>

lemma emit_list_single [simp]: "emit_list (JObj [(''emit'', JArr js)]) = Some js"
proof -
  have "dec_list (\<lambda>x _. Some x) JNull js = Some js" by (induction js) simp_all
  then show ?thesis
    by (simp add: emit_list_def dec_struct_def field_of_def dec_array_def)
qed

text \<open>A message that was marshalled is read back; what it has no payload for keeps the one read before.\<close>

lemma Unmarshal_Marshal:
  assumes "MarshalJSON e = Inr j"
  shows "UnmarshalJSON j m = (None, \<lparr>Topic = Topic e, Payload = (case Payload e of None \<Rightarrow> Payload m | Some p \<Rightarrow> Some p)\<rparr>)"
  using assms by (cases e; cases m)
    (auto simp: MarshalJSON_def UnmarshalJSON_def dec_string_def split: if_splits option.splits)

lemma Marshal_fails: "(\<exists>x. MarshalJSON e = Inl x) \<longleftrightarrow> Topic e = []"
  by (simp add: MarshalJSON_def)

end
