(* ===== verification/Stats_Hub.thy ===== *)
theory Stats_Hub
  imports Stats_Server
begin

text \<open>
  The statistics server as a whole: any number of connections over one collector, as a step relation. The
  invariant says that a collected node is owned by a connection that will disconnect it, and that the
  collector never shows more of a node than its first report.
\<close>

section \<open>The collector and its operations\<close>

text \<open>What the operations promise about lookups.\<close>

locale node_registry =
  fixes collect :: "int \<Rightarrow> Report \<Rightarrow> 'c \<Rightarrow> go_error \<times> 'c"
    and lookup :: "'c \<Rightarrow> ID \<Rightarrow> Node option"
    and accepts :: "'c \<Rightarrow> AuthReport \<Rightarrow> bool"
  assumes collect_auth: "accepts c r \<Longrightarrow> fst (collect t (RAuth r) c) = None \<and>
      lookup (snd (collect t (RAuth r) c)) = (lookup c)(ID_a r \<mapsto> new_node r t)"
    and collect_refused: "\<not> accepts c r \<Longrightarrow> fst (collect t (RAuth r) c) \<noteq> None \<and>
      lookup (snd (collect t (RAuth r) c)) = lookup c"
    and collect_disconnect: "lookup (snd (collect t (RDisconnect d) c)) = (lookup c)(ID_d d := None)"
    and collect_other: "\<forall>r. rep \<noteq> RAuth r \<Longrightarrow> \<forall>d. rep \<noteq> RDisconnect d \<Longrightarrow>
      lookup (snd (collect t rep c)) = lookup c \<and>
      (fst (collect t rep c) = None \<longleftrightarrow> lookup c (NodeID rep) \<noteq> None)"
    and accepts_collect: "accepts (snd (collect t rep c)) = accepts c"
begin

text \<open>A node is known from the report that authorizes it until its disconnect.\<close>

lemma auth_then_known:
  assumes "accepts c r" and "\<forall>a. rep \<noteq> RAuth a" and "\<forall>d. rep \<noteq> RDisconnect d" and "NodeID rep = ID_a r"
  shows "fst (collect t' rep (snd (collect t (RAuth r) c))) = None"
  using collect_auth [OF assms(1)] collect_other [OF assms(2,3)] assms(4) by simp

lemma disconnect_then_unknown:
  assumes "\<forall>a. rep \<noteq> RAuth a" and "\<forall>d. rep \<noteq> RDisconnect d" and "NodeID rep = ID_d d"
  shows "fst (collect t' rep (snd (collect t (RDisconnect d) c))) \<noteq> None"
  using collect_disconnect collect_other [OF assms(1,2)] assms(3) by simp

text \<open>Entries are what an accepted report made of them.\<close>

definition authentic :: "'c \<Rightarrow> bool" where
  "authentic c \<longleftrightarrow> (\<forall>i n. lookup c i = Some n \<longrightarrow> (\<exists>r t. accepts c r \<and> ID_a r = i \<and> n = new_node r t))"

lemma collect_authentic:
  assumes "authentic c"
  shows "authentic (snd (collect t rep c))"
proof (cases rep)
  case (RAuth r)
  with assms show ?thesis
    by (cases "accepts c r") (auto simp: authentic_def accepts_collect collect_auth collect_refused)
next
  case (RDisconnect d)
  with assms show ?thesis
    by (auto simp: authentic_def accepts_collect collect_disconnect)
qed (use assms in \<open>simp_all add: authentic_def accepts_collect collect_other\<close>)

end

definition accepts_auth :: "collector \<Rightarrow> AuthReport \<Rightarrow> bool" where
  "accepts_auth c r \<longleftrightarrow> (case auth c of None \<Rightarrow> True | Some f \<Rightarrow> f r)"

lemma the_nodes_Some [simp]: "the_nodes (c\<lparr>nodes := Some m\<rparr>) = m"
  by (simp add: the_nodes_def)

interpretation col: node_registry Collect Get accepts_auth
proof
  fix t c and r :: AuthReport and d :: DisconnectReport and rep :: Report
  show "accepts_auth c r \<Longrightarrow> fst (Collect t (RAuth r) c) = None \<and>
      Get (snd (Collect t (RAuth r) c)) = (Get c)(ID_a r \<mapsto> new_node r t)"
    by (auto simp: Collect_def Let_def accepts_auth_def Get_def fun_eq_iff split: option.splits)
  show "\<not> accepts_auth c r \<Longrightarrow> fst (Collect t (RAuth r) c) \<noteq> None \<and>
      Get (snd (Collect t (RAuth r) c)) = Get c"
    by (auto simp: Collect_def Let_def accepts_auth_def Get_def fun_eq_iff split: option.splits)
  show "Get (snd (Collect t (RDisconnect d) c)) = (Get c)(ID_d d := None)"
    by (auto simp: Collect_def Let_def Get_def fun_eq_iff split: option.splits)
  show "\<forall>r. rep \<noteq> RAuth r \<Longrightarrow> \<forall>d. rep \<noteq> RDisconnect d \<Longrightarrow>
      Get (snd (Collect t rep c)) = Get c \<and> (fst (Collect t rep c) = None) = (Get c (NodeID rep) \<noteq> None)"
    by (cases rep) (auto simp: Collect_def Let_def Get_def fun_eq_iff split: option.splits)
  show "accepts_auth (snd (Collect t rep c)) = accepts_auth c"
    by (auto simp: Collect_def Let_def accepts_auth_def fun_eq_iff split: Report.splits option.splits)
qed

text \<open>The collector as a finite map: what a report does to it.\<close>

fun registry_spec :: "(AuthReport \<Rightarrow> bool) \<Rightarrow> int \<Rightarrow> Report \<Rightarrow> (ID \<Rightarrow> Node option) \<Rightarrow> ID \<Rightarrow> Node option" where
  "registry_spec ok t (RAuth r) m = (if ok r then m(ID_a r \<mapsto> new_node r t) else m)"
| "registry_spec ok t (RDisconnect d) m = m(ID_d d := None)"
| "registry_spec ok t rep m = m"

lemma Collect_spec: "Get (snd (Collect t rep c)) = registry_spec (accepts_auth c) t rep (Get c)"
  using col.collect_auth col.collect_refused col.collect_disconnect col.collect_other
  by (cases rep) (simp_all add: fun_eq_iff)

section \<open>One round\<close>

abbreviation srv_nodes :: "Server \<Rightarrow> ID \<Rightarrow> Node option" where
  "srv_nodes srv \<equiv> Get (collector.truncate srv)"

definition accepts_srv :: "Server \<Rightarrow> AuthReport \<Rightarrow> bool" where
  "accepts_srv srv = accepts_auth (collector.truncate srv)"

lemma truncate_upd [simp]: "collector.truncate (srv\<lparr>nodes := m, auth := a\<rparr>) = \<lparr>nodes = m, auth = a\<rparr>"
  by (simp add: collector.defs)

lemma on_collector_nodes:
  "on_collector f srv = (e, srv') \<Longrightarrow> \<exists>c. f (collector.truncate srv) = (e, c) \<and> collector.truncate srv' = c"
  by (auto simp: on_collector_def split: prod.splits)

text \<open>A round collects at most one new node, whose disconnect it then defers, and changes nothing else
  of the collector.\<close>

definition round_effect :: "Server \<Rightarrow> conn \<Rightarrow> Server \<Rightarrow> conn \<Rightarrow> bool" where
  "round_effect srv c srv' c' \<longleftrightarrow>
     accepts_srv srv' = accepts_srv srv \<and>
     (srv_nodes srv' = srv_nodes srv \<and> deferred c' = deferred c \<or>
      (\<exists>r t. accepts_srv srv r \<and> srv_nodes srv' = (srv_nodes srv)(ID_a r \<mapsto> new_node r t) \<and>
         deferred c' = ID_a r # deferred c))"

lemma round_effect_refl: "deferred c' = deferred c \<Longrightarrow> round_effect srv c srv c'"
  by (simp add: round_effect_def)

lemma put_out_deferred [simp]: "deferred (snd (put_out m ev c)) = deferred c"
  by (simp add: put_out_def split: sum.splits option.splits)

lemma collect_payload_other:
  assumes "collect_payload ev dec sc = (e, srv')"
    and "\<And>p rep. dec p = Some rep \<Longrightarrow> (\<forall>r. rep \<noteq> RAuth r) \<and> (\<forall>d. rep \<noteq> RDisconnect d)"
  shows "srv_nodes srv' = srv_nodes (fst sc) \<and> accepts_srv srv' = accepts_srv (fst sc)"
  using assms(1) unfolding collect_payload_def
  by (auto split: option.splits simp: accepts_srv_def dest!: on_collector_nodes assms(2))
    (metis col.collect_other col.accepts_collect snd_conv)+

lemma hello_effect:
  assumes "hello ev (srv, c) = (e, srv', c')"
  shows "round_effect srv c srv' c'"
proof (cases "collect_payload ev (\<lambda>p. map_option RAuth (AuthReport_of p)) (srv, c)")
  case (Pair e1 srv1)
  show ?thesis
  proof (cases "\<exists>p r. Payload (emit c) = Some p \<and> AuthReport_of p = Some r")
    case True
    then obtain p r where p: "Payload (emit c) = Some p" "AuthReport_of p = Some r" by blast
    with Pair have "on_collector (Collect (time_of ev) (RAuth r)) srv = (e1, srv1)"
      by (simp add: collect_payload_def)
    then obtain k where k: "Collect (time_of ev) (RAuth r) (collector.truncate srv) = (e1, k)"
      "collector.truncate srv1 = k" using on_collector_nodes by blast
    have acc: "accepts_srv srv1 = accepts_srv srv"
      using col.accepts_collect [of "time_of ev" "RAuth r" "collector.truncate srv"] k
      by (simp add: accepts_srv_def)
    show ?thesis
    proof (cases "accepts_srv srv r")
      case True
      with col.collect_auth [of "collector.truncate srv" r "time_of ev"] k have "e1 = None"
        "srv_nodes srv1 = (srv_nodes srv)(ID_a r \<mapsto> new_node r (time_of ev))"
        by (simp_all add: accepts_srv_def)
      note e1 = this
      let ?c = "c\<lparr>deferred := ID_a r # deferred c\<rparr>"
      have "srv' = srv1" "c' = snd (put_out \<lparr>Topic = ''ready'', Payload = None\<rparr> ev ?c)"
        using assms Pair p e1(1) by (simp_all add: hello_def Let_def split: prod.splits)
      then have "deferred c' = ID_a r # deferred c" "srv' = srv1" by simp_all
      with e1(2) acc True show ?thesis unfolding round_effect_def by metis
    next
      case False
      with col.collect_refused [of "collector.truncate srv" r "time_of ev"] k have "e1 \<noteq> None"
        "srv_nodes srv1 = srv_nodes srv"
        by (simp_all add: accepts_srv_def)
      with assms Pair acc show ?thesis
        unfolding hello_def by (auto simp: round_effect_def)
    qed
  next
    case False
    with Pair have "e1 \<noteq> None" "srv1 = srv"
      by (auto simp: collect_payload_def split: option.splits)
    with assms Pair show ?thesis
      unfolding hello_def by (auto intro: round_effect_refl)
  qed
qed

lemma collected_effect:
  assumes "collect_payload ev dec (srv, c) = (e, srv')"
    and "\<And>p rep. dec p = Some rep \<Longrightarrow> (\<forall>r. rep \<noteq> RAuth r) \<and> (\<forall>d. rep \<noteq> RDisconnect d)"
  shows "round_effect srv c srv' c"
  using collect_payload_other [OF assms] by (simp add: round_effect_def)

lemma handle_topic_effect:
  assumes "handle_topic tj ev (srv, c) = Some (e, srv', c')"
  shows "round_effect srv c srv' c'"
proof -
  have pong: "deferred c1 = deferred c" if "put_out m ev c = (e1, c1)" for m e1 c1
    using put_out_deferred [of m ev c] that by simp
  show ?thesis
    using assms unfolding handle_topic_def
    by (auto simp: Let_def split: if_splits prod.splits dest: pong
        intro: round_effect_refl hello_effect elim!: collected_effect)
qed

lemma join_round_effect:
  assumes "join_round tj ev (srv, c) = (e, srv', c')"
  shows "round_effect srv c srv' c'"
proof -
  have "round_effect srv c srv1 c1 = round_effect srv (c\<lparr>emit := m\<rparr>) srv1 c1" for m srv1 c1
    by (simp add: round_effect_def)
  then have "round_effect srv c srv1 c1" if "handle_topic tj ev (srv, c\<lparr>emit := m\<rparr>) = Some (e1, srv1, c1)" for m e1 srv1 c1
    using handle_topic_effect [OF that] by simp
  note topic = this
  have out: "round_effect srv c srv1 (c1\<lparr>buffer := b, sent := x\<rparr>) = round_effect srv c srv1 c1" for srv1 c1 b x
    by (simp add: round_effect_def)
  show ?thesis
    using assms unfolding join_round_def
    by (auto simp: out split: incoming.splits prod.splits option.splits intro: round_effect_refl dest: topic)
qed

section \<open>The hub\<close>

text \<open>A connection runs its loop or, having left it, its deferred disconnects one after the other.\<close>

datatype conn_state = Open conn | Leaving "ID list"

record hub =
  server :: Server
  conns :: "nat \<Rightarrow> conn_state option"

inductive hub_step :: "(int \<Rightarrow> json) \<Rightarrow> hub \<Rightarrow> hub \<Rightarrow> bool" for tj where
  connect: "conns h k = None \<Longrightarrow> hub_step tj h (h\<lparr>conns := (conns h)(k \<mapsto> Open new_conn)\<rparr>)"
| continue: "conns h k = Some (Open c) \<Longrightarrow> join_round tj ev (server h, c) = (None, srv, c') \<Longrightarrow>
    hub_step tj h (h\<lparr>server := srv, conns := (conns h)(k \<mapsto> Open c')\<rparr>)"
| leave: "conns h k = Some (Open c) \<Longrightarrow> join_round tj ev (server h, c) = (Some e, srv, c') \<Longrightarrow>
    hub_step tj h (h\<lparr>server := srv, conns := (conns h)(k \<mapsto> Leaving (deferred c'))\<rparr>)"
| disconnect: "conns h k = Some (Leaving (i # ids)) \<Longrightarrow>
    hub_step tj h (h\<lparr>server := snd (on_collector (Collect t (RDisconnect \<lparr>ID_d = i\<rparr>)) (server h)),
      conns := (conns h)(k \<mapsto> Leaving ids)\<rparr>)"
| gone: "conns h k = Some (Leaving []) \<Longrightarrow> hub_step tj h (h\<lparr>conns := (conns h)(k := None)\<rparr>)"

definition Start :: "(AuthReport \<Rightarrow> bool) option \<Rightarrow> ID \<Rightarrow> hub" where
  "Start a n = \<lparr>server = \<lparr>nodes = None, auth = a, Name = n\<rparr>, conns = (\<lambda>_. None)\<rparr>"

inductive hub_reach :: "(int \<Rightarrow> json) \<Rightarrow> hub \<Rightarrow> hub \<Rightarrow> bool" for tj h0 where
  here: "hub_reach tj h0 h0"
| more: "hub_reach tj h0 h \<Longrightarrow> hub_step tj h h' \<Longrightarrow> hub_reach tj h0 h'"

fun owned :: "conn_state option \<Rightarrow> ID set" where
  "owned None = {}"
| "owned (Some (Open c)) = set (deferred c)"
| "owned (Some (Leaving ids)) = set ids"

definition owned_ids :: "(nat \<Rightarrow> conn_state option) \<Rightarrow> ID set" where
  "owned_ids f = (\<Union>k. owned (f k))"

text \<open>Every collected node is owned by a connection and is what its authorizing report made it.\<close>

definition hub_inv :: "hub \<Rightarrow> bool" where
  "hub_inv h \<longleftrightarrow> dom (srv_nodes (server h)) \<subseteq> owned_ids (conns h) \<and>
     col.authentic (collector.truncate (server h))"

lemma owned_upd: "owned_ids (f(k0 := x)) = owned x \<union> (\<Union>k \<in> - {k0}. owned (f k))"
  by (auto simp: owned_ids_def split: if_splits)

lemma owned_split: "owned_ids f = owned (f k0) \<union> (\<Union>k \<in> - {k0}. owned (f k))"
  by (auto simp: owned_ids_def)

lemma round_effect_inv:
  assumes "round_effect srv c srv' c'"
  shows "dom (srv_nodes srv') \<subseteq> dom (srv_nodes srv) \<union> set (deferred c')" "set (deferred c) \<subseteq> set (deferred c')"
    and "col.authentic (collector.truncate srv) \<Longrightarrow> col.authentic (collector.truncate srv')"
  using assms unfolding round_effect_def col.authentic_def accepts_srv_def
  by (force split: if_splits)+

lemma round_inv:
  assumes "round_effect (server h) c srv c'" and "hub_inv h" and "conns h k = Some (Open c)"
  shows "dom (srv_nodes srv) \<subseteq> set (deferred c') \<union> (\<Union>k \<in> - {k}. owned (conns h k)) \<and>
    col.authentic (collector.truncate srv)"
proof -
  have "dom (srv_nodes (server h)) \<subseteq> set (deferred c) \<union> (\<Union>k \<in> - {k}. owned (conns h k))"
    using assms(2,3) by (simp add: hub_inv_def owned_split [of _ k])
  with round_effect_inv [OF assms(1)] assms(2) show ?thesis
    unfolding hub_inv_def by blast
qed

lemma hub_step_inv:
  assumes "hub_step tj h h'" and "hub_inv h"
  shows "hub_inv h'"
  using assms
proof (cases rule: hub_step.cases)
  case (connect k)
  with assms(2) owned_split [of "conns h" k] show ?thesis
    by (simp add: hub_inv_def owned_upd new_conn_def)
next
  case (continue k c ev srv c')
  show ?thesis
    using round_inv [OF join_round_effect [OF continue(3)] assms(2) continue(2)] continue(1) by (simp add: hub_inv_def owned_upd)
next
  case (leave k c ev e srv c')
  show ?thesis
    using round_inv [OF join_round_effect [OF leave(3)] assms(2) leave(2)] leave(1) by (simp add: hub_inv_def owned_upd)
next
  case (disconnect k i ids t)
  let ?s = "snd (on_collector (Collect t (RDisconnect \<lparr>ID_d = i\<rparr>)) (server h))"
  have s: "collector.truncate ?s = snd (Collect t (RDisconnect \<lparr>ID_d = i\<rparr>) (collector.truncate (server h)))"
    by (simp add: on_collector_def split: prod.splits)
  have "srv_nodes ?s = (srv_nodes (server h))(i := None)"
    unfolding s by (simp add: col.collect_disconnect)
  moreover have "col.authentic (collector.truncate ?s)"
    unfolding s using assms(2) by (intro col.collect_authentic) (simp add: hub_inv_def)
  ultimately show ?thesis
    using assms(2) disconnect owned_split [of "conns h" k] by (auto simp: hub_inv_def owned_upd)
next
  case (gone k)
  with assms(2) owned_split [of "conns h" k] show ?thesis
    by (simp add: hub_inv_def owned_upd)
qed

lemma Start_inv: "hub_inv (Start a n)"
  by (simp add: hub_inv_def Start_def Get_def the_nodes_def collector.defs col.authentic_def dom_def)

lemma hub_reach_inv: "hub_reach tj (Start a n) h \<Longrightarrow> hub_inv h"
  by (induction rule: hub_reach.induct) (auto intro: Start_inv hub_step_inv)

section \<open>A connection of its own\<close>

text \<open>Leaving the loop forgets every node the connection registered, and no other.\<close>

lemma run_deferred_nodes:
  "srv_nodes (run_deferred t ids srv) = (\<lambda>i. if i \<in> set ids then None else srv_nodes srv i)"
proof (induction ids arbitrary: srv)
  case (Cons i ids)
  let ?s = "snd (on_collector (Collect t (RDisconnect \<lparr>ID_d = i\<rparr>)) srv)"
  have "collector.truncate ?s = snd (Collect t (RDisconnect \<lparr>ID_d = i\<rparr>) (collector.truncate srv))"
    by (simp add: on_collector_def split: prod.splits)
  then have "srv_nodes ?s = (srv_nodes srv)(i := None)"
    by (simp add: col.collect_disconnect)
  with Cons show ?case by (auto simp: fun_eq_iff)
qed simp

lemma run_deferred_dom: "dom (srv_nodes (run_deferred t ids srv)) = dom (srv_nodes srv) - set ids"
  by (auto simp: run_deferred_nodes split: if_splits)

lemma Join_running:
  "Join tj evs (srv, c) = Running srv' c' \<Longrightarrow> dom (srv_nodes srv') \<subseteq> dom (srv_nodes srv) \<union> set (deferred c') \<and>
     set (deferred c) \<subseteq> set (deferred c')"
proof (induction evs arbitrary: srv c)
  case (Cons ev evs)
  obtain e srv1 c1 where j: "join_round tj ev (srv, c) = (e, srv1, c1)" by (metis prod_cases3)
  with Cons.prems have "Join tj evs (srv1, c1) = Running srv' c'" by (auto split: option.splits)
  from Cons.IH [OF this] round_effect_inv(1,2) [OF join_round_effect [OF j]] show ?case by blast
qed simp

lemma Join_closed_deferred: "Join tj evs (srv, c) = Closed x srv' c' \<Longrightarrow> set (deferred c) \<subseteq> set (deferred c')"
proof (induction evs arbitrary: srv c)
  case (Cons ev evs)
  obtain e srv1 c1 where j: "join_round tj ev (srv, c) = (e, srv1, c1)" by (metis prod_cases3)
  from Cons.prems Cons.IH round_effect_inv(2) [OF join_round_effect [OF j]] show ?case
    unfolding Join.simps j by (cases e) auto
qed simp

lemma Join_closed:
  "Join tj evs (srv, c) = Closed x srv' c' \<Longrightarrow> dom (srv_nodes srv') \<subseteq> dom (srv_nodes srv) - set (deferred c')"
proof (induction evs arbitrary: srv c)
  case (Cons ev evs)
  obtain e srv1 c1 where j: "join_round tj ev (srv, c) = (e, srv1, c1)" by (metis prod_cases3)
  note eff = round_effect_inv(1,2) [OF join_round_effect [OF j]]
  show ?case
  proof (cases e)
    case (Some y)
    with j Cons.prems have "srv' = run_deferred (time_of ev) (deferred c') srv1" "c' = c1" by auto
    with eff show ?thesis using run_deferred_dom by blast
  next
    case None
    with j Cons.prems have k: "Join tj evs (srv1, c1) = Closed x srv' c'" by simp
    from Cons.IH [OF this] have "dom (srv_nodes srv') \<subseteq> dom (srv_nodes srv1) - set (deferred c')" .
    with eff Join_closed_deferred [OF k] show ?thesis by blast
  qed
qed simp

end
