(* ===== verification/Config.thy ===== *)
theory Config
  imports Go_Prelude
begin

text \<open>
  \<^verbatim>\<open>src/src/config/config.go\<close>: the configuration, read once. The file system and the TOML decoder are
  arguments: \<open>file\<close> is the result of reading \<^verbatim>\<open>./conf/scan.conf\<close>, \<open>toml\<close> decodes a text into a configuration.
\<close>

record database =
  Database :: string
  MaxOpenCoons :: int64
  MaxIdleCoons :: int64
  Schema :: string

record timeout =
  BlockchainTimeout :: int64
  RPCTimeOut :: int

record stats_conf =
  StatAddr :: string
  ServerId :: string

record appConfig =
  Server_c :: string
  IP :: string
  Port :: string
  Gate :: string
  DB :: database
  Redis_c :: string
  TimeOut :: timeout
  RateSyncInterval :: int64
  RateInRedis :: int64
  Stats :: stats_conf

definition zero_config :: appConfig where
  "zero_config = \<lparr>Server_c = [], IP = [], Port = [], Gate = [],
     DB = \<lparr>Database = [], MaxOpenCoons = 0, MaxIdleCoons = 0, Schema = []\<rparr>, Redis_c = [],
     TimeOut = \<lparr>BlockchainTimeout = 0, RPCTimeOut = 0\<rparr>, RateSyncInterval = 0, RateInRedis = 0,
     Stats = \<lparr>StatAddr = [], ServerId = []\<rparr>\<rparr>"

text \<open>The package variables: the configuration and whether \<^verbatim>\<open>once\<close> is spent.\<close>

record config_state =
  cfg :: appConfig
  once :: bool

definition config_start :: config_state where
  "config_start = \<lparr>cfg = zero_config, once = False\<rparr>"

definition default_stats :: "stats_conf \<Rightarrow> stats_conf" where
  "default_stats st =
     (let st = (if StatAddr st = [] then st\<lparr>StatAddr := '':3000''\<rparr> else st) in
      if ServerId st = [] then st\<lparr>ServerId := ''Scan&Stats''\<rparr> else st)"

definition load_config ::
  "string + string \<Rightarrow> (string \<Rightarrow> appConfig \<Rightarrow> go_error \<times> appConfig) \<Rightarrow> (config_state, unit) eff" where
  "load_config file toml s =
     (case file of
        Inl e \<Rightarrow> (Panic (PStr (''initial config, read config file error:'' @ e)), s)
      | Inr doc \<Rightarrow>
          (case toml doc (cfg s) of
             (Some e, c) \<Rightarrow> (Panic (PStr (''initial config, unmarshal config file error:'' @ e)), s\<lparr>cfg := c\<rparr>)
           | (None, c) \<Rightarrow> (Ret (), s\<lparr>cfg := c\<lparr>Stats := default_stats (Stats c)\<rparr>\<rparr>)))"

text \<open>\<^verbatim>\<open>once.Do\<close> is spent by its first call, also when the function panics.\<close>

definition Config ::
  "string + string \<Rightarrow> (string \<Rightarrow> appConfig \<Rightarrow> go_error \<times> appConfig) \<Rightarrow> (config_state, appConfig) eff" where
  "Config file toml s =
     (if once s then (Ret (cfg s), s)
      else
        (case load_config file toml s of
           (Panic p, s') \<Rightarrow> (Panic p, s'\<lparr>once := True\<rparr>)
         | (Ret u, s') \<Rightarrow> (Ret (cfg s'), s'\<lparr>once := True\<rparr>)))"

text \<open>The address the HTTP server of \<^verbatim>\<open>main\<close> listens on.\<close>

definition listen_addr :: "appConfig \<Rightarrow> string" where
  "listen_addr c = '':'' @ Port c"

section \<open>Properties\<close>

text \<open>A call never changes a configuration that was given out, and every later call gives the same.\<close>

lemma Config_stable:
  assumes "Config file toml s = (Ret c, s')"
  shows "Config file' toml' s' = (Ret c, s')"
  using assms by (auto simp: Config_def split: if_splits prod.splits out.splits)

lemma Config_defaults:
  assumes "Config file toml config_start = (Ret c, s')"
  shows "StatAddr (Stats c) \<noteq> [] \<and> ServerId (Stats c) \<noteq> []"
  using assms
  by (auto simp: Config_def config_start_def load_config_def default_stats_def Let_def
      split: if_splits sum.splits prod.splits option.splits)

text \<open>After a failed first call, the second gives the configuration as the failure left it.\<close>

lemma Config_after_failure:
  assumes "Config (Inl e) toml config_start = (r, s1)"
  shows "(\<exists>p. r = Panic p) \<and> Config file' toml' s1 = (Ret zero_config, s1)"
  using assms by (auto simp: Config_def config_start_def load_config_def)

end
