(* ===== verification/Stats_Start.thy ===== *)
theory Stats_Start
  imports Stats_Hub Config
begin

text \<open>
  \<^verbatim>\<open>src/src/statistics/stats/stats.go\<close> and \<^verbatim>\<open>src/src/statistics/example/main.go\<close>: starting the statistics
  server. \<^verbatim>\<open>net.SplitHostPort\<close> is written out; listening itself is an argument.
\<close>

section \<open>Addresses\<close>

definition last_colon :: "string \<Rightarrow> nat option" where
  "last_colon a = (if CHR '':'' \<in> set a then Some (length a - 1 - length (takeWhile (\<lambda>c. c \<noteq> CHR '':'') (rev a))) else None)"

definition first_at :: "char \<Rightarrow> string \<Rightarrow> nat option" where
  "first_at c a = (if c \<in> set a then Some (length (takeWhile (\<lambda>x. x \<noteq> c) a)) else None)"

text \<open>Host and port of an address, \<^const>\<open>None\<close> when the address is refused.\<close>

definition SplitHostPort :: "string \<Rightarrow> (string \<times> string) option" where
  "SplitHostPort a =
     (case last_colon a of
        None \<Rightarrow> None
      | Some i \<Rightarrow>
          if a ! 0 = CHR ''['' then
            (case first_at (CHR '']'') a of
               None \<Rightarrow> None
             | Some en \<Rightarrow>
                 if en + 1 \<noteq> i then None
                 else if CHR ''['' \<in> set (drop 1 a) \<or> CHR '']'' \<in> set (drop (en + 1) a) then None
                 else Some (take (en - 1) (drop 1 a), drop (i + 1) a))
          else if CHR '':'' \<in> set (take i a) \<or> CHR ''['' \<in> set a \<or> CHR '']'' \<in> set a then None
          else Some (take i a, drop (i + 1) a))"

section \<open>Starting\<close>

datatype stats_route = WebsocketHandler_r | APIHandler_r

text \<open>The patterns of the mux: one path, and everything else.\<close>

definition stats_mux :: "string \<Rightarrow> stats_route" where
  "stats_mux p = (if p = ''/api'' then WebsocketHandler_r else APIHandler_r)"

text \<open>\<open>listen a\<close> is the error with which serving on \<open>a\<close> ends, if it ends.\<close>

definition stats_Start :: "appConfig \<Rightarrow> (string \<Rightarrow> go_error) \<Rightarrow> (hub, unit) eff" where
  "stats_Start conf listen h =
     (let addr = StatAddr (Stats conf); h' = Start None (ServerId (Stats conf)) in
      if SplitHostPort addr = None then (Panic (PStr ''failed to parse address''), h)
      else
        (case listen addr of
           Some e \<Rightarrow> (Panic (PStr ''stats ListenAndServe error''), h')
         | None \<Rightarrow> (Ret (), h')))"

datatype example_mode = ExitCode int | ServeTLS | Serve string

definition example_main :: "string \<Rightarrow> bool \<Rightarrow> example_mode" where
  "example_main addr autotls =
     (case SplitHostPort addr of
        None \<Rightarrow> ExitCode 1
      | Some (host, port) \<Rightarrow> if port = ''80'' \<and> autotls then ServeTLS else Serve addr)"

section \<open>Properties\<close>

lemma last_colon_simple:
  assumes "CHR '':'' \<notin> set p"
  shows "last_colon (h @ CHR '':'' # p) = Some (length h)"
proof -
  have "takeWhile (\<lambda>c. c \<noteq> CHR '':'') (rev p @ CHR '':'' # rev h) = rev p"
    using assms by (subst takeWhile_append2) auto
  then show ?thesis by (simp add: last_colon_def)
qed

text \<open>An address without brackets and with one colon is split there.\<close>

lemma SplitHostPort_join:
  assumes "set (h @ p) \<inter> {CHR '':'', CHR ''['', CHR '']''} = {}"
  shows "SplitHostPort (h @ CHR '':'' # p) = Some (h, p)"
proof -
  have "(h @ CHR '':'' # p) ! 0 \<noteq> CHR ''[''" using assms by (cases h) auto
  with assms show ?thesis
    by (auto simp: SplitHostPort_def last_colon_simple)
qed

end
