(* ===== verification/Prop_Stats.thy ===== *)
theory Prop_Stats
  imports Stats_Start
begin

text \<open>
  The properties of the statistics server, from the messages over one connection to all connections together,
  and of the configuration that starts it.
\<close>

section \<open>Concrete messages\<close>

definition ex_hello :: "ID \<Rightarrow> event" where
  "ex_hello i = \<lparr>incoming = Msg (JObj [(''emit'', JArr [JStr ''hello'', JObj [(''id'', JStr i)]])]),
     encode_err = None, flush_err = None, time_of = 7\<rparr>"

definition ex_eof :: event where
  "ex_eof = \<lparr>incoming = NoFrame ''EOF'', encode_err = None, flush_err = None, time_of = 8\<rparr>"

definition ex_server :: Server where
  "ex_server = \<lparr>nodes = None, auth = None, Name = ''s''\<rparr>"

text \<open>Their rounds on a server without a check of authorizations.\<close>

lemma hello_round:
  assumes "auth srv = None"
  shows "\<exists>srv' c'. join_round tj (ex_hello i) (srv, c) = (None, srv', c') \<and> auth srv' = None \<and>
    srv_nodes srv' i \<noteq> None \<and> deferred c' = i # deferred c"
proof -
  have "field_of [(''emit'', d)] ''emit'' = Some d" for d :: "json list decoder" by (simp add: field_of_def)
  have a: "AuthReport_of (JObj [(''id'', JStr i)]) = Some \<lparr>ID_a = i, Info_a = zero_Info, Secret = []\<rparr>"
    by (simp add: AuthReport_of_def dec_struct_def field_of_def fld_def dec_string_def)
  have u: "UnmarshalJSON (JObj [(''emit'', JArr [JStr ''hello'', p])]) m = (None, \<lparr>Topic = ''hello'', Payload = Some p\<rparr>)" for p m
    by (simp add: UnmarshalJSON_def dec_string_def)
  show ?thesis
    using assms
    by (simp add: join_round_def ex_hello_def u handle_topic_def hello_def collect_payload_def a on_collector_def
        Collect_def collector.defs put_out_def MarshalJSON_def Get_def the_nodes_def Let_def)
qed


lemma ex_hub_known:
  obtains h where "hub_reach tj (Start None n) h" and "srv_nodes (server h) i \<noteq> None"
proof -
  obtain srv c where r: "join_round tj (ex_hello i) (server (Start None n), new_conn) = (None, srv, c)"
    "srv_nodes srv i \<noteq> None"
    using hello_round [of "server (Start None n)" tj i new_conn] by (auto simp: Start_def)
  let ?h = "(Start None n)\<lparr>conns := (conns (Start None n))(0 \<mapsto> Open new_conn)\<rparr>"
  have "hub_reach tj (Start None n) ?h" by (rule hub_reach.more [OF hub_reach.here]) (rule hub_step.connect, simp add: Start_def)
  then have "hub_reach tj (Start None n) (?h\<lparr>server := srv, conns := (conns ?h)(0 \<mapsto> Open c)\<rparr>)"
    by (rule hub_reach.more) (rule hub_step.continue, use r in simp_all)
  then show thesis by (rule that) (use r(2) in simp)
qed

section \<open>Messages and reports\<close>



text \<open>C34: a block report that is accepted has gas numbers of 64 bits, and hashes and addresses of their length.\<close>

theorem block_report_typed:
  assumes "BlockReport_of j = Some r"
  shows "0 \<le> GasUsed_sb (Block_b r) \<and> GasUsed_sb (Block_b r) < 2 ^ 64 \<and>
    0 \<le> GasLimit_sb (Block_b r) \<and> GasLimit_sb (Block_b r) < 2 ^ 64 \<and>
    length (Hash_sb (Block_b r)) = 66 \<and> length (ParentHash_sb (Block_b r)) = 66 \<and>
    length (Miner_sb (Block_b r)) = 42 \<and> length (TxHash_sb (Block_b r)) = 66 \<and> length (Root_sb (Block_b r)) = 66 \<and>
    (\<forall>t \<in> set (Txs (Block_b r)). length (Hash_ts t) = 66)"
  using BlockReport_typed [OF assms] by (simp add: typed_block_def)

theorem block_report_typed_witness:
  "\<exists>r. BlockReport_of (JObj [(''id'', JStr ''n''), (''block'', JObj [(''gasUsed'', JNum 21000)])]) = Some r \<and>
     GasUsed_sb (Block_b r) = 21000 \<and> length (Hash_sb (Block_b r)) = 66"
proof -
  let ?j = "JObj [(''id'', JStr ''n''), (''block'', JObj [(''gasUsed'', JNum 21000)])]"
  have "case BlockReport_of ?j of Some r \<Rightarrow> GasUsed_sb (Block_b r) = 21000 | None \<Rightarrow> False" by code_simp
  then obtain r where r: "BlockReport_of ?j = Some r" "GasUsed_sb (Block_b r) = 21000" by (auto split: option.splits)
  with block_report_typed [OF r(1)] show ?thesis by blast
qed

section \<open>The collector\<close>

text \<open>C35: collecting any sequence of reports is an update of a finite map: an accepted authorization enters the
  node as new, a disconnect removes it, every other report leaves the map as it is.\<close>

theorem collector_refines_map:
  "Get (fold (\<lambda>(t, rep) c. snd (Collect t rep c)) reps c) = fold (\<lambda>(t, rep). registry_spec (accepts_auth c) t rep) reps (Get c)"
proof (induction reps arbitrary: c)
  case (Cons tr reps)
  then show ?case
    by (cases tr) (simp add: col.accepts_collect Collect_spec)
qed simp

section \<open>Connections\<close>

text \<open>C36: in every reachable state of the server, a node that the collector knows is the responsibility of some
  connection, which will disconnect it; with no connection left it knows none.\<close>

theorem known_nodes_are_owned:
  assumes "hub_reach tj (Start a n) h"
  shows "dom (srv_nodes (server h)) \<subseteq> owned_ids (conns h) \<and>
    ((\<forall>k. conns h k = None) \<longrightarrow> srv_nodes (server h) = Map.empty)"
  using hub_reach_inv [OF assms] by (auto simp: hub_inv_def owned_ids_def fun_eq_iff dom_def)

theorem known_nodes_are_owned_witness:
  "\<exists>h. hub_reach JNum (Start None ''s'') h \<and> srv_nodes (server h) ''n'' \<noteq> None \<and> ''n'' \<in> owned_ids (conns h)"
proof -
  obtain h where h: "hub_reach JNum (Start None ''s'') h" "srv_nodes (server h) ''n'' \<noteq> None" by (rule ex_hub_known)
  with known_nodes_are_owned [OF h(1)] show ?thesis by blast
qed

text \<open>C37: what the collector shows of a node is never more than its authorizing report: the later reports on its
  latency, blocks, pending transactions and status are lost.\<close>

theorem later_reports_are_lost:
  assumes "hub_reach tj (Start a n) h" and "srv_nodes (server h) i = Some node"
  shows "\<exists>r t. ID_a r = i \<and> node = new_node r t"
  using hub_reach_inv [OF assms(1)] assms(2) unfolding hub_inv_def col.authentic_def by blast

theorem later_reports_are_lost_witness:
  "\<exists>h node r t. hub_reach JNum (Start None ''s'') h \<and> srv_nodes (server h) ''n'' = Some node \<and> node = new_node r t"
proof -
  obtain h where h: "hub_reach JNum (Start None ''s'') h" "srv_nodes (server h) ''n'' \<noteq> None" by (rule ex_hub_known)
  then obtain node where "srv_nodes (server h) ''n'' = Some node" by blast
  with later_reports_are_lost [OF h(1) this] h(1) show ?thesis by blast
qed

text \<open>C38: when the loop of a connection ends, the collector knows no node that this connection has registered, and
  none it did not know before.\<close>

theorem join_cleans_up:
  assumes "Join tj evs (srv, new_conn) = Closed e srv' c'"
  shows "dom (srv_nodes srv') \<subseteq> dom (srv_nodes srv) - set (deferred c')"
  by (rule Join_closed [OF assms])

theorem join_cleans_up_witness:
  "\<exists>e srv' c'. Join JNum [ex_hello ''n'', ex_eof] (ex_server, new_conn) = Closed e srv' c' \<and>
     deferred c' = [''n''] \<and> dom (srv_nodes srv') \<subseteq> dom (srv_nodes ex_server) - {''n''}"
proof -
  let ?j = "Join JNum [ex_hello ''n'', ex_eof] (ex_server, new_conn)"
  have "case ?j of Closed e srv' c' \<Rightarrow> deferred c' = [''n''] | _ \<Rightarrow> False" by code_simp
  then obtain e srv' c' where j: "?j = Closed e srv' c'" "deferred c' = [''n'']" by (auto split: joined.splits)
  with join_cleans_up [OF j(1)] show ?thesis by auto
qed


section \<open>Configuration\<close>

text \<open>C40: the first call fixes the configuration for good, also when it panics: after a missing file every later
  call returns the empty one; after a good file the statistics server has an address and a name.\<close>

theorem config_is_fixed_once:
  assumes "Config file toml config_start = (r, s1)"
  shows "Config file' toml' s1 = (Ret (cfg s1), s1) \<and>
    (case r of Ret c \<Rightarrow> c = cfg s1 \<and> StatAddr (Stats c) \<noteq> [] \<and> ServerId (Stats c) \<noteq> []
     | Panic p \<Rightarrow> (\<forall>e. file = Inl e \<longrightarrow> cfg s1 = zero_config))"
  using assms
  by (auto simp: Config_def config_start_def load_config_def default_stats_def Let_def
      split: if_splits sum.splits prod.splits option.splits)

theorem config_is_fixed_once_witness:
  "\<exists>p s1. Config (Inl ''no file'') (\<lambda>_ c. (None, c)) config_start = (Panic p, s1) \<and>
     Config (Inr ''x'') (\<lambda>_ c. (None, c\<lparr>Port := ''80''\<rparr>)) s1 = (Ret zero_config, s1)"
proof -
  let ?c = "Config (Inl ''no file'') (\<lambda>_ c. (None, c)) config_start"
  have "case fst ?c of Panic p \<Rightarrow> True | Ret x \<Rightarrow> False" by code_simp
  then obtain p where p: "fst ?c = Panic p" by (auto split: out.splits)
  with config_is_fixed_once [OF run_eq [OF p], of "Inr ''x''" "\<lambda>_ c. (None, c\<lparr>Port := ''80''\<rparr>)"] run_eq [OF p]
  show ?thesis by (intro exI [of _ p] exI [of _ "snd ?c"]) simp
qed

end
