(* ===== verification/Api_Frame.thy ===== *)
theory Api_Frame
  imports Api_Routes Table_Store
begin

text \<open>
  Every request is a query: whatever handler serves it and however it ends, it leaves the tables and the globals
  of the synchroniser as they are. The calls of the node do not reach the tables; that is the contract
  \<open>remote_node\<close>. The rest is a frame that the constructs of the handlers preserve one by one.
\<close>

section \<open>A node apart from the database\<close>

locale remote_node = gorm_db E db snap for E :: "'w env" and db :: "'w \<Rightarrow> dbst" and snap :: "'w \<Rightarrow> dbst" +
  assumes number_db: "GetBlockNumber (rpc E) w = (r1, w') \<Longrightarrow> db w' = db w"
    and block_db: "GetBlockByNumber (rpc E) n d w = (r2, w') \<Longrightarrow> db w' = db w"
    and hash_db: "GetBlockByHash (rpc E) x d w = (r3, w') \<Longrightarrow> db w' = db w"
    and poc_db: "GetBlockPocByNumber (rpc E) n w = (r4, w') \<Longrightarrow> db w' = db w"
    and tx_db: "GetTransactionByHash (rpc E) x w = (r5, w') \<Longrightarrow> db w' = db w"
    and receipt_db: "GetTransactionReceipt (rpc E) x w = (r6, w') \<Longrightarrow> db w' = db w"
    and balance_db: "GetBalance (rpc E) x y w = (r7, w') \<Longrightarrow> db w' = db w"
    and rewarded_db: "GetTotalRewarded (rpc E) x w = (r8, w') \<Longrightarrow> db w' = db w"
    and mortgage_db: "GetTotalMortgage (rpc E) x w = (r9, w') \<Longrightarrow> db w' = db w"
    and pool_db: "TxpoolContent (rpc E) w = (r10, w') \<Longrightarrow> db w' = db w"

interpretation mem_remote: remote_node "mem_env node_rpc" mem_db mem_snap
  by (intro remote_node.intro remote_node_axioms.intro gorm_db_reliable.axioms(1) [OF mem_gorm_db_reliable])
    (simp_all add: node_rpc_def)

text \<open>A client of the node that dereferences no nil pointer, whatever the node answers.\<close>

fun nil_panic :: "'a out \<Rightarrow> bool" where
  "nil_panic (Panic (PErrorString e)) = True"
| "nil_panic r = False"

definition derefs_no_nil :: "'w rpc_api \<Rightarrow> bool" where
  "derefs_no_nil R \<longleftrightarrow> (\<forall>w n d x y.
     \<not> nil_panic (fst (GetBlockNumber R w)) \<and> \<not> nil_panic (fst (GetBlockByNumber R n d w)) \<and>
     \<not> nil_panic (fst (GetBlockByHash R x d w)) \<and> \<not> nil_panic (fst (GetBlockPocByNumber R n w)) \<and>
     \<not> nil_panic (fst (GetTransactionByHash R x w)) \<and> \<not> nil_panic (fst (GetTransactionReceipt R x w)) \<and>
     \<not> nil_panic (fst (GetBalance R x y w)) \<and> \<not> nil_panic (fst (GetTotalRewarded R x w)) \<and>
     \<not> nil_panic (fst (GetTotalMortgage R x w)) \<and> \<not> nil_panic (fst (TxpoolContent R w)))"

lemma node_rpc_derefs_no_nil: "derefs_no_nil (rpc (mem_env node_rpc))"
  by (simp add: derefs_no_nil_def node_rpc_def split: option.splits)

section \<open>The frame\<close>

definition kept :: "('w \<Rightarrow> dbst) \<Rightarrow> 'w st \<Rightarrow> 'w st \<Rightarrow> bool" where
  "kept db s s' \<longleftrightarrow> db (ext s') = db (ext s) \<and> block_now s' = block_now s \<and> GLastBlock s' = GLastBlock s"

text \<open>The frame of a computation; if \<open>C\<close> holds, it does not dereference nil either.\<close>

definition reads :: "('w \<Rightarrow> dbst) \<Rightarrow> bool \<Rightarrow> ('w st, 'a) eff \<Rightarrow> bool" where
  "reads db C m \<longleftrightarrow> (\<forall>s. wp m (\<lambda>r s'. kept db s s' \<and> (C \<longrightarrow> \<not> nil_panic r)) s)"

lemma kept_refl: "kept db s s"
  by (simp add: kept_def)

lemma kept_trans: "kept db s s1 \<Longrightarrow> kept db s1 s2 \<Longrightarrow> kept db s s2"
  by (simp add: kept_def)

lemma reads_ret:
  "reads db C (ret a)" "reads db C (panicE (PStr e))" "reads db C (panicE (PRuntime e))" "reads db C (getE f)"
  "reads db False (panicE p)"
  by (simp_all add: reads_def kept_refl)

lemma reads_bindE:
  fixes m :: "('w st, 'a) eff"
  assumes "reads db C m" and "\<And>a. reads db C (f a)"
  shows "reads db C (bindE m f)"
  unfolding reads_def
proof
  fix s
  let ?Q = "\<lambda>r s'. kept db s s' \<and> (C \<longrightarrow> \<not> nil_panic r)"
  show "wp (bindE m f) ?Q s"
  proof (rule wp_bindI)
    show "wp m (\<lambda>r s'. kept db s s' \<and> (C \<longrightarrow> \<not> nil_panic r)) s" using assms(1) by (simp add: reads_def)
    show "wp (f a) ?Q s1" if "kept db s s1 \<and> (C \<longrightarrow> \<not> nil_panic (Ret a :: 'a out))" for a s1
      by (rule wp_mono [of _ "\<lambda>r s'. kept db s1 s' \<and> (C \<longrightarrow> \<not> nil_panic r)"])
        (use assms(2) kept_trans [OF conjunct1 [OF that]] in \<open>auto simp: reads_def\<close>)
    show "?Q (Panic p) s'" if "kept db s s' \<and> (C \<longrightarrow> \<not> nil_panic (Panic p :: 'a out))" for p s'
      using that by (cases p) auto
  qed
qed

lemma reads_thenE: "reads db C m \<Longrightarrow> reads db C k \<Longrightarrow> reads db C (thenE m k)"
  unfolding thenE_def by (rule reads_bindE)

lemma reads_cases:
  "reads db C m \<Longrightarrow> reads db C n \<Longrightarrow> reads db C (if b then m else n)"
  "reads db C m \<Longrightarrow> (\<And>a. reads db C (f a)) \<Longrightarrow> reads db C (case x of None \<Rightarrow> m | Some a \<Rightarrow> f a)"
  "(\<And>a. reads db C (g a)) \<Longrightarrow> (\<And>a. reads db C (h a)) \<Longrightarrow> reads db C (case y of Inl a \<Rightarrow> g a | Inr a \<Rightarrow> h a)"
  "(\<And>a b. reads db C (p a b)) \<Longrightarrow> reads db C (case z of (a, b) \<Rightarrow> p a b)"
  "reads db C m \<Longrightarrow> (\<And>a as. reads db C (q a as)) \<Longrightarrow> reads db C (case l of [] \<Rightarrow> m | a # as \<Rightarrow> q a as)"
  by (auto split: option.splits sum.splits prod.splits list.splits)

lemma reads_modifyE: "(\<And>s. kept db s (f s)) \<Longrightarrow> reads db C (modifyE f)"
  by (simp add: reads_def)

lemma reads_call: "(\<And>w a w'. f w = (a, w') \<Longrightarrow> db w' = db w) \<Longrightarrow> reads db C (call f)"
  by (auto simp: reads_def wp_simps kept_def split: prod.splits)

lemma reads_callE:
  "(\<And>w a w'. f w = (a, w') \<Longrightarrow> db w' = db w) \<Longrightarrow> C \<longrightarrow> (\<forall>w. \<not> nil_panic (fst (f w))) \<Longrightarrow> reads db C (callE f)"
  by (auto simp: reads_def wp_simps kept_def split: prod.splits) (metis fst_conv)

lemma reads_found: "reads db C (found_or_panic who z q)" "reads db C (found_or_error who z q)"
  by (auto simp: reads_def found_or_panic_def found_or_error_def kept_refl split: qres.splits)

lemma reads_RESULT: "reads db C (RESULT fs x)" "reads db C (RESULT_ERROR n e)" "reads db C (RESULT_PARAMETER_ERROR e)" "reads db C (rpc_error e)"
  by (auto simp: reads_def kept_def rpc_error_def)

lemmas reads_intros = reads_ret reads_bindE reads_thenE reads_cases reads_found reads_RESULT

text \<open>A handler that only reads; if \<open>C\<close> holds, the client gets to see how it ends.\<close>

definition querying :: "('w \<Rightarrow> dbst) \<Rightarrow> bool \<Rightarrow> ('w st \<Rightarrow> 'o served \<times> 'w st) \<Rightarrow> bool" where
  "querying db C h \<longleftrightarrow> (\<forall>s. kept db s (snd (h s)) \<and> (C \<longrightarrow> \<not> is_Lost (fst (h s))))"

lemma queryingI:
  assumes "reads db C m"
  shows "querying db C (PANIC_RECOVER m)"
  unfolding querying_def
proof
  fix s
  let ?Q = "\<lambda>r s'. kept db s s' \<and> (C \<longrightarrow> \<not> is_Lost r)"
  have "served_wp (PANIC_RECOVER m) ?Q s"
    unfolding served_wp_PANIC_RECOVER
    by (rule wp_mono [of _ "\<lambda>r s'. kept db s s' \<and> (C \<longrightarrow> \<not> nil_panic r)"])
      (use assms in \<open>auto simp: reads_def kept_def split: out.splits panic.splits\<close>)
  from served_wpD [OF this prod.collapse [symmetric]]
  show "kept db s (snd (PANIC_RECOVER m s)) \<and> (C \<longrightarrow> \<not> is_Lost (fst (PANIC_RECOVER m s)))" .
qed

context gorm_db
begin

lemma reads_ctx: "reads db C (ctx_Mysql E)" "reads db C (ctx_Redis E)" "reads db C ctx_Web3"
  unfolding ctx_Mysql_def ctx_Redis_def ctx_Web3_def
  by (intro reads_intros reads_call reads_modifyE; auto simp: kept_def dest: open_db redis_db)+

lemma reads_tables:
  "reads db C (call (tbl_first (t_block E) P))" "reads db C (call (tbl_find (t_block E) P k pg))"
  "reads db C (call (tbl_count (t_block E) P))" "reads db C (call (tbl_count (t_transaction E) Q))"
  "reads db C (call (tbl_find (t_transaction E) Q l pg))" "reads db C (call (tbl_first (t_miner_reward E) R))"
  "reads db C (call (now E))" "reads db C (call (now_text E))"
  by (rule reads_call, erule blk_first_frame blk_find_frame blk_count_frame trx_count_frame trx_find_frame
      mrw_first_frame now_db now_text_db [THEN conjunct1])+

lemmas reads_base = reads_intros reads_ctx reads_tables

lemma reads_accessors:
  "reads db C (GetRecentBlocks E i n)" "reads db C (GetActiveBlockNum E)" "reads db C (GetActiveBlockNumByAddr E a)"
  "reads db C (GetBlocksByMinerAddr E a i n)" "reads db C (GetBlockByHash_db E a)" "reads db C (FindMinedBlockByAddrAndTime E a i j)"
  "reads db C (GetRecentOneDayBlockNumber E)" "reads db C (GetTransactionsCount E)" "reads db C (GetTransactions E i n)"
  "reads db C (GetTransactionsCountByAddr E a)" "reads db C (GetTransactionsByAddr E a i n)"
  "reads db C (GetTransactionsCountByHeight E i)" "reads db C (GetTransactionsByHeight E i j n)"
  "reads db C (GetTransactionsByAddrAndType E a ty i n)" "reads db C (FindRewardByMiner E a)"
  unfolding GetRecentBlocks_def GetActiveBlockNum_def GetActiveBlockNumByAddr_def GetBlocksByMinerAddr_def
    GetBlockByHash_db_def FindMinedBlockByAddrAndTime_def GetRecentOneDayBlockNumber_def GetTransactionsCount_def
    GetTransactions_def GetTransactionsCountByAddr_def GetTransactionsByAddr_def GetTransactionsCountByHeight_def
    GetTransactionsByHeight_def GetTransactionsByAddrAndType_def FindRewardByMiner_def Let_def
  by (intro reads_base)+

end

section \<open>The handlers\<close>

context remote_node
begin

lemma reads_node:
  assumes "C \<longrightarrow> derefs_no_nil (rpc E)"
  shows "reads db C (callE (GetBlockNumber (rpc E)))" "reads db C (callE (GetBlockByNumber (rpc E) n d))"
  "reads db C (callE (GetBlockByHash (rpc E) x d))" "reads db C (callE (GetBlockPocByNumber (rpc E) n))"
  "reads db C (callE (GetTransactionByHash (rpc E) x))" "reads db C (callE (GetTransactionReceipt (rpc E) x))"
  "reads db C (callE (GetBalance (rpc E) x y))" "reads db C (callE (GetTotalRewarded (rpc E) x))"
  "reads db C (callE (GetTotalMortgage (rpc E) x))" "reads db C (callE (TxpoolContent (rpc E)))"
  by (rule reads_callE, erule number_db block_db hash_db poc_db tx_db receipt_db balance_db rewarded_db mortgage_db
      pool_db, use assms in \<open>simp add: derefs_no_nil_def\<close>)+

lemma reads_pending_loop: "reads db C (pending_loop E addr ty ts acc)"
proof (induction ts arbitrary: acc)
  case (Cons t ts)
  have "reads db C (CalcTransactionType t)"
    unfolding CalcTransactionType_def last64_def slice_bounds_def by (intro reads_intros)
  with Cons show ?case
    unfolding pending_loop.simps by (intro reads_base)
qed (simp add: reads_ret)

lemma reads_get_pending:
  assumes "C \<longrightarrow> derefs_no_nil (rpc E)"
  shows "reads db C (get_pending E addr ty)"
  unfolding get_pending_def by (intro reads_base reads_node [OF assms] reads_pending_loop)

lemma reads_split_page: "reads db C (split_page cap off n l)"
  unfolding split_page_def slice_to_def slice_bounds_def Let_def by (intro reads_intros)

lemma reads_date_loop: "reads db C (date_loop E input end day acc)"
proof (induction "nat (Unix end - Unix day + 1)" arbitrary: day acc rule: less_induct)
  case less
  have "Unix day \<le> Unix end \<Longrightarrow> nat (Unix end - Unix (Add_day day) + 1) < nat (Unix end - Unix day + 1)" by simp
  note IH = less [OF this]
  show ?case
  proof (cases "Unix day \<le> Unix end")
    case True
    show ?thesis
      by (subst date_loop.simps) (simp only: True if_True, intro reads_base reads_accessors IH [OF True])
  qed (subst date_loop.simps, simp add: reads_ret)
qed

lemma reads_reward_loop: "reads db C (reward_loop E input end day acc)"
proof (induction "nat (Unix end - Unix day + 1)" arbitrary: day acc rule: less_induct)
  case less
  have "Unix day \<le> Unix end \<Longrightarrow> nat (Unix end - Unix (Add_day day) + 1) < nat (Unix end - Unix day + 1)" by simp
  note IH = less [OF this]
  show ?case
  proof (cases "Unix day \<le> Unix end")
    case True
    show ?thesis
      by (subst reward_loop.simps) (simp only: True if_True, intro reads_base reads_accessors IH [OF True])
  qed (subst reward_loop.simps, simp add: reads_ret)
qed

lemma reads_day_reward: "reads db False (calcDayReward E)" "reads db False (div_reward p n)"
proof -
  have "reads db False (sum_rewards bs r)" for bs r
    by (induction bs arbitrary: r) (auto simp: reads_ret split: option.splits)
  moreover have "reads db False (modifyE (\<lambda>s. s\<lparr>cache_reward := r, cache_updatetime := t\<rparr>))" for r t
    by (rule reads_modifyE) (simp add: kept_def)
  ultimately show "reads db False (calcDayReward E)"
    unfolding calcDayReward_def by (intro reads_base reads_accessors)
  show "reads db False (div_reward p n)"
    by (cases p) (auto intro!: reads_thenE reads_modifyE reads_ret simp: kept_def)
qed

lemmas reads_parts = reads_base reads_accessors reads_node reads_get_pending reads_split_page reads_date_loop
  reads_reward_loop reads_day_reward

text \<open>The summary is the only handler with a nil dereference of its own.\<close>

lemma querying_handlers:
  assumes calm: "C \<longrightarrow> derefs_no_nil (rpc E)"
  shows "querying db C (block_number_Main E)" "querying db C (get_block_by_height_Main E r1)" "querying db C (Get_Blocks E r2)"
  "querying db C (Get_by_hash E r3)" "querying db C (get_transaction_by_hash_Main E r3)" "querying db C (Get_by_addr E r4)"
  "querying db C (Get_by_addr_and_type E cap r5)" "querying db C (Get_by_height E r6)" "querying db C (Get_transactions E r2)"
  "querying db C (get_addr_pending_Main E r7)" "querying db C (get_hash_pending_Main E r3)"
  "querying db C (Get_mined_block_by_addr E r4)" "querying db C (get_addr_mining_rewards_Main E r8)"
  "querying db C (get_mined_block_by_addr_and_date_Main E r8)" "querying db C (get_exchange_rate_Main E fl)"
  "querying db C (get_balance_Main E r7)"
  unfolding block_number_Main_def get_block_by_height_Main_def Get_Blocks_def Get_by_hash_def
    get_transaction_by_hash_Main_def Get_by_addr_def Get_by_addr_and_type_def Get_by_height_def
    Get_transactions_def get_addr_pending_Main_def get_hash_pending_Main_def Get_mined_block_by_addr_def
    get_addr_mining_rewards_Main_def get_mined_block_by_addr_and_date_Main_def get_exchange_rate_Main_def
    get_balance_Main_def Let_def
  by (rule queryingI, intro reads_parts calm)+

lemma querying_summary: "querying db False (get_summary_Main E)"
proof -
  have calm: "False \<longrightarrow> derefs_no_nil (rpc E)" by simp
  show ?thesis unfolding get_summary_Main_def Let_def by (rule queryingI, intro reads_parts calm)
qed

lemma querying_tag: "querying db C h \<Longrightarrow> querying db C (\<lambda>s. tag f (h s))"
  by (simp add: querying_def tag_def served.map_disc_iff)

lemma run_api_queries:
  assumes "C \<longrightarrow> derefs_no_nil (rpc E) \<and> a \<noteq> GetSummary_api"
  shows "querying db C (run_api E cap fl B a)"
proof -
  have calm: "C \<longrightarrow> derefs_no_nil (rpc E)" using assms by simp
  have "querying db C (\<lambda>s. run_api E cap fl B a s)"
  proof (cases "a = GetSummary_api")
    case True
    with assms have "C = False" by simp
    with True show ?thesis by (simp only: run_api.simps querying_tag querying_summary)
  qed (cases a; simp_all only: run_api.simps querying_tag querying_handlers [OF calm]; simp)
  then show ?thesis .
qed

lemma serve_http_queries:
  assumes "serve_http E cap fl rnd rq s = Some (rid, r, s')"
  shows "kept db s s'"
    and "derefs_no_nil (rpc E) \<Longrightarrow> is_Lost r \<Longrightarrow> path_of rq = ''/poc/get_summary''"
proof -
  obtain a where a: "route (verb_of rq) (path_of rq) = Some a" "run_api E cap fl (bound_as rq) a (ctx_New s) = (r, s')"
    using assms by (auto simp: serve_http_def split: option.splits)
  from run_api_queries [of False a cap fl "bound_as rq"] a(2) have "kept db (ctx_New s) s'"
    unfolding querying_def by (metis snd_conv)
  then show "kept db s s'" by (simp add: kept_def ctx_New_def)
  assume "derefs_no_nil (rpc E)" "is_Lost r"
  with run_api_queries [of True a cap fl "bound_as rq"] a(2) have "a = GetSummary_api"
    unfolding querying_def by (metis fst_conv)
  with a(1) show "path_of rq = ''/poc/get_summary''" by (auto simp: route_def routes_def split: if_splits)
qed

end

end
