(* ===== verification/Program.thy ===== *)
theory Program
  imports Api_Frame Sync_Loop Stats_Start
begin

text \<open>
  \<^verbatim>\<open>src/src/main.go\<close>: the process as a whole. After the tables are created, three activities run side by side: the
  synchroniser, the statistics server, and the HTTP server, one request after the other. A step of the process
  is a step of one of them; the synchroniser and the requests share the tables and the globals.
\<close>

section \<open>The outside of the process\<close>

text \<open>A chain node that keeps its contract and does not reach the tables.\<close>

locale outside = chain_node E db snap hdr canon + remote_node E db snap
  for E :: "'w env" and db :: "'w \<Rightarrow> dbst" and snap :: "'w \<Rightarrow> dbst" and hdr :: "string \<Rightarrow> int \<times> string" and canon :: "'w \<Rightarrow> 'c"

interpretation mem_outside: outside "mem_env node_rpc" mem_db mem_snap mem_hdr served_chain
  by (intro outside.intro mem_chain_node mem_remote.remote_node_axioms)

section \<open>The process\<close>

text \<open>\<open>pc_of\<close> is \<^const>\<open>None\<close> until the goroutine of the synchroniser has run its part before the loop.\<close>

record 'w process =
  pc_of :: "pc option"
  state_of :: "'w st"
  hub_of :: hub

text \<open>\<^verbatim>\<open>main\<close> up to the start of the HTTP server. A panic of \<^verbatim>\<open>InitDatabase\<close>, or of \<^verbatim>\<open>stats.Start\<close> in its goroutine,
  ends the process. \<open>listen\<close> tells whether listening on an address fails.\<close>

definition main_start ::
  "'w env \<Rightarrow> (string \<Rightarrow> 'w \<Rightarrow> 'w) \<Rightarrow> (table_def list \<Rightarrow> table_def list) \<Rightarrow> (string \<Rightarrow> go_error) \<Rightarrow> appConfig \<Rightarrow> 'w st \<Rightarrow> 'w process option" where
  "main_start E exec ord listen conf s =
     (case InitDatabase E exec ord (Schema (DB conf)) s of
        (Panic p, s1) \<Rightarrow> None
      | (Ret u, s1) \<Rightarrow>
          (case stats_Start conf listen (Start None []) of
             (Panic p, h) \<Rightarrow> None
           | (Ret v, h) \<Rightarrow>
               if listen (listen_addr conf) \<noteq> None then None
               else Some \<lparr>pc_of = None, state_of = s1, hub_of = h\<rparr>))"

text \<open>The process is over when the synchroniser has left it, by \<^verbatim>\<open>os.Exit\<close> or by a panic that nothing recovers.\<close>

definition running :: "'w process \<Rightarrow> bool" where
  "running P \<longleftrightarrow> pc_of P \<noteq> Some Crashed \<and> pc_of P \<noteq> Some Exited"

inductive process_step ::
  "'w env \<Rightarrow> (nat \<Rightarrow> nat) \<Rightarrow> (string \<Rightarrow> 'f) \<Rightarrow> (nat \<Rightarrow> nat) \<Rightarrow> (int \<Rightarrow> json) \<Rightarrow> 'w process \<Rightarrow> 'w process \<Rightarrow> bool"
  for E cap fl rnd tj where
  go_sync: "pc_of P = None \<Longrightarrow> StartSyncLastBlock E (state_of P) = (p, s) \<Longrightarrow>
    process_step E cap fl rnd tj P (P\<lparr>pc_of := Some p, state_of := s\<rparr>)"
| sync: "running P \<Longrightarrow> pc_of P = Some p \<Longrightarrow> sync_step E (p, state_of P) = (p', s) \<Longrightarrow>
    process_step E cap fl rnd tj P (P\<lparr>pc_of := Some p', state_of := s\<rparr>)"
| request: "running P \<Longrightarrow> serve_http E cap fl rnd rq (state_of P) = Some (rid, r, s) \<Longrightarrow>
    process_step E cap fl rnd tj P (P\<lparr>state_of := s\<rparr>)"
| stats: "running P \<Longrightarrow> hub_step tj (hub_of P) h \<Longrightarrow>
    process_step E cap fl rnd tj P (P\<lparr>hub_of := h\<rparr>)"

inductive process_reach ::
  "'w env \<Rightarrow> (nat \<Rightarrow> nat) \<Rightarrow> (string \<Rightarrow> 'f) \<Rightarrow> (nat \<Rightarrow> nat) \<Rightarrow> (int \<Rightarrow> json) \<Rightarrow> 'w process \<Rightarrow> 'w process \<Rightarrow> bool"
  for E cap fl rnd tj P0 where
  here: "process_reach E cap fl rnd tj P0 P0"
| more: "process_reach E cap fl rnd tj P0 P \<Longrightarrow> process_step E cap fl rnd tj P P' \<Longrightarrow> process_reach E cap fl rnd tj P0 P'"

lemma main_start_hub:
  assumes "main_start E exec ord listen conf s = Some P"
  shows "pc_of P = None \<and> hub_of P = Start None (ServerId (Stats conf))"
  using assms by (auto simp: main_start_def stats_Start_def Let_def split: prod.splits out.splits if_splits option.splits)

section \<open>The parts do not disturb each other\<close>

text \<open>Every reachable process is a reachable synchroniser beside a reachable statistics server.\<close>

context outside
begin

definition parts_ok :: "'w process \<Rightarrow> 'w process \<Rightarrow> (int \<Rightarrow> json) \<Rightarrow> bool" where
  "parts_ok P0 P tj \<longleftrightarrow> hub_reach tj (hub_of P0) (hub_of P) \<and>
     (case pc_of P of
        None \<Rightarrow> start_ok E db hdr (state_of P)
      | Some p \<Rightarrow> (\<exists>s0. start_ok E db hdr s0 \<and> reachable E db s0 p (state_of P)))"

lemma kept_handler: "kept db s s' \<Longrightarrow> handler_frame db s s'"
  by (simp add: kept_def handler_frame_def B_of_def)

lemma kept_start: "kept db s s' \<Longrightarrow> start_ok E db hdr s = start_ok E db hdr s'"
  by (simp add: kept_def start_ok_def B_of_def)

lemma process_step_parts:
  assumes "process_step E cap fl rnd tj P P'" and "parts_ok P0 P tj"
  shows "parts_ok P0 P' tj"
  using assms
proof (cases rule: process_step.cases)
  case (go_sync p s)
  with assms(2) show ?thesis by (auto simp: parts_ok_def intro: reachable.start)
next
  case (sync p p' s)
  with assms(2) show ?thesis by (auto simp: parts_ok_def intro: reachable.sync)
next
  case (request rq rid r s)
  note k = serve_http_queries(1) [OF request(3)]
  show ?thesis
    using assms(2) request(1) kept_start [OF k] reachable.handler [OF _ kept_handler [OF k]]
    by (auto simp: parts_ok_def split: option.splits)
next
  case (stats h)
  with assms(2) show ?thesis by (auto simp: parts_ok_def intro: hub_reach.more split: option.splits)
qed

lemma process_parts:
  assumes "process_reach E cap fl rnd tj P0 P" and "pc_of P0 = None" and "start_ok E db hdr (state_of P0)"
  shows "parts_ok P0 P tj"
  using assms(1)
proof (induction rule: process_reach.induct)
  case here
  then show ?case using assms(2,3) by (simp add: parts_ok_def hub_reach.here)
qed (rule process_step_parts)

end

end
