(* ===== verification/Spec2Isabelle.thy ===== *)
theory Spec2Isabelle
  imports Prop_Sync Prop_Restart Prop_Api Prop_Stats Program
begin

text \<open>
  A model of the Cypherium wallet server, the Go program under \<^verbatim>\<open>src/src\<close>, and the theorems that say what it does.
  The vendored packages are not part of the model.

  \<^bold>\<open>The program.\<close> One process with three activities. The \<^emph>\<open>synchroniser\<close> (\<^verbatim>\<open>sync/\<close>) follows a chain node over RPC and
  copies its blocks and transactions into MySQL tables; when the chain forks it marks rows as forked and copies
  again. The \<^emph>\<open>HTTP interface\<close> (\<^verbatim>\<open>api/\<close>, \<^verbatim>\<open>apicontext/\<close>) answers queries from those tables, from the node, and from the two
  globals it shares with the synchroniser. The \<^emph>\<open>statistics server\<close> (\<^verbatim>\<open>statistics/\<close>) collects the reports of nodes over
  websocket connections. \<^verbatim>\<open>main.go\<close> starts the three. The recount of the rewards and the exchange rates are
  further parts of \<^verbatim>\<open>sync/\<close> that \<^verbatim>\<open>main\<close> has commented out.

  \<^bold>\<open>Shape of the model.\<close> A Go function with effects is a function from the state to an outcome and a new state
  (type \<open>eff\<close> of \<open>Go_Prelude\<close>): the outcome is a value or a panic, and an error that the code returns is a value, an
  optional text. \<open>bindE\<close> and \<open>thenE\<close> compose such functions, and \<open>wp\<close> is their weakest precondition, over which the
  component proofs are done with the collection \<open>wp_simps\<close>. The state is the record \<open>st\<close> of \<open>World\<close>: the outside
  world, the globals \<^verbatim>\<open>block_now\<close> and \<^verbatim>\<open>GLastBlock\<close>, the connections of package \<^verbatim>\<open>sync\<close> and of the request being served, and
  the cache of the summary. What the process calls outside itself is the record \<open>env\<close>, a parameter of every
  definition that uses it: the tables as gorm offers them, the chain node as go-web3 offers it, the clock, opening
  of connections, and the orders in which Go ranges over maps.

  \<^bold>\<open>Theories.\<close>
  \<^item> \<open>Go_Prelude\<close>: 64-bit integers with their wrap-around, \<^verbatim>\<open>big.Int\<close> texts, strings, Go maps as association lists, panics,
    \<open>eff\<close> and \<open>wp\<close>. \<open>Go_Time\<close>: the calendar of package \<^verbatim>\<open>time\<close>, parsing and printing of dates.
  \<^item> \<open>Consts\<close> (\<^verbatim>\<open>const/const.go\<close>), \<open>Util\<close> (\<^verbatim>\<open>util/util.go\<close>), \<open>Config\<close> (\<^verbatim>\<open>config/config.go\<close>, loaded once).
  \<^item> \<open>World\<close>: rows, what the node reports, the environment, the state. \<open>Store_Spec\<close>: the contracts of the outside
    as locales.
  \<^item> \<open>Model_Block\<close>, \<open>Model_Transaction\<close>, \<open>Model_Reward\<close>: the accessors of \<^verbatim>\<open>model/t_*.go\<close>, each with what it reads or
    changes of the tables.
  \<^item> \<open>Connect\<close> (\<^verbatim>\<open>sync/connect.go\<close>), \<open>Sync_Block\<close> (\<^verbatim>\<open>sync/syncblock.go\<close> and the functions of \<^verbatim>\<open>sync/sync.go\<close> for one block),
    \<open>Sync_Loop\<close> (\<^verbatim>\<open>StartSyncLastBlock\<close> as a machine: a step is one round of the outer or of the inner loop).
    \<open>Sync_Inv\<close> has the invariant of the copied chain as a predicate of the rows, \<open>Sync_Proof\<close> that every operation
    on a block keeps it, \<open>Catch_Up\<close> that the machine gets to the top. \<open>Sync_Rows\<close> has what all rows share: statements
    about the rows that every operation keeps. \<open>Sync_Restart\<close> joins processes that follow one another over the same
    tables into one step relation (\<open>lives\<close>), \<open>Sync_Stuck\<close> has what the table refuses at the first heights.
  \<^item> \<open>Check_Reward\<close> (\<^verbatim>\<open>sync/checkreward.go\<close>), \<open>Rate_Sync\<close> (\<^verbatim>\<open>sync/ratesync.go\<close>, \<^verbatim>\<open>model/t_rate.go\<close>, \<^verbatim>\<open>model/redis.go\<close>, with floating-point
    operations as a parameter).
  \<^item> \<open>Api_Context\<close> (\<^verbatim>\<open>apicontext/apicontext.go\<close>), \<open>Api_Block\<close>, \<open>Api_Transaction\<close>, \<open>Api_Mining\<close>, \<open>Api_Poc\<close> (the handlers, one
    definition each), \<open>Api_Routes\<close> (\<^verbatim>\<open>api/api.go\<close>, the routes and the middleware of \<^verbatim>\<open>main.go\<close>), \<open>Api_Frame\<close> (no handler
    writes).
  \<^item> \<open>Stats_Report\<close> (\<^verbatim>\<open>statistics/model\<close>), \<open>Stats_Server\<close> (collector, messages, the loop of one connection), \<open>Stats_Hub\<close>
    (all connections, as a step relation), \<open>Stats_Start\<close> (\<^verbatim>\<open>stats.go\<close> and the example program).
  \<^item> \<open>Program\<close>: \<^verbatim>\<open>main\<close>; the process as a step relation over the three activities.
  \<^item> \<open>Table_Store\<close>: the tables of \<^verbatim>\<open>model/create_table.go\<close> and a database and a node in memory. \<open>Example_Chain\<close> and
    \<open>Example_Api\<close>: concrete data on them, which the witnesses run.
  \<^item> \<open>Prop_Sync\<close>, \<open>Prop_Restart\<close>, \<open>Prop_Api\<close>, \<open>Prop_Stats\<close> and this theory: the properties, each after the text that
    states it.

  \<^bold>\<open>Contracts and their interpretations.\<close> \<open>sql_table\<close> says what one table promises (a created row has a fresh id and
  a new unique key, an update reaches the selected rows only, a page is a part of a descending list, an aggregate
  always has a row), \<open>gorm_db\<close> adds
  the collation and the transactions, \<open>gorm_db_reliable\<close> that a commit succeeds, \<open>chain_node\<close> that a hash determines
  height and parent and that the two block fetches of one copy see one chain, \<open>remote_node\<close> that calls of the node
  do not reach the tables, \<open>outside\<close> joins the last two. They are all interpreted on the definitions of
  \<open>Table_Store\<close>. On top of \<open>chain_node\<close> three locales take a statement about the rows: \<open>table_view\<close> that it depends on
  them and on \<^verbatim>\<open>block_now\<close> only, so every read keeps it; \<open>row_invariant\<close> that the writes of a copy keep it;
  \<open>drop_invariant\<close> that the writes of a drop do too, so it holds in every reachable state. They are interpreted on
  the absence of rewards, the types of the transactions and a transaction that stays stored. \<open>node_registry\<close> is what a connection relies on of the collector, and is interpreted on \<^const>\<open>Collect\<close>.
  Every call may fail or panic at any time, unless a law excludes it.

  \<^bold>\<open>What is shown.\<close>
  \<^item> Synchroniser: in every reachable state the \<^const>\<open>NORMAL\<close> rows are a chain up to \<^verbatim>\<open>block_now\<close> (\<open>chain_inv\<close>: at most one
    row per height, linked by hash to its parent), for any node and database within the contracts; the same for the
    whole process. One copy extends the chain or steps back by at most one. Dropping a height refines the removal
    from the map of heights. Over tables that accept every valid row and a node that does not fail, the whole chain
    is copied with its transactions, after a computed number of steps, and stays so. The chain survives any number of
    restarts as long as no round finds the node behind. Every stored transaction is typed, so a drop never breaks off.
  \<^item> Accounting: the fee of a block is the sum over its transactions in any map order; a recount makes every total the
    sum of the block rewards; the mean rate lies between the extremes.
  \<^item> HTTP: pages show what their index and size say and together list every row once; the windows of the days of
    a date query cover its range without overlap, in at most 101 queries; printed dates parse back; an answered
    request has closed its MySQL connection; no request writes; only the summary can stay without an
    answer, by a nil dereference of its own.
  \<^item> Statistics: messages round-trip; the collector refines a finite map; known nodes are owned by open connections,
    and a connection that ends leaves none of its nodes.
  \<^item> Where the code does something else than intended, that is what the theorems state: a falling chain drops
    the wrong height, and a restart after that leaves a height missing for ever; a first block that was copied in part
    is never completed; a transaction revived after a fork keeps its old height; a short call of the mortgage contract ends the process, a page inside the pending
    transactions panics, fee totals are never stored, the summary's cache is divided by every hit, reports after
    the first are lost, a shared node identifier is dropped.

  \<^bold>\<open>Bounds.\<close> No definition has fuel. The endless loops are machines of which one round is a step; the other loops are
  structural or end by a measure (the days of a query, at most 101 by the range check). Heights, times and page
  numbers are 64-bit: \<open>to_int64\<close> and \<open>to_uint64\<close> wrap, and theorems that need no overflow say so as a hypothesis.
  Amounts are \<^verbatim>\<open>big.Int\<close>, unbounded integers.

  \<^bold>\<open>Decisions.\<close> A round of the synchroniser and the handling of one request are each one step, so a request sees the
  tables between two rounds; requests are interleaved with rounds and with the steps of the connections in any
  order. Panics have three kinds, because the recovery code tells them apart by reflection. JSON and form input
  are values of a datatype, after the parser; the struct tags are the lists of field names of the model. A query
  is a predicate on rows and a sort key.

  \<^bold>\<open>Not modelled.\<close> Log lines, sleeps, CORS and static files, since they change nothing that is read; the websocket upgrade
  and frames, the JSON and TOML parsers, the SQL text of queries and the redis pool, which are library code; the
  names \<^verbatim>\<open>TableName\<close> gives to gorm; \<^verbatim>\<open>StartSyncRate\<close>, whose loop only sleeps;
  \<^verbatim>\<open>api/mining/get_mined_block_by_addr_and_group_by_date\<close>, which is imported nowhere and does not compile (it puts a
  \<^verbatim>\<open>uint64\<close> into an \<^verbatim>\<open>int64\<close> field); data races between goroutines on the shared globals.
\<close>

section \<open>The summary over what the synchroniser stores\<close>

text \<open>C31: as long as the table holds a \<^const>\<open>NORMAL\<close> block that the synchroniser has copied, no summary ever
  computes the reward of a day: an answered one leaves the time of the cache as it was and shows either zero or
  what is left of the cached number, divided once more. (The other requests that reach the computation are
  lost, because the reward of a copied block is no number.)\<close>

theorem summary_is_never_fresh:
  assumes "chain_node E db snap hdr canon" and "\<forall>b \<in># blocks (db (ext s0)). F_reward b = [] \<and> F_miner b = []"
    and "reachable E db s0 p s" and "b \<in># blocks (db (ext s))" and "F_status b = NORMAL"
    and "get_summary_Main E s = (Served (Reply out), s')"
  shows "cache_updatetime s' = cache_updatetime s \<and> (PbDayReward out = Some 0 \<or> PbDayReward out = Some (cache_reward s div 1024))"
proof -
  have db: "gorm_db E db snap" using assms(1) by (simp add: chain_node_def gorm_db_reliable_def)
  let ?M = "{# b \<in># blocks (db (ext s)). F_status b = NORMAL #}"
  have none: "\<forall>b \<in># ?M. F_reward b = []"
    using drop_invariant.reachable_keeps [OF no_rewards_invariant [OF assms(1)] assms(3)] assms(2) by (simp add: no_rewards_def)
  have "\<not> number_rewards bs" if pg: "page_of F_block ?M 0 ONEDAYBLOCK bs" for bs
  proof -
    obtain xs where xs: "mset xs = ?M" "bs = page 0 ONEDAYBLOCK xs" using pg unfolding page_of_def by blast
    have "b \<in># mset xs" using assms(4,5) xs(1) by simp
    then have "xs \<noteq> []" by auto
    then have "hd xs \<in> set bs" by (cases xs) (simp_all add: xs(2) page_def ONEDAYBLOCK_def)
    moreover from this have "hd xs \<in># ?M" using page_of_keys(2) [OF pg] by blast
    ultimately show ?thesis using none by (force simp: number_rewards_def)
  qed
  with gorm_db.get_summary_reply [OF db assms(6)] show ?thesis by (auto simp: summary_reward_def)
qed

theorem summary_is_never_fresh_witness:
  "\<exists>out s'. get_summary_Main ex_env (ex_synced\<lparr>cache_reward := 5000, cache_updatetime := 10 ^ 30\<rparr>) = (Served (Reply out), s') \<and>
     PbDayReward out = Some 4 \<and> cache_updatetime s' = 10 ^ 30"
proof -
  let ?s = "ex_synced\<lparr>cache_reward := 5000, cache_updatetime := 10 ^ 30\<rparr>"
  let ?h = "get_summary_Main ex_env ?s"
  have "case fst ?h of Served (Reply out) \<Rightarrow> PbDayReward out = Some 4 | _ \<Rightarrow> False" by code_simp
  then obtain out s' where out: "?h = (Served (Reply out), s')" "PbDayReward out = Some 4" by (rule replied)
  have "\<forall>b \<in># blocks (mem_db (ext (init_st (ex_world ex_chain)))). F_reward b = [] \<and> F_miner b = []"
    by (simp add: init_st_def ex_world_def ex_mem_def mem_db_sel)
  moreover have "reachable ex_env mem_db (init_st (ex_world ex_chain)) (fst (ex_run 5)) ?s"
    by (rule reachable.handler [OF ex_run_reachable [of mem_db 5]]) (simp add: handler_frame_def ex_synced_def B_of_def)
  moreover have "size {# b \<in># blocks (mem_db (ext ex_synced)). F_status b = NORMAL #} = 3" by code_simp
  then have "{# b \<in># blocks (mem_db (ext ex_synced)). F_status b = NORMAL #} \<noteq> {#}" by (metis size_empty zero_neq_numeral)
  then obtain b where "b \<in># {# b \<in># blocks (mem_db (ext ex_synced)). F_status b = NORMAL #}" by (rule multiset_nonemptyE)
  then have "b \<in># blocks (mem_db (ext ?s))" "F_status b = NORMAL" by simp_all
  ultimately show ?thesis
    using summary_is_never_fresh [OF mem_chain_node _ _ _ _ out(1), of _ "fst (ex_run 5)" b] out by auto
qed

section \<open>Requests beside the synchroniser\<close>

text \<open>C28: over a node that is apart from the database, a request changes no table and nothing that the
  synchroniser keeps, whatever its path, its input and the way it ends.\<close>

theorem requests_are_read_only:
  assumes "remote_node E db snap" and "serve_http E cap fl rnd rq s = Some (rid, r, s')"
  shows "db (ext s') = db (ext s) \<and> block_now s' = block_now s \<and> GLastBlock s' = GLastBlock s"
  using remote_node.serve_http_queries(1) [OF assms] by (simp add: kept_def)

theorem requests_are_read_only_witness:
  "\<exists>rid r s'. serve_http ex_env id String.implode id (ex_http ''/block/get_blocks'') ex_miner_st = Some (rid, r, s') \<and>
     has_reply r \<and> mem_db (ext s') = mem_db (ext ex_miner_st)"
proof -
  let ?h = "serve_http ex_env id String.implode id (ex_http ''/block/get_blocks'') ex_miner_st"
  have "case ?h of Some (rid, r, s') \<Rightarrow> has_reply r | None \<Rightarrow> False" by code_simp
  then obtain rid r s' where h: "?h = Some (rid, r, s')" "has_reply r" by (auto split: option.splits)
  with requests_are_read_only [OF mem_remote.remote_node_axioms h(1)] show ?thesis by blast
qed





end
